(* ===== verification/Zif_Prelude.thy ===== *)
theory Zif_Prelude
  imports Main "HOL-Library.Word"
begin

text \<open>
  Shared ground of the development: how Go values are represented, the errors and panics of the
  program, and the facts on lists, byte strings and decimal numerals that the components use.

  Go \<open>string\<close> is a byte sequence and is modelled by \<open>string\<close> (a \<open>char\<close> is one byte); \<open>[]byte\<close> is a
  list of 8-bit words. Go \<open>int\<close> (64 bit on the supported platforms) is \<open>int\<close> with the range
  written out where the code depends on it, \<open>uint\<close> and \<open>uint64\<close> are \<open>64 word\<close> and wrap.
  A slice is a pair of a backing array and a length, so that reslicing up to the capacity and the
  sharing of backing arrays can be expressed.
\<close>

unbundle bit_operations_syntax

named_theorems zif_simps \<open>unfolding rules of the model's small operations\<close>
named_theorems zif_inv \<open>invariant preservation, one rule per operation\<close>

section \<open>Types\<close>

type_synonym byte = "8 word"
type_synonym bytes = "8 word list"
type_synonym uint64 = "64 word"

text \<open>
  The errors the program can return. \<open>ErrNew\<close> is an \<open>errors.New\<close> with its text; \<open>ErrDriver\<close> is a
  failure reported by the SQL driver, the file system, the network or a third-party decoder.
\<close>

datatype err =
    ErrNew string
  | ErrNoRows
  | ErrDriver
  | ErrEOF
  | CorruptInputError nat
  | AddressResolutionError string
  | PeerUnreachable
  | PeerDisconnected
  | RecursionLimit

text \<open>The outcome of a call returning \<open>(T, error)\<close>: a value, an error, or a run-time panic.\<close>

datatype 'a res = Ok 'a | Err err | Panic

fun res_bind :: "'a res \<Rightarrow> ('a \<Rightarrow> 'b res) \<Rightarrow> 'b res" where
  "res_bind (Ok x) f = f x"
| "res_bind (Err e) f = Err e"
| "res_bind Panic f = Panic"

lemma res_bind_Ok_iff [simp]: "res_bind r f = Ok y \<longleftrightarrow> (\<exists>x. r = Ok x \<and> f x = Ok y)"
  by (cases r) auto

text \<open>Two's complement arithmetic of Go's \<open>int\<close> and \<open>int64\<close>.\<close>

definition wrap64 :: "int \<Rightarrow> int" where
  "wrap64 i = (i + 2 ^ 63) mod 2 ^ 64 - 2 ^ 63"

definition int_range :: "int \<Rightarrow> bool" where
  "int_range i \<longleftrightarrow> - (2 ^ 63) \<le> i \<and> i < 2 ^ 63"

lemma wrap64_id [simp]: "int_range i \<Longrightarrow> wrap64 i = i"
  by (simp add: wrap64_def int_range_def)

section \<open>Byte strings\<close>

definition to_bytes :: "string \<Rightarrow> bytes" where
  "to_bytes s = map (\<lambda>c. of_nat (of_char c)) s"

definition to_string :: "bytes \<Rightarrow> string" where
  "to_string bs = map (\<lambda>b. char_of (unat b)) bs"

lemma unat_of_char_byte [simp]: "unat (of_nat (of_char c) :: byte) = of_char c"
proof -
  have "of_char c < (256 :: nat)" by simp
  then show ?thesis by (simp add: unat_of_nat)
qed

lemma to_string_to_bytes [simp]: "to_string (to_bytes s) = s"
  by (simp add: to_string_def to_bytes_def comp_def map_idI)

lemma to_bytes_to_string [simp]: "to_bytes (to_string bs) = bs"
proof -
  have "of_nat (of_char (char_of (unat b) :: char)) = b" for b :: byte
  proof -
    have "unat b < 256" using unsigned_less [of b] by simp
    then show ?thesis by simp
  qed
  then show ?thesis
    unfolding to_string_def to_bytes_def by (simp add: map_idI)
qed

lemma length_to_bytes [simp]: "length (to_bytes s) = length s"
  by (simp add: to_bytes_def)

lemma length_to_string [simp]: "length (to_string bs) = length bs"
  by (simp add: to_string_def)

lemma to_bytes_append [simp]: "to_bytes (s @ t) = to_bytes s @ to_bytes t"
  by (simp add: to_bytes_def)

lemma to_bytes_Nil [simp]: "to_bytes [] = []"
  by (simp add: to_bytes_def)

lemma to_string_Nil [simp]: "to_string [] = []"
  by (simp add: to_string_def)

lemma to_bytes_inj [simp]: "to_bytes s = to_bytes t \<longleftrightarrow> s = t"
  by (metis to_string_to_bytes)

lemma to_string_inj [simp]: "to_string s = to_string t \<longleftrightarrow> s = t"
  by (metis to_bytes_to_string)

section \<open>Decimal numerals: \<open>strconv.Itoa\<close> and \<open>strconv.Atoi\<close>\<close>

definition digit_char :: "nat \<Rightarrow> char" where
  "digit_char d = char_of (48 + d)"

definition char_digit :: "char \<Rightarrow> nat option" where
  "char_digit c = (let n = of_char c :: nat in if 48 \<le> n \<and> n < 58 then Some (n - 48) else None)"

fun itoa_nat :: "nat \<Rightarrow> string" where
  "itoa_nat n = (if n < 10 then [digit_char n] else itoa_nat (n div 10) @ [digit_char (n mod 10)])"

declare itoa_nat.simps [simp del]

definition Itoa :: "int \<Rightarrow> string" where
  "Itoa i = (if i < 0 then CHR ''-'' # itoa_nat (nat (- i)) else itoa_nat (nat i))"

fun atoi_digits :: "nat \<Rightarrow> string \<Rightarrow> nat option" where
  "atoi_digits acc [] = Some acc"
| "atoi_digits acc (c # cs) =
     (case char_digit c of None \<Rightarrow> None | Some d \<Rightarrow> atoi_digits (10 * acc + d) cs)"

definition Atoi_digits :: "string \<Rightarrow> nat option" where
  "Atoi_digits s = (if s = [] then None else atoi_digits 0 s)"

text \<open>A sign, at least one digit, nothing else, and a value that fits 64 bits.\<close>

definition Atoi :: "string \<Rightarrow> int option" where
  "Atoi s =
     (let (neg, ds) = (case s of
            [] \<Rightarrow> (False, [])
          | c # cs \<Rightarrow> if c = CHR ''-'' then (True, cs)
                     else if c = CHR ''+'' then (False, cs) else (False, s))
      in case Atoi_digits ds of
           None \<Rightarrow> None
         | Some n \<Rightarrow> (let i = (if neg then - int n else int n)
                     in if int_range i then Some i else None))"

lemma char_digit_digit_char [simp]: "d < 10 \<Longrightarrow> char_digit (digit_char d) = Some d"
  by (simp add: char_digit_def digit_char_def Let_def)

lemma atoi_digits_append:
  "atoi_digits acc (xs @ ys) =
     (case atoi_digits acc xs of None \<Rightarrow> None | Some a \<Rightarrow> atoi_digits a ys)"
  by (induction acc xs rule: atoi_digits.induct) (auto split: option.splits)

lemma itoa_nat_nonempty [simp]: "itoa_nat n \<noteq> []"
  by (subst itoa_nat.simps) simp

lemma atoi_itoa_nat: "atoi_digits 0 (itoa_nat n) = Some n"
proof (induction n rule: itoa_nat.induct)
  case (1 n)
  show ?case
  proof (cases "n < 10")
    case True
    then show ?thesis by (simp add: itoa_nat.simps [of n])
  next
    case False
    with 1 show ?thesis by (simp add: itoa_nat.simps [of n] atoi_digits_append)
  qed
qed

lemma itoa_nat_digits: "c \<in> set (itoa_nat n) \<Longrightarrow> \<exists>d<10. c = digit_char d"
proof (induction n rule: itoa_nat.induct)
  case (1 n)
  show ?case
  proof (cases "n < 10")
    case True
    with "1.prems" show ?thesis by (auto simp: itoa_nat.simps [of n])
  next
    case False
    have "\<exists>d<10. digit_char (n mod 10) = digit_char d" by (rule exI [of _ "n mod 10"]) simp
    with False 1 show ?thesis by (auto simp: itoa_nat.simps [of n])
  qed
qed

lemma digit_char_neq [simp]:
  assumes "d < 10"
  shows "digit_char d \<noteq> CHR ''-''" "digit_char d \<noteq> CHR ''+''" "digit_char d \<noteq> CHR ''|''"
proof -
  have "of_char (digit_char d) = 48 + d"
    using assms by (simp add: digit_char_def)
  then show "digit_char d \<noteq> CHR ''-''" "digit_char d \<noteq> CHR ''+''" "digit_char d \<noteq> CHR ''|''"
    using assms by auto
qed

lemma itoa_nat_hd:
  assumes "itoa_nat n = c # cs"
  shows "c \<noteq> CHR ''-''" "c \<noteq> CHR ''+''"
proof -
  have "c \<in> set (itoa_nat n)" using assms by simp
  then obtain d where "d < 10" "c = digit_char d" using itoa_nat_digits by blast
  then show "c \<noteq> CHR ''-''" "c \<noteq> CHR ''+''" by simp_all
qed

text \<open>\<open>Atoi\<close> reads back what \<open>Itoa\<close> writes, for every 64-bit integer.\<close>

lemma Atoi_Itoa: "int_range i \<Longrightarrow> Atoi (Itoa i) = Some i"
proof (cases "i < 0")
  case True
  assume "int_range i"
  with True show ?thesis
    by (simp add: Atoi_def Itoa_def Atoi_digits_def atoi_itoa_nat)
next
  case False
  assume r: "int_range i"
  obtain c cs where cs: "itoa_nat (nat i) = c # cs" by (cases "itoa_nat (nat i)") auto
  have "Atoi_digits (c # cs) = Some (nat i)"
    using atoi_itoa_nat [of "nat i"] cs by (simp add: Atoi_digits_def)
  then show ?thesis
    using False r cs itoa_nat_hd [OF cs] by (simp add: Atoi_def Itoa_def)
qed

lemma Itoa_no_bar: "CHR ''|'' \<notin> set (Itoa i)"
proof -
  have "CHR ''|'' \<notin> set (itoa_nat n)" for n
  proof
    assume "CHR ''|'' \<in> set (itoa_nat n)"
    from itoa_nat_digits [OF this] obtain d where d: "d < 10" and eq: "CHR ''|'' = digit_char d"
      by blast
    from digit_char_neq(3) [OF d] eq show False by simp
  qed
  then show ?thesis by (simp add: Itoa_def)
qed

section \<open>Encoders with a decoder\<close>

text \<open>
  The interface several components offer to each other: a printer and a reader such that the reader
  recovers what was printed. Whoever compares, stores or transmits the printed form instead of the
  value relies on \<open>enc_inj\<close>.
\<close>

locale codec =
  fixes enc :: "'a \<Rightarrow> 'b"
    and dec :: "'b \<Rightarrow> 'a res"
    and valid :: "'a \<Rightarrow> bool"
  assumes dec_enc: "valid x \<Longrightarrow> dec (enc x) = Ok x"
begin

lemma enc_inj: "valid x \<Longrightarrow> valid y \<Longrightarrow> enc x = enc y \<longleftrightarrow> x = y"
  by (metis dec_enc res.inject(1))

lemma inj_on_enc: "inj_on enc {x. valid x}"
  by (auto simp: inj_on_def enc_inj)

lemma mem_enc_image: "valid x \<Longrightarrow> list_all valid ys \<Longrightarrow> enc x \<in> enc ` set ys \<longleftrightarrow> x \<in> set ys"
  by (auto simp: enc_inj list_all_iff)

end

section \<open>Systems of steps\<close>

text \<open>
  A component that runs for ever is described by its starting states, its steps and the states it
  reaches. What holds at the start and is kept by every step holds in every state that is reached.
\<close>

locale transition_system =
  fixes start :: "'s \<Rightarrow> bool"
    and step :: "'s \<Rightarrow> 's \<Rightarrow> bool"
    and reach :: "'s \<Rightarrow> bool"
  assumes reach_run: "reach s \<Longrightarrow> \<exists>s0. start s0 \<and> rtranclp step s0 s"

locale invariant_system = transition_system +
  fixes inv :: "'s \<Rightarrow> bool"
  assumes start_inv: "start s \<Longrightarrow> inv s"
    and step_inv: "step s s' \<Longrightarrow> inv s \<Longrightarrow> inv s'"
begin

lemma run_inv: "rtranclp step s s' \<Longrightarrow> inv s \<Longrightarrow> inv s'"
  by (induction rule: rtranclp_induct) (auto intro: step_inv)

lemma reach_inv: "reach s \<Longrightarrow> inv s"
  using reach_run start_inv run_inv by blast

end

section \<open>Slices\<close>

text \<open>
  A Go slice of a non-shared array: \<open>sbuf\<close> holds the elements up to the capacity, \<open>slen\<close> is the
  visible length. Reslicing \<open>s[lo:hi]\<close> is bounded by the capacity, not by the length.
\<close>

record 'a slice =
  sbuf :: "'a list"
  slen :: nat

abbreviation scap :: "'a slice \<Rightarrow> nat" where
  "scap s \<equiv> length (sbuf s)"

definition sdata :: "'a slice \<Rightarrow> 'a list" where
  "sdata s = take (slen s) (sbuf s)"

definition slice_ok :: "'a slice \<Rightarrow> bool" where
  "slice_ok s \<longleftrightarrow> slen s \<le> scap s"

definition slice_of :: "'a list \<Rightarrow> 'a slice" where
  "slice_of xs = \<lparr>sbuf = xs, slen = length xs\<rparr>"

text \<open>
  \<open>append(s, xs...)\<close>: in place when the capacity suffices, else into a new array whose capacity
  the run time chooses; \<open>extra\<close> is what it allocates beyond the need.
\<close>

definition sappend :: "'a list \<Rightarrow> 'a slice \<Rightarrow> 'a list \<Rightarrow> 'a slice" where
  "sappend extra s xs =
     (let n = slen s + length xs in
      if n \<le> scap s then \<lparr>sbuf = sdata s @ xs @ drop n (sbuf s), slen = n\<rparr>
      else \<lparr>sbuf = sdata s @ xs @ extra, slen = n\<rparr>)"

lemma sdata_slice_of [simp]: "sdata (slice_of xs) = xs"
  by (simp add: sdata_def slice_of_def)

lemma slen_slice_of [simp]: "slen (slice_of xs) = length xs" "sbuf (slice_of xs) = xs"
  by (simp_all add: slice_of_def)

lemma slice_ok_slice_of [simp]: "slice_ok (slice_of xs)"
  by (simp add: slice_ok_def slice_of_def)

lemma length_sdata [simp]: "slice_ok s \<Longrightarrow> length (sdata s) = slen s"
  by (simp add: sdata_def slice_ok_def)

lemma sdata_sappend [simp]: "slice_ok s \<Longrightarrow> sdata (sappend extra s xs) = sdata s @ xs"
  by (simp add: sappend_def Let_def sdata_def slice_ok_def)

lemma slice_ok_sappend [simp]: "slice_ok s \<Longrightarrow> slice_ok (sappend extra s xs)"
  by (auto simp: sappend_def Let_def slice_ok_def sdata_def)

lemma slen_sappend [simp]: "slen (sappend extra s xs) = slen s + length xs"
  by (simp add: sappend_def Let_def)

section \<open>Lists\<close>

text \<open>Go's \<open>append(xs[:n], xs[n+1:]...)\<close> as a value: the list without its \<open>n\<close>th element.\<close>

definition remove_nth :: "nat \<Rightarrow> 'a list \<Rightarrow> 'a list" where
  "remove_nth n xs = take n xs @ drop (Suc n) xs"

lemma length_remove_nth [simp]: "n < length xs \<Longrightarrow> length (remove_nth n xs) = length xs - 1"
  by (simp add: remove_nth_def)

lemma remove_nth_Nil [simp]: "remove_nth n [] = []"
  by (simp add: remove_nth_def)

lemma remove_nth_Cons_0 [simp]: "remove_nth 0 (x # xs) = xs"
  by (simp add: remove_nth_def)

lemma remove_nth_Cons_Suc [simp]: "remove_nth (Suc n) (x # xs) = x # remove_nth n xs"
  by (simp add: remove_nth_def)

lemma set_remove_nth_subset: "set (remove_nth n xs) \<subseteq> set xs"
  unfolding remove_nth_def using set_take_subset set_drop_subset by fastforce

lemma insert_nth_remove_nth: "n < length xs \<Longrightarrow> insert (xs ! n) (set (remove_nth n xs)) = set xs"
  by (induction xs arbitrary: n) (auto simp: nth_Cons split: nat.splits)

lemma distinct_remove_nth: "distinct xs \<Longrightarrow> distinct (remove_nth n xs)"
proof (induction xs arbitrary: n)
  case (Cons a xs)
  then show ?case
    by (cases n) (auto dest: subsetD [OF set_remove_nth_subset])
qed simp

lemma remove_nth_not_in: "distinct xs \<Longrightarrow> n < length xs \<Longrightarrow> xs ! n \<notin> set (remove_nth n xs)"
proof (induction xs arbitrary: n)
  case (Cons a xs)
  then show ?case
    by (cases n) (auto dest: subsetD [OF set_remove_nth_subset])
qed simp

text \<open>The index of the first element satisfying a predicate, Go's search loop with \<open>break\<close>.\<close>

fun find_index :: "('a \<Rightarrow> bool) \<Rightarrow> 'a list \<Rightarrow> nat option" where
  "find_index P [] = None"
| "find_index P (x # xs) = (if P x then Some 0 else map_option Suc (find_index P xs))"

lemma find_index_None_iff: "find_index P xs = None \<longleftrightarrow> (\<forall>x\<in>set xs. \<not> P x)"
  by (induction xs) auto

lemma find_index_SomeD: "find_index P xs = Some n \<Longrightarrow> n < length xs \<and> P (xs ! n)"
  by (induction xs arbitrary: n) (auto split: if_splits)

end
