(* ===== verification/Sha256.thy ===== *)
theory Sha256
  imports Zif_Prelude
begin

text \<open>
  The hash of Go's standard library package \<^verbatim>\<open>crypto/sha256\<close> (FIPS 180-4), which the address checksum
  uses. The other hash functions and the signature scheme of the program are third-party packages
  and are parameters of the model, collected in the record \<open>crypto\<close>.
\<close>

type_synonym w32 = "32 word"

text \<open>The round constants and the initial state of FIPS 180-4 (4.2.2 and 5.3.3), in decimal.\<close>

definition sha_K :: "w32 list" where
  "sha_K = [
    1116352408, 1899447441, 3049323471, 3921009573, 961987163, 1508970993, 2453635748, 2870763221,
    3624381080, 310598401, 607225278, 1426881987, 1925078388, 2162078206, 2614888103, 3248222580,
    3835390401, 4022224774, 264347078, 604807628, 770255983, 1249150122, 1555081692, 1996064986,
    2554220882, 2821834349, 2952996808, 3210313671, 3336571891, 3584528711, 113926993, 338241895,
    666307205, 773529912, 1294757372, 1396182291, 1695183700, 1986661051, 2177026350, 2456956037,
    2730485921, 2820302411, 3259730800, 3345764771, 3516065817, 3600352804, 4094571909, 275423344,
    430227734, 506948616, 659060556, 883997877, 958139571, 1322822218, 1537002063, 1747873779,
    1955562222, 2024104815, 2227730452, 2361852424, 2428436474, 2756734187, 3204031479, 3329325298]"

definition sha_init :: "w32 list" where
  "sha_init = [1779033703, 3144134277, 1013904242, 2773480762,
               1359893119, 2600822924, 528734635, 1541459225]"

definition rotr :: "nat \<Rightarrow> w32 \<Rightarrow> w32" where
  "rotr n x = drop_bit n x OR push_bit (32 - n) x"

definition small_sigma0 :: "w32 \<Rightarrow> w32" where
  "small_sigma0 x = rotr 7 x XOR rotr 18 x XOR drop_bit 3 x"

definition small_sigma1 :: "w32 \<Rightarrow> w32" where
  "small_sigma1 x = rotr 17 x XOR rotr 19 x XOR drop_bit 10 x"

definition big_sigma0 :: "w32 \<Rightarrow> w32" where
  "big_sigma0 x = rotr 2 x XOR rotr 13 x XOR rotr 22 x"

definition big_sigma1 :: "w32 \<Rightarrow> w32" where
  "big_sigma1 x = rotr 6 x XOR rotr 11 x XOR rotr 25 x"

text \<open>The message schedule, most recent word first.\<close>

fun sha_extend :: "nat \<Rightarrow> w32 list \<Rightarrow> w32 list" where
  "sha_extend 0 ws = ws"
| "sha_extend (Suc n) ws =
     sha_extend n ((small_sigma1 (ws ! 1) + ws ! 6 + small_sigma0 (ws ! 14) + ws ! 15) # ws)"

fun sha_round :: "w32 list \<Rightarrow> w32 \<times> w32 \<Rightarrow> w32 list" where
  "sha_round [a, b, c, d, e, f, g, h] (k, w) =
     (let t1 = h + big_sigma1 e + ((e AND f) XOR (NOT e AND g)) + k + w;
          t2 = big_sigma0 a + ((a AND b) XOR (a AND c) XOR (b AND c))
      in [t1 + t2, a, b, c, d + t1, e, f, g])"
| "sha_round s kw = s"

fun be32 :: "bytes \<Rightarrow> w32 list" where
  "be32 (a # b # c # d # r) =
     (push_bit 24 (ucast a) OR push_bit 16 (ucast b) OR push_bit 8 (ucast c) OR ucast d) # be32 r"
| "be32 r = []"

definition w32_bytes :: "w32 \<Rightarrow> bytes" where
  "w32_bytes w = [ucast (drop_bit 24 w), ucast (drop_bit 16 w), ucast (drop_bit 8 w), ucast w]"

definition sha_block :: "w32 list \<Rightarrow> bytes \<Rightarrow> w32 list" where
  "sha_block h blk =
     map2 (+) h (foldl sha_round h (zip sha_K (rev (sha_extend 48 (rev (be32 blk))))))"

definition sha_pad :: "bytes \<Rightarrow> bytes" where
  "sha_pad m =
     (let n = length m; l = (of_nat (8 * n) :: 64 word)
      in m @ [0x80] @ replicate ((119 - n mod 64) mod 64) 0
         @ w32_bytes (ucast (drop_bit 32 l)) @ w32_bytes (ucast l))"

fun sha_blocks :: "nat \<Rightarrow> w32 list \<Rightarrow> bytes \<Rightarrow> w32 list" where
  "sha_blocks 0 h bs = h"
| "sha_blocks (Suc n) h bs = sha_blocks n (sha_block h (take 64 bs)) (drop 64 bs)"

definition sha256 :: "bytes \<Rightarrow> bytes" where
  "sha256 m =
     (let p = sha_pad m
      in concat (map w32_bytes (sha_blocks (length p div 64) sha_init p)))"

lemma length_sha_round [simp]: "length h = 8 \<Longrightarrow> length (sha_round h kw) = 8"
  by (induction h kw rule: sha_round.induct) (auto simp: Let_def)

lemma length_foldl_sha_round [simp]: "length h = 8 \<Longrightarrow> length (foldl sha_round h ks) = 8"
  by (induction ks arbitrary: h) auto

lemma length_sha_block [simp]: "length h = 8 \<Longrightarrow> length (sha_block h blk) = 8"
  by (simp add: sha_block_def)

lemma length_sha_blocks [simp]: "length h = 8 \<Longrightarrow> length (sha_blocks n h bs) = 8"
  by (induction n h bs rule: sha_blocks.induct) auto

lemma length_w32_bytes [simp]: "length (w32_bytes w) = 4"
  by (simp add: w32_bytes_def)

text \<open>The digest has 32 bytes, whatever the message.\<close>

lemma length_sha256 [simp]: "length (sha256 m) = 32"
proof -
  have "length (concat (map w32_bytes ws)) = 4 * length ws" for ws
    by (induction ws) auto
  moreover have "length sha_init = 8" by (simp add: sha_init_def)
  ultimately show ?thesis by (simp add: sha256_def Let_def)
qed

section \<open>Third-party primitives\<close>

text \<open>
  \<^verbatim>\<open>golang.org/x/crypto/sha3\<close>, \<^verbatim>\<open>minio/blake2b-simd\<close> and \<^verbatim>\<open>golang.org/x/crypto/ed25519\<close>. A hash
  object of these packages is modelled by the bytes written to it so far; \<open>Sum\<close> is the digest of
  these. \<open>ed_verify\<close> and \<open>ed_sign\<close> are the functions on keys of the right length; the length checks
  the package makes (it panics on a wrong one) are in the definitions below.
\<close>

record crypto =
  sha3_256 :: "bytes \<Rightarrow> bytes"
  blake2b :: "nat \<Rightarrow> bytes \<Rightarrow> bytes"
  ed_verify :: "bytes \<Rightarrow> bytes \<Rightarrow> bytes \<Rightarrow> bool"
  ed_sign :: "bytes \<Rightarrow> bytes \<Rightarrow> bytes"

definition PublicKeySize :: nat where "PublicKeySize = 32"
definition PrivateKeySize :: nat where "PrivateKeySize = 64"
definition SignatureSize :: nat where "SignatureSize = 64"

definition ed25519_Verify :: "crypto \<Rightarrow> bytes \<Rightarrow> bytes \<Rightarrow> bytes \<Rightarrow> bool res" where
  "ed25519_Verify C pk m sig =
     (if length pk \<noteq> PublicKeySize then Panic
      else if length sig \<noteq> SignatureSize then Ok False
      else Ok (ed_verify C pk m sig))"

definition ed25519_Sign :: "crypto \<Rightarrow> bytes \<Rightarrow> bytes \<Rightarrow> bytes res" where
  "ed25519_Sign C sk m = (if length sk \<noteq> PrivateKeySize then Panic else Ok (ed_sign C sk m))"

text \<open>
  Documented behaviour of these packages: the digest sizes, the signature size, and that a
  signature made with a private key verifies under its public half, the last 32 bytes.
\<close>

definition crypto_ok :: "crypto \<Rightarrow> bool" where
  "crypto_ok C \<longleftrightarrow>
     (\<forall>m. length (sha3_256 C m) = 32) \<and>
     (\<forall>n m. length (blake2b C n m) = n) \<and>
     (\<forall>sk m. length (ed_sign C sk m) = SignatureSize) \<and>
     (\<forall>sk m. length sk = PrivateKeySize \<longrightarrow> ed_verify C (drop 32 sk) m (ed_sign C sk m))"

lemma crypto_ok_lengths:
  assumes "crypto_ok C"
  shows "length (sha3_256 C m) = 32" "length (blake2b C n m) = n"
    "length (ed_sign C sk m) = SignatureSize"
  using assms by (simp_all add: crypto_ok_def)

text \<open>An instance that satisfies these laws: hashes and signatures that depend on the message.\<close>

definition pad_to :: "nat \<Rightarrow> bytes \<Rightarrow> bytes" where
  "pad_to n m = take n (m @ replicate n 0)"

lemma length_pad_to [simp]: "length (pad_to n m) = n"
  by (simp add: pad_to_def)

definition demo_crypto :: crypto where
  "demo_crypto = \<lparr>sha3_256 = pad_to 32, blake2b = pad_to,
     ed_verify = (\<lambda>pk m s. s = pad_to 64 (take 8 pk @ m)),
     ed_sign = (\<lambda>sk m. pad_to 64 (take 8 (drop 32 sk) @ m))\<rparr>"

lemma demo_crypto_ok: "crypto_ok demo_crypto"
  by (simp add: crypto_ok_def demo_crypto_def SignatureSize_def)

end
