(* ===== verification/Base58Check.thy ===== *)
theory Base58Check
  imports Sha256
begin

text \<open>
  The vendored packages \<^verbatim>\<open>wjh/hellobitcoin/base58check\<close> and \<^verbatim>\<open>base58check/base58\<close>, which turn the raw
  bytes of a Zif address into its printed form and back. \<open>math/big\<close> integers are natural numbers;
  \<open>SetBytes\<close> and \<open>Bytes\<close> are the big-endian conversions \<open>SetBytes\<close> and \<open>Bytes_big\<close>.

  The lemmas show that \<open>Decode\<close> recovers what \<open>Encode\<close> printed for the version byte the program
  uses, that \<open>Decode\<close> panics exactly on texts with fewer than four significant bytes, and that it
  never looks at the checksum.
\<close>

section \<open>Package base58\<close>

definition alphabet :: string where
  "alphabet = ''123456789ABCDEFGHJKLMNPQRSTUVWXYZabcdefghijkmnopqrstuvwxyz''"

text \<open>\<open>decodeMap\<close> holds 0xFF for bytes outside the alphabet; here \<open>None\<close>.\<close>

definition decodeMap :: "char \<Rightarrow> nat option" where
  "decodeMap c = find_index ((=) c) alphabet"

fun DecodeToBig_loop :: "nat \<Rightarrow> nat \<Rightarrow> string \<Rightarrow> nat res" where
  "DecodeToBig_loop i n [] = Ok n"
| "DecodeToBig_loop i n (c # cs) =
     (case decodeMap c of
        None \<Rightarrow> Err (CorruptInputError i)
      | Some b \<Rightarrow> DecodeToBig_loop (Suc i) (n * 58 + b) cs)"

definition DecodeToBig :: "string \<Rightarrow> nat res" where
  "DecodeToBig src = DecodeToBig_loop 0 0 src"

fun EncodeBig_loop :: "nat \<Rightarrow> string" where
  "EncodeBig_loop n = (if n > 0 then alphabet ! (n mod 58) # EncodeBig_loop (n div 58) else [])"

declare EncodeBig_loop.simps [simp del]

lemma EncodeBig_loop_0 [simp]: "EncodeBig_loop 0 = []"
  by (simp add: EncodeBig_loop.simps)

definition EncodeBig :: "string \<Rightarrow> nat \<Rightarrow> string" where
  "EncodeBig dst n = dst @ rev (EncodeBig_loop n)"

section \<open>Package base58check\<close>

definition SetBytes :: "bytes \<Rightarrow> nat" where
  "SetBytes bs = foldl (\<lambda>a b. a * 256 + unat b) 0 bs"

fun Bytes_big :: "nat \<Rightarrow> bytes" where
  "Bytes_big n = (if n = 0 then [] else Bytes_big (n div 256) @ [of_nat (n mod 256)])"

declare Bytes_big.simps [simp del]

definition hex_digit :: "char \<Rightarrow> nat option" where
  "hex_digit c =
     (let n = of_char c :: nat in
      if 48 \<le> n \<and> n \<le> 57 then Some (n - 48)
      else if 97 \<le> n \<and> n \<le> 102 then Some (n - 87)
      else if 65 \<le> n \<and> n \<le> 70 then Some (n - 55)
      else None)"

fun hex_DecodeString :: "string \<Rightarrow> bytes res" where
  "hex_DecodeString [] = Ok []"
| "hex_DecodeString [c] = Err ErrDriver"
| "hex_DecodeString (c # d # cs) =
     (case (hex_digit c, hex_digit d) of
        (Some h, Some l) \<Rightarrow> res_bind (hex_DecodeString cs) (\<lambda>bs. Ok (of_nat (16 * h + l) # bs))
      | _ \<Rightarrow> Err ErrDriver)"

definition checksum :: "bytes \<Rightarrow> bytes" where
  "checksum encoded = take 4 (sha256 (sha256 encoded))"

definition Encode :: "string \<Rightarrow> bytes \<Rightarrow> string res" where
  "Encode prefix byteData =
     res_bind (hex_DecodeString prefix) (\<lambda>prefixBytes.
       case prefixBytes of
         [] \<Rightarrow> Panic
       | p # _ \<Rightarrow>
           (let encoded = p # byteData;
                encodedChecksum = encoded @ checksum encoded;
                zeroBytes = length (takeWhile (\<lambda>b. b = 0) encodedChecksum)
            in Ok (replicate zeroBytes CHR ''1'' @ EncodeBig [] (SetBytes encodedChecksum))))"

definition Decode :: "string \<Rightarrow> bytes res" where
  "Decode value =
     (let zeroBytes = length (takeWhile (\<lambda>c. c = CHR ''1'') value) in
      res_bind (DecodeToBig value) (\<lambda>publicKeyInt.
        let encodedChecksum = Bytes_big publicKeyInt in
        if length encodedChecksum < 4 then Panic
        else
          (let encoded = take (length encodedChecksum - 4) encodedChecksum;
               buffer = replicate zeroBytes 0 @ encoded
           in if buffer = [] then Panic else Ok (tl buffer))))"

section \<open>Base 58\<close>

lemma length_alphabet [simp]: "length alphabet = 58"
  by (simp add: alphabet_def)

lemma distinct_alphabet [simp]: "distinct alphabet"
  by (simp add: alphabet_def)

lemma find_index_nth_distinct:
  "distinct xs \<Longrightarrow> n < length xs \<Longrightarrow> find_index ((=) (xs ! n)) xs = Some n"
proof (induction xs arbitrary: n)
  case (Cons a xs)
  then show ?case by (cases n) auto
qed simp

lemma decodeMap_alphabet [simp]: "d < 58 \<Longrightarrow> decodeMap (alphabet ! d) = Some d"
  by (simp add: decodeMap_def find_index_nth_distinct)

lemma DecodeToBig_loop_append:
  "DecodeToBig_loop i n (xs @ ys) =
     res_bind (DecodeToBig_loop i n xs) (\<lambda>m. DecodeToBig_loop (i + length xs) m ys)"
  by (induction i n xs rule: DecodeToBig_loop.induct) (auto split: option.splits)

lemma DecodeToBig_EncodeBig_loop: "DecodeToBig_loop 0 0 (rev (EncodeBig_loop n)) = Ok n"
proof (induction n rule: EncodeBig_loop.induct)
  case (1 n)
  then show ?case
    by (cases "n > 0") (auto simp: EncodeBig_loop.simps [of n] DecodeToBig_loop_append)
qed

lemma DecodeToBig_EncodeBig: "DecodeToBig (EncodeBig [] n) = Ok n"
  by (simp add: DecodeToBig_def EncodeBig_def DecodeToBig_EncodeBig_loop)

text \<open>The printed form of a positive number has no leading zero digit.\<close>

lemma last_EncodeBig_loop: "n > 0 \<Longrightarrow> \<exists>d. 0 < d \<and> d < 58 \<and> last (EncodeBig_loop n) = alphabet ! d"
proof (induction n rule: EncodeBig_loop.induct)
  case (1 n)
  show ?case
  proof (cases "n div 58 > 0")
    case True
    then have "EncodeBig_loop (n div 58) \<noteq> []"
      by (subst EncodeBig_loop.simps) simp
    with 1 True show ?thesis by (simp add: EncodeBig_loop.simps [of n])
  next
    case False
    then have "n < 58" "EncodeBig_loop (n div 58) = []"
      by (auto simp: EncodeBig_loop.simps [of "n div 58"])
    with 1 show ?thesis
      by (simp add: EncodeBig_loop.simps [of n]) (metis)
  qed
qed

lemma alphabet_not_1: "0 < d \<Longrightarrow> d < 58 \<Longrightarrow> alphabet ! d \<noteq> CHR ''1''"
proof -
  assume "0 < d" "d < 58"
  then have "alphabet ! d \<noteq> alphabet ! 0"
    by (simp add: nth_eq_iff_index_eq [OF distinct_alphabet])
  then show ?thesis by (simp add: alphabet_def)
qed

lemma hd_EncodeBig:
  assumes "n > 0"
  shows "EncodeBig [] n \<noteq> []" "hd (EncodeBig [] n) \<noteq> CHR ''1''"
proof -
  from assms have ne: "EncodeBig_loop n \<noteq> []" by (subst EncodeBig_loop.simps) simp
  then show "EncodeBig [] n \<noteq> []" by (simp add: EncodeBig_def)
  obtain d where "0 < d" "d < 58" "last (EncodeBig_loop n) = alphabet ! d"
    using last_EncodeBig_loop [OF assms] by blast
  with ne show "hd (EncodeBig [] n) \<noteq> CHR ''1''"
    by (simp add: EncodeBig_def hd_rev alphabet_not_1)
qed

text \<open>The number of digits and the leading digit, from bounds on the number.\<close>

lemma EncodeBig_loop_leading:
  "d * 58 ^ k \<le> n \<Longrightarrow> n < Suc d * 58 ^ k \<Longrightarrow> 0 < d \<Longrightarrow> d < 58 \<Longrightarrow>
   length (EncodeBig_loop n) = Suc k \<and> last (EncodeBig_loop n) = alphabet ! d"
proof (induction k arbitrary: n)
  case 0
  then have "n = d" by simp
  with 0 show ?case
    by (simp add: EncodeBig_loop.simps [of d] EncodeBig_loop.simps [of 0])
next
  case (Suc k)
  have "d * 58 ^ k \<le> n div 58"
    using Suc.prems(1) by (simp add: less_eq_div_iff_mult_less_eq algebra_simps)
  moreover have "n div 58 < Suc d * 58 ^ k"
    using Suc.prems(2) by (simp add: div_less_iff_less_mult algebra_simps)
  ultimately have IH: "length (EncodeBig_loop (n div 58)) = Suc k"
    "last (EncodeBig_loop (n div 58)) = alphabet ! d"
    using Suc.IH Suc.prems(3,4) by auto
  have "n > 0" using Suc.prems(1,3) by (metis gr0I mult_is_0 not_le power_eq_0_iff zero_neq_numeral)
  with IH show ?case
    by (auto simp: EncodeBig_loop.simps [of n])
qed

section \<open>Big-endian numbers\<close>

lemma SetBytes_snoc [simp]: "SetBytes (bs @ [b]) = SetBytes bs * 256 + unat b"
  by (simp add: SetBytes_def)

lemma SetBytes_Nil [simp]: "SetBytes [] = 0"
  by (simp add: SetBytes_def)

lemma SetBytes_Cons: "SetBytes (b # bs) = unat b * 256 ^ length bs + SetBytes bs"
  by (induction bs rule: rev_induct)
    (simp_all add: SetBytes_def algebra_simps)

lemma unat_byte_less [simp]: "unat (b :: byte) < 256"
  using unsigned_less [of b] by simp

lemma SetBytes_less: "SetBytes bs < 256 ^ length bs"
proof (induction bs rule: rev_induct)
  case (snoc b bs)
  have "SetBytes bs * 256 + unat b < (SetBytes bs + 1) * 256"
    using unat_byte_less [of b] by simp
  also have "\<dots> \<le> 256 ^ length bs * 256"
    using snoc by (intro mult_right_mono) auto
  finally show ?case by (simp add: mult.commute)
qed simp

lemma Bytes_big_SetBytes:
  "bs = [] \<or> hd bs \<noteq> 0 \<Longrightarrow> Bytes_big (SetBytes bs) = bs"
proof (induction bs rule: rev_induct)
  case Nil
  then show ?case by (simp add: Bytes_big.simps)
next
  case (snoc b bs)
  have ub: "unat b < 256" by simp
  have IH: "Bytes_big (SetBytes bs) = bs"
    using snoc by (cases bs) auto
  have pos: "SetBytes (bs @ [b]) \<noteq> 0"
  proof (cases bs)
    case Nil
    with snoc.prems show ?thesis by (simp add: SetBytes_Cons unat_eq_0)
  next
    case (Cons a as)
    with snoc.prems have "unat a \<noteq> 0" by (simp add: unat_eq_0)
    with Cons show ?thesis by (simp add: SetBytes_Cons)
  qed
  have "(SetBytes bs * 256 + unat b) div 256 = SetBytes bs"
    "(SetBytes bs * 256 + unat b) mod 256 = unat b" using ub by simp_all
  with pos IH show ?case
    by (simp add: Bytes_big.simps [of "SetBytes bs * 256 + unat b"])
qed

lemma length_checksum [simp]: "length (checksum bs) = 4"
  by (simp add: checksum_def)

section \<open>Round trip\<close>

lemma takeWhile_Nil_hd: "xs \<noteq> [] \<Longrightarrow> hd xs \<noteq> a \<Longrightarrow> takeWhile (\<lambda>c. c = a) xs = []"
  by (cases xs) auto

lemma hex_51: "hex_DecodeString ''51'' = Ok [0x51]"
  by (simp add: hex_digit_def Let_def)

lemma Encode_51:
  "Encode ''51'' raw = Ok (EncodeBig [] (SetBytes (0x51 # raw @ checksum (0x51 # raw))))"
  unfolding Encode_def hex_51 by (simp add: Let_def)

lemma Decode_Encode_51:
  assumes "Encode ''51'' raw = Ok s"
  shows "Decode s = Ok raw"
proof -
  let ?bs = "0x51 # raw @ checksum (0x51 # raw)"
  from assms have s: "s = EncodeBig [] (SetBytes ?bs)" by (simp add: Encode_51)
  have pos: "SetBytes ?bs > 0" by (simp add: SetBytes_Cons)
  have "takeWhile (\<lambda>c. c = CHR ''1'') s = []"
    unfolding s using hd_EncodeBig [OF pos] by (rule takeWhile_Nil_hd)
  moreover have "DecodeToBig s = Ok (SetBytes ?bs)"
    by (simp add: s DecodeToBig_EncodeBig)
  moreover have "Bytes_big (SetBytes ?bs) = ?bs"
    by (rule Bytes_big_SetBytes) simp
  ultimately show ?thesis by (simp add: Decode_def)
qed

definition EncodeZif :: "bytes \<Rightarrow> string" where
  "EncodeZif raw = (case Encode ''51'' raw of Ok s \<Rightarrow> s | _ \<Rightarrow> [])"

interpretation b58: codec EncodeZif Decode "\<lambda>_. True"
proof
  fix raw :: bytes
  show "Decode (EncodeZif raw) = Ok raw"
    by (rule Decode_Encode_51) (simp add: EncodeZif_def Encode_51)
qed

lemma EncodeZif_eq: "EncodeZif raw = EncodeBig [] (SetBytes (0x51 # raw @ checksum (0x51 # raw)))"
  by (simp add: EncodeZif_def Encode_51)

lemma EncodeZif_nonempty [simp]: "EncodeZif raw \<noteq> []"
  by (simp add: EncodeZif_eq hd_EncodeBig(1) SetBytes_Cons)

text \<open>
  With the version byte 0x51 and 20 raw bytes, the printed form has 34 characters and starts
  with \<open>Z\<close>: 32 (the digit \<open>Z\<close>) times \<open>58 ^ 33\<close> is below every such number and 33 times above.
\<close>

lemma EncodeZif_20:
  assumes "length raw = 20"
  shows "length (EncodeZif raw) = 34" "hd (EncodeZif raw) = CHR ''Z''"
proof -
  let ?cs = "raw @ checksum (0x51 # raw)"
  let ?n = "SetBytes (0x51 # ?cs)"
  have n: "?n = 81 * 256 ^ 24 + SetBytes ?cs"
    using assms by (simp add: SetBytes_Cons)
  have less: "SetBytes ?cs < 256 ^ 24"
    using SetBytes_less [of ?cs] assms by simp
  have "32 * 58 ^ 33 \<le> ?n" "?n < Suc 32 * 58 ^ 33"
    using n less by simp_all
  then have lead: "length (EncodeBig_loop ?n) = Suc 33" "last (EncodeBig_loop ?n) = alphabet ! 32"
    using EncodeBig_loop_leading [of 32 33 ?n] by simp_all
  then have "EncodeBig_loop ?n \<noteq> []" by auto
  with lead show "length (EncodeZif raw) = 34" "hd (EncodeZif raw) = CHR ''Z''"
    by (simp_all add: EncodeZif_eq EncodeBig_def hd_rev) (simp add: alphabet_def)
qed

section \<open>Behaviour on other texts\<close>

text \<open>\<open>Decode\<close> fails on the first byte outside the alphabet, and reports its index.\<close>

lemma DecodeToBig_loop_corrupt:
  "\<forall>c\<in>set cs. decodeMap c \<noteq> None \<Longrightarrow> decodeMap x = None \<Longrightarrow>
   DecodeToBig_loop i n (cs @ x # ys) = Err (CorruptInputError (i + length cs))"
  by (induction cs arbitrary: i n) auto

lemma Decode_corrupt:
  assumes "\<forall>c\<in>set cs. decodeMap c \<noteq> None" and "decodeMap x = None"
  shows "Decode (cs @ x # ys) = Err (CorruptInputError (length cs))"
  using DecodeToBig_loop_corrupt [OF assms, of 0 0]
  by (simp add: Decode_def Let_def DecodeToBig_def)

lemma Bytes_big_length: "n < 256 ^ k \<Longrightarrow> length (Bytes_big n) \<le> k"
proof (induction k arbitrary: n)
  case 0
  then show ?case by (simp add: Bytes_big.simps)
next
  case (Suc k)
  have "n div 256 < 256 ^ k" using Suc.prems by (simp add: div_less_iff_less_mult algebra_simps)
  then show ?case using Suc.IH [of "n div 256"] by (simp add: Bytes_big.simps [of n])
qed

text \<open>Texts whose number has fewer than four bytes make the slice expression panic.\<close>

lemma Decode_short_panics:
  assumes "DecodeToBig s = Ok n" and "n < 256 ^ 3"
  shows "Decode s = Panic"
  using assms Bytes_big_length [of n 3] by (simp add: Decode_def Let_def)

text \<open>The last four bytes are dropped, not compared with a checksum.\<close>

lemma Decode_ignores_checksum:
  assumes "length c = 4"
  shows "Decode (EncodeBig [] (SetBytes (0x51 # raw @ c))) = Ok raw"
proof -
  let ?bs = "0x51 # raw @ c" and ?s = "EncodeBig [] (SetBytes (0x51 # raw @ c))"
  have pos: "SetBytes ?bs > 0" by (simp add: SetBytes_Cons)
  have "takeWhile (\<lambda>c. c = CHR ''1'') ?s = []"
    using hd_EncodeBig [OF pos] by (rule takeWhile_Nil_hd)
  moreover have "Bytes_big (SetBytes ?bs) = ?bs"
    by (rule Bytes_big_SetBytes) simp
  ultimately show ?thesis using assms by (simp add: Decode_def DecodeToBig_EncodeBig)
qed

end
