(* ===== verification/Dht_Address.thy ===== *)
theory Dht_Address
  imports Base58Check
begin

text \<open>
  Zif addresses, \<^verbatim>\<open>dht/address.go\<close>: the 20 byte identifiers of peers, their printed form, and the
  XOR distance with the bucket index computed from it. An \<open>Address\<close> carries its raw bytes and a
  cache of the printed form, which \<open>String\<close> returns without recomputing it when it is set.
  Methods with a pointer receiver return the updated address.

  The lemmas relate the byte loops to arithmetic: \<open>Less\<close> is the order of the big-endian numbers,
  \<open>Xor\<close> and \<open>LeadingZeroes\<close> give the bucket of an address, and buckets refine the XOR distance.
\<close>

section \<open>Data and operations\<close>

definition AddressBinarySize :: nat where
  "AddressBinarySize = 20"

record address =
  Raw :: bytes
  Encoded :: string

definition empty_address :: address where
  "empty_address = \<lparr>Raw = [], Encoded = []\<rparr>"

definition Address_Bytes :: "address \<Rightarrow> bytes" where
  "Address_Bytes a = Raw a"

definition Address_String :: "address \<Rightarrow> string res \<times> address" where
  "Address_String a =
     (if length (Encoded a) > 0 then (Ok (Encoded a), a)
      else case Encode ''51'' (Address_Bytes a) of
             Ok encoded \<Rightarrow> (Ok encoded, a\<lparr>Encoded := encoded\<rparr>)
           | Err e \<Rightarrow> (Err e, a)
           | Panic \<Rightarrow> (Panic, a))"

definition Address_StringOr :: "address \<Rightarrow> string \<Rightarrow> string" where
  "Address_StringOr a or_str = (case fst (Address_String a) of Ok s \<Rightarrow> s | _ \<Rightarrow> or_str)"

definition DecodeAddress :: "string \<Rightarrow> address res" where
  "DecodeAddress value = res_bind (Decode value) (\<lambda>raw. Ok \<lparr>Raw = raw, Encoded = []\<rparr>)"

definition Address_Generate :: "crypto \<Rightarrow> bytes \<Rightarrow> address \<Rightarrow> string res \<times> address" where
  "Address_Generate C key a =
     (if length key \<noteq> 32 then (Err (ErrNew ''Public key is not 32 bytes''), a)
      else
        (let firstHash = sha3_256 C key;
             secondHash = blake2b C AddressBinarySize firstHash;
             (s, a') = Address_String (a\<lparr>Raw := secondHash\<rparr>)
         in (s, a')))"

definition NewAddress :: "crypto \<Rightarrow> bytes \<Rightarrow> address" where
  "NewAddress C key = snd (Address_Generate C key empty_address)"

text \<open>The 32 random bytes, or the failure of the system's generator, are an argument.\<close>

definition RandomAddress :: "crypto \<Rightarrow> bytes res \<Rightarrow> address res" where
  "RandomAddress C rand =
     res_bind rand (\<lambda>r. case Address_Generate C r empty_address of
         (Ok _, a) \<Rightarrow> Ok a
       | (Err e, a) \<Rightarrow> Err e
       | (Panic, a) \<Rightarrow> Panic)"

text \<open>Indexing \<open>other.Raw[i]\<close> panics when \<open>other\<close> is shorter.\<close>

fun Less_loop :: "bytes \<Rightarrow> bytes \<Rightarrow> bool res" where
  "Less_loop [] ys = Ok False"
| "Less_loop (x # xs) [] = Panic"
| "Less_loop (x # xs) (y # ys) = (if x \<noteq> y then Ok (x < y) else Less_loop xs ys)"

definition Address_Less :: "address \<Rightarrow> address \<Rightarrow> bool res" where
  "Address_Less a other = Less_loop (Raw a) (Raw other)"

fun Xor_loop :: "bytes \<Rightarrow> bytes \<Rightarrow> bytes res" where
  "Xor_loop [] ys = Ok []"
| "Xor_loop (x # xs) [] = Panic"
| "Xor_loop (x # xs) (y # ys) = res_bind (Xor_loop xs ys) (\<lambda>zs. Ok ((x XOR y) # zs))"

definition Address_Xor :: "address \<Rightarrow> address \<Rightarrow> address res" where
  "Address_Xor a other = res_bind (Xor_loop (Raw a) (Raw other)) (\<lambda>r. Ok \<lparr>Raw = r, Encoded = []\<rparr>)"

text \<open>The inner loop over \<open>j\<close> (here over the remaining bit positions) and the outer one over \<open>i\<close>.\<close>

fun LeadingZeroes_byte :: "byte \<Rightarrow> nat list \<Rightarrow> nat option" where
  "LeadingZeroes_byte b [] = None"
| "LeadingZeroes_byte b (j # js) =
     (if drop_bit (7 - j) b AND 1 \<noteq> 0 then Some j else LeadingZeroes_byte b js)"

fun LeadingZeroes_loop :: "nat \<Rightarrow> bytes \<Rightarrow> nat option" where
  "LeadingZeroes_loop i [] = None"
| "LeadingZeroes_loop i (b # bs) =
     (case LeadingZeroes_byte b [0..<8] of
        Some j \<Rightarrow> Some (i * 8 + j)
      | None \<Rightarrow> LeadingZeroes_loop (Suc i) bs)"

definition Address_LeadingZeroes :: "address \<Rightarrow> int" where
  "Address_LeadingZeroes a =
     (case LeadingZeroes_loop 0 (Raw a) of
        Some n \<Rightarrow> int n
      | None \<Rightarrow> int (length (Raw a)) * 8 - 1)"

definition Address_Equals :: "address \<Rightarrow> address \<Rightarrow> bool" where
  "Address_Equals a other \<longleftrightarrow> Raw a = Raw other"

text \<open>The bucket index \<open>addr.Xor(&ndb.addr).LeadingZeroes()\<close> the routing table uses.\<close>

definition bucket_index :: "address \<Rightarrow> address \<Rightarrow> int res" where
  "bucket_index self a = res_bind (Address_Xor a self) (\<lambda>d. Ok (Address_LeadingZeroes d))"

section \<open>Printed form\<close>

lemma Address_String_eq:
  "Address_String a =
     (if Encoded a \<noteq> [] then (Ok (Encoded a), a)
      else (Ok (EncodeZif (Raw a)), a\<lparr>Encoded := EncodeZif (Raw a)\<rparr>))"
  by (simp add: Address_String_def Address_Bytes_def Encode_51 EncodeZif_def)

lemma Address_String_fresh [simp]:
  "Encoded a = [] \<Longrightarrow> Address_String a = (Ok (EncodeZif (Raw a)), a\<lparr>Encoded := EncodeZif (Raw a)\<rparr>)"
  by (simp add: Address_String_eq)

lemma Address_String_Ok: "\<exists>s. fst (Address_String a) = Ok s \<and> s \<noteq> []"
  by (simp add: Address_String_eq)

lemma Raw_Address_String [simp]: "Raw (snd (Address_String a)) = Raw a"
  by (simp add: Address_String_eq)

lemma DecodeAddress_EncodeZif [simp]:
  "DecodeAddress (EncodeZif raw) = Ok \<lparr>Raw = raw, Encoded = []\<rparr>"
  by (simp add: DecodeAddress_def b58.dec_enc)

text \<open>
  The key under which an address is stored and compared outside the routing table: the printed
  form, which is the cached one if there is one.
\<close>

definition address_key :: "address \<Rightarrow> string" where
  "address_key a = (if Encoded a \<noteq> [] then Encoded a else EncodeZif (Raw a))"

lemma fst_Address_String: "fst (Address_String a) = Ok (address_key a)"
  by (simp add: Address_String_eq address_key_def)

lemma Address_StringOr_eq [simp]: "Address_StringOr a s = address_key a"
  by (simp add: Address_StringOr_def fst_Address_String)

text \<open>An address whose cache, if set, was computed from its raw bytes.\<close>

definition address_wf :: "address \<Rightarrow> bool" where
  "address_wf a \<longleftrightarrow> Encoded a = [] \<or> Encoded a = EncodeZif (Raw a)"

lemma address_key_wf [simp]: "address_wf a \<Longrightarrow> address_key a = EncodeZif (Raw a)"
  by (auto simp: address_wf_def address_key_def)

lemma address_wf_intros [simp]:
  "address_wf \<lparr>Raw = r, Encoded = []\<rparr>" "Encoded a = [] \<Longrightarrow> address_wf a"
  "address_wf a \<Longrightarrow> address_wf (snd (Address_String a))"
  by (auto simp: address_wf_def Address_String_eq)

lemma Address_Generate_ok:
  assumes "length key = 32"
  shows "Address_Generate C key empty_address =
    (let r = blake2b C 20 (sha3_256 C key)
     in (Ok (EncodeZif r), \<lparr>Raw = r, Encoded = EncodeZif r\<rparr>))"
  using assms by (simp add: Address_Generate_def empty_address_def AddressBinarySize_def Let_def)

section \<open>Order\<close>

lemma Less_loop_SetBytes:
  "length xs = length ys \<Longrightarrow> Less_loop xs ys = Ok (SetBytes xs < SetBytes ys)"
proof (induction xs ys rule: Less_loop.induct)
  case (3 x xs y ys)
  have less: "SetBytes xs < 256 ^ length ys" "SetBytes ys < 256 ^ length ys"
    using SetBytes_less [of xs] SetBytes_less [of ys] 3 by auto
  show ?case
  proof (cases "x = y")
    case True
    with 3 show ?thesis by (simp add: SetBytes_Cons)
  next
    case False
    have "x < y \<longleftrightarrow> SetBytes (x # xs) < SetBytes (y # ys)"
    proof
      assume "x < y"
      then have "Suc (unat x) \<le> unat y" by (simp add: word_less_nat_alt)
      then have "Suc (unat x) * 256 ^ length ys \<le> unat y * 256 ^ length ys"
        by (rule mult_le_mono1)
      with less 3 show "SetBytes (x # xs) < SetBytes (y # ys)" by (simp add: SetBytes_Cons)
    next
      assume lt: "SetBytes (x # xs) < SetBytes (y # ys)"
      show "x < y"
      proof (rule ccontr)
        assume "\<not> x < y"
        with False have "Suc (unat y) \<le> unat x" by (simp add: word_less_nat_alt word_unat_eq_iff)
        then have "Suc (unat y) * 256 ^ length ys \<le> unat x * 256 ^ length ys"
          by (rule mult_le_mono1)
        with less lt 3 show False by (simp add: SetBytes_Cons)
      qed
    qed
    with False 3 show ?thesis by simp
  qed
qed auto

section \<open>Distance\<close>

lemma Xor_loop_map2: "length xs \<le> length ys \<Longrightarrow> Xor_loop xs ys = Ok (map2 (XOR) xs ys)"
  by (induction xs ys rule: Xor_loop.induct) auto

lemma Xor_loop_panic: "length ys < length xs \<Longrightarrow> Xor_loop xs ys = Panic"
  by (induction xs ys rule: Xor_loop.induct) auto

lemma Xor_loop_cases:
  "Xor_loop xs ys = (if length xs \<le> length ys then Ok (map2 (XOR) xs ys) else Panic)"
  by (simp add: Xor_loop_map2 Xor_loop_panic)

section \<open>Leading zeroes\<close>

text \<open>The bits of a byte string, most significant first, and their value.\<close>

definition byte_bits :: "byte \<Rightarrow> bool list" where
  "byte_bits b = map (\<lambda>j. bit b (7 - j)) [0..<8]"

definition bits_of :: "bytes \<Rightarrow> bool list" where
  "bits_of bs = concat (map byte_bits bs)"

definition bits_val :: "bool list \<Rightarrow> nat" where
  "bits_val bs = foldl (\<lambda>a b. 2 * a + of_bool b) 0 bs"

lemma length_byte_bits [simp]: "length (byte_bits b) = 8"
  by (simp add: byte_bits_def)

lemma length_bits_of [simp]: "length (bits_of bs) = 8 * length bs"
  by (induction bs) (auto simp: bits_of_def)

lemma and_one_bit: "(drop_bit n (b :: byte) AND 1 \<noteq> 0) \<longleftrightarrow> bit b n"
  by (simp add: and_one_eq odd_iff_mod_2_eq_one bit_iff_odd_drop_bit)

lemma LeadingZeroes_byte_find:
  "LeadingZeroes_byte b js = map_option ((!) js) (find_index (\<lambda>j. bit b (7 - j)) js)"
  by (induction js) (auto simp: and_one_bit option.map_comp comp_def)

lemma find_index_map: "find_index P (map f xs) = find_index (\<lambda>x. P (f x)) xs"
  by (induction xs) auto

lemma find_index_append:
  "find_index P (xs @ ys) =
     (case find_index P xs of Some n \<Rightarrow> Some n
      | None \<Rightarrow> map_option ((+) (length xs)) (find_index P ys))"
proof (induction xs)
  case Nil
  then show ?case by (cases "find_index P ys") auto
next
  case (Cons x xs)
  then show ?case by (cases "find_index P xs"; cases "find_index P ys") auto
qed

lemma LeadingZeroes_byte_bits:
  "LeadingZeroes_byte b [0..<8] = find_index (\<lambda>x. x) (byte_bits b)"
proof -
  have "map_option ((!) [0..<8]) r = r" if r: "find_index (\<lambda>j. bit b (7 - j)) [0..<8] = r" for r
  proof (cases r)
    case (Some k)
    with find_index_SomeD [of _ _ k] r show ?thesis by fastforce
  qed simp
  then show ?thesis
    by (simp add: LeadingZeroes_byte_find byte_bits_def find_index_map)
qed

lemma LeadingZeroes_loop_bits:
  "LeadingZeroes_loop i bs = map_option ((+) (i * 8)) (find_index (\<lambda>x. x) (bits_of bs))"
proof (induction i bs rule: LeadingZeroes_loop.induct)
  case (2 i b bs)
  then show ?case
    by (cases "find_index (\<lambda>x. x) (byte_bits b)"; cases "find_index (\<lambda>x. x) (bits_of bs)")
      (simp_all add: bits_of_def find_index_append LeadingZeroes_byte_bits)
qed (simp add: bits_of_def)

lemma bits_val_snoc [simp]: "bits_val (bs @ [b]) = 2 * bits_val bs + of_bool b"
  by (simp add: bits_val_def)

lemma bits_val_append: "bits_val (xs @ ys) = bits_val xs * 2 ^ length ys + bits_val ys"
proof (induction ys rule: rev_induct)
  case (snoc y ys)
  then show ?case by (simp add: append_assoc [symmetric] del: append_assoc)
qed (simp add: bits_val_def)

lemma bits_val_less: "bits_val bs < 2 ^ length bs"
  by (induction bs rule: rev_induct) (auto simp: bits_val_def)

lemma bits_val_zero: "\<forall>b\<in>set bs. \<not> b \<Longrightarrow> bits_val bs = 0"
  by (induction bs rule: rev_induct) (auto simp: bits_val_def)

lemma unat_byte_bits: "bits_val (byte_bits b) = unat b"
proof -
  have "unat b = take_bit 8 (unat b)" by (simp add: take_bit_nat_eq_self)
  also have "\<dots> = horner_sum of_bool 2 (map (bit (unat b)) [0..<8])"
    by (rule horner_sum_bit_eq_take_bit [symmetric])
  also have "\<dots> = bits_val (byte_bits b)"
  proof -
    have "[0..<8] = [0, 1, 2, 3, 4, 5, 6, 7 :: nat]" by (simp add: upt_rec)
    then show ?thesis
      by (simp add: bits_val_def byte_bits_def bit_unsigned_iff)
  qed
  finally show ?thesis by simp
qed

lemma SetBytes_bits: "SetBytes bs = bits_val (bits_of bs)"
proof (induction bs rule: rev_induct)
  case (snoc b bs)
  have "bits_of (bs @ [b]) = bits_of bs @ byte_bits b" by (simp add: bits_of_def)
  with snoc show ?case by (simp add: bits_val_append unat_byte_bits)
qed (simp add: bits_of_def bits_val_def)

lemma bits_val_leading:
  "find_index (\<lambda>x. x) bs = Some k \<Longrightarrow>
   2 ^ (length bs - Suc k) \<le> bits_val bs \<and> bits_val bs < 2 ^ (length bs - k)"
proof (induction bs arbitrary: k)
  case (Cons b bs)
  have split: "bits_val (b # bs) = of_bool b * 2 ^ length bs + bits_val bs"
    using bits_val_append [of "[b]" bs] by (simp add: bits_val_def)
  show ?case
  proof (cases b)
    case True
    with Cons.prems split bits_val_less [of bs] show ?thesis by auto
  next
    case False
    with Cons.prems obtain k' where "k = Suc k'" "find_index (\<lambda>x. x) bs = Some k'" by auto
    with Cons.IH [of k'] False split show ?thesis by auto
  qed
qed simp

text \<open>
  \<open>LeadingZeroes\<close> of a non-zero string of \<open>n\<close> bytes is the position of the highest set bit of its
  big-endian number; of a zero string it is the last bit position.
\<close>

lemma LeadingZeroes_pos:
  assumes "SetBytes (Raw a) \<noteq> 0"
  obtains k where "Address_LeadingZeroes a = int k" "k < 8 * length (Raw a)"
    "2 ^ (8 * length (Raw a) - Suc k) \<le> SetBytes (Raw a)"
    "SetBytes (Raw a) < 2 ^ (8 * length (Raw a) - k)"
proof (cases "find_index (\<lambda>x. x) (bits_of (Raw a))")
  case None
  then have "\<forall>b\<in>set (bits_of (Raw a)). \<not> b" by (simp add: find_index_None_iff)
  then have "bits_val (bits_of (Raw a)) = 0" by (rule bits_val_zero)
  with assms show ?thesis by (simp add: SetBytes_bits)
next
  case (Some k)
  then have "Address_LeadingZeroes a = int k"
    by (simp add: Address_LeadingZeroes_def LeadingZeroes_loop_bits)
  with Some bits_val_leading [OF Some] find_index_SomeD [OF Some] show ?thesis
    by (intro that) (auto simp: SetBytes_bits)
qed

lemma LeadingZeroes_zero:
  assumes "SetBytes (Raw a) = 0"
  shows "Address_LeadingZeroes a = 8 * int (length (Raw a)) - 1"
proof (cases "find_index (\<lambda>x. x) (bits_of (Raw a))")
  case None
  then show ?thesis by (simp add: Address_LeadingZeroes_def LeadingZeroes_loop_bits)
next
  case (Some k)
  from bits_val_leading [OF Some] assms show ?thesis by (simp add: SetBytes_bits)
qed

lemma LeadingZeroes_range:
  assumes "Raw a \<noteq> []"
  shows "0 \<le> Address_LeadingZeroes a \<and> Address_LeadingZeroes a < 8 * int (length (Raw a))"
proof (cases "SetBytes (Raw a) = 0")
  case True
  from assms have "0 < length (Raw a)" by simp
  then show ?thesis by (simp add: LeadingZeroes_zero [OF True])
next
  case False
  from LeadingZeroes_pos [OF False] show ?thesis
    by (metis int_ops(7) of_nat_0_le_iff of_nat_less_iff of_nat_numeral)
qed

end
