(* ===== verification/Util.thy ===== *)
theory Util
  imports Zif_Prelude "HOL-Library.Multiset"
begin

text \<open>
  The helpers of \<^verbatim>\<open>util/util.go\<close>: set operations on seed lists, shuffling and random numbers. Random
  draws are arguments (the numbers drawn, in order), and so is the order in which Go iterates over
  a map, which the language leaves open.
\<close>

section \<open>Operations\<close>

text \<open>The bytes \<open>crypto/rand\<close> delivers for a request of \<open>size\<close> bytes are the argument \<open>read\<close>.\<close>

definition CryptoRandBytes :: "(nat \<Rightarrow> bytes res) \<Rightarrow> int \<Rightarrow> bytes res" where
  "CryptoRandBytes read sz =
     (if sz < 0 then Panic
      else if sz \<le> 0 then Ok (replicate (nat sz) 0)
      else read (nat sz))"

definition CryptoRandInt :: "(int \<Rightarrow> int option) \<Rightarrow> int \<Rightarrow> int \<Rightarrow> int" where
  "CryptoRandInt draw lo hi =
     (if wrap64 (hi - lo) \<le> 0 then 0
      else case draw (wrap64 (hi - lo)) of
             None \<Rightarrow> lo
           | Some num \<Rightarrow> wrap64 (num + lo))"

definition RandInt :: "(int \<Rightarrow> int) \<Rightarrow> int \<Rightarrow> int \<Rightarrow> int res" where
  "RandInt intn lo hi =
     (if wrap64 (hi - lo) \<le> 0 then Panic else Ok (wrap64 (intn (wrap64 (hi - lo)) + lo)))"

text \<open>\<open>encountered\<close> is the Go map from byte strings to \<open>true\<close>.\<close>

definition encounter :: "bytes list \<Rightarrow> (bytes \<Rightarrow> bool) \<Rightarrow> bytes \<Rightarrow> bool" where
  "encounter xs m = foldl (\<lambda>m i. m(i := True)) m xs"

definition SliceDiff :: "bytes list \<Rightarrow> bytes list \<Rightarrow> bytes list" where
  "SliceDiff one two =
     (let encountered = encounter one (\<lambda>_. False)
      in foldl (\<lambda>result i. if encountered i then result else result @ [i]) [] two)"

text \<open>Keys of a Go map filled in this order, before the iteration order is chosen.\<close>

definition map_keys :: "bytes list \<Rightarrow> bytes list" where
  "map_keys xs = foldl (\<lambda>ks k. if k \<in> set ks then ks else ks @ [k]) [] xs"

definition MergeSeeds :: "(bytes list \<Rightarrow> bytes list) \<Rightarrow> bytes list \<Rightarrow> bytes list \<Rightarrow> bytes list" where
  "MergeSeeds order one two =
     foldl (\<lambda>result k. result @ [k]) [] (order (map_keys (one @ two)))"

definition swap :: "nat \<Rightarrow> nat \<Rightarrow> 'a list \<Rightarrow> 'a list" where
  "swap i j xs = xs[i := xs ! j, j := xs ! i]"

text \<open>The loop of both shuffles; \<open>js ! i\<close> is the value of \<open>rand.Intn(i + 1)\<close>.\<close>

definition shuffle :: "nat list \<Rightarrow> 'a list \<Rightarrow> 'a list" where
  "shuffle js xs = foldl (\<lambda>s i. swap i (js ! i) s) xs [0..<length xs]"

definition ShuffleBytes :: "nat list \<Rightarrow> bytes list \<Rightarrow> bytes list" where
  "ShuffleBytes js xs = shuffle js xs"

text \<open>Draws that \<open>rand.Intn\<close> can produce for a slice of length \<open>n\<close>.\<close>

definition intn_draws :: "nat \<Rightarrow> nat list \<Rightarrow> bool" where
  "intn_draws n js \<longleftrightarrow> length js = n \<and> (\<forall>i<n. js ! i \<le> i)"

text \<open>A map iteration visits every key once, in some order.\<close>

definition map_order :: "(bytes list \<Rightarrow> bytes list) \<Rightarrow> bool" where
  "map_order order \<longleftrightarrow> (\<forall>ks. mset (order ks) = mset ks)"

section \<open>Seed lists\<close>

lemma encounter_iff [simp]: "encounter xs m i \<longleftrightarrow> i \<in> set xs \<or> m i"
  unfolding encounter_def by (induction xs arbitrary: m) auto

lemma foldl_filter: "foldl (\<lambda>r i. if P i then r else r @ [i]) acc xs = acc @ filter (\<lambda>i. \<not> P i) xs"
  by (induction xs arbitrary: acc) auto

lemma SliceDiff_filter: "SliceDiff one two = filter (\<lambda>i. i \<notin> set one) two"
  by (simp add: SliceDiff_def foldl_filter)

lemma foldl_map_keys:
  "distinct acc \<Longrightarrow>
   distinct (foldl (\<lambda>ks k. if k \<in> set ks then ks else ks @ [k]) acc xs) \<and>
   set (foldl (\<lambda>ks k. if k \<in> set ks then ks else ks @ [k]) acc xs) = set acc \<union> set xs"
  by (induction xs arbitrary: acc) auto

lemma map_keys_props [simp]: "distinct (map_keys xs)" "set (map_keys xs) = set xs"
  using foldl_map_keys [of "[]" xs] by (auto simp: map_keys_def)

lemma foldl_snoc: "foldl (\<lambda>r k. r @ [k]) acc xs = acc @ xs"
  by (induction xs arbitrary: acc) auto

lemma MergeSeeds_set:
  assumes "map_order order"
  shows "set (MergeSeeds order one two) = set one \<union> set two" "distinct (MergeSeeds order one two)"
proof -
  have "mset (MergeSeeds order one two) = mset (map_keys (one @ two))"
    using assms by (simp add: MergeSeeds_def foldl_snoc map_order_def)
  moreover from this have "set (MergeSeeds order one two) = set (map_keys (one @ two))"
    by (rule mset_eq_setD)
  ultimately show "set (MergeSeeds order one two) = set one \<union> set two"
    "distinct (MergeSeeds order one two)"
    by (auto dest: mset_eq_imp_distinct_iff)
qed

section \<open>Shuffling\<close>

lemma mset_swap: "i < length xs \<Longrightarrow> j < length xs \<Longrightarrow> mset (swap i j xs) = mset xs"
  by (simp add: swap_def mset_swap)

lemma length_swap [simp]: "length (swap i j xs) = length xs"
  by (simp add: swap_def)

lemma mset_foldl_swap:
  "\<forall>i\<in>set is. i < length xs \<and> js ! i < length xs \<Longrightarrow>
   mset (foldl (\<lambda>s i. swap i (js ! i) s) xs is) = mset xs"
  by (induction "is" arbitrary: xs) (auto simp: mset_swap)

lemma mset_shuffle:
  assumes "intn_draws (length xs) js"
  shows "mset (shuffle js xs) = mset xs"
proof -
  have "\<forall>i\<in>set [0..<length xs]. i < length xs \<and> js ! i < length xs"
    using assms by (auto simp: intn_draws_def intro: le_less_trans)
  then show ?thesis unfolding shuffle_def by (rule mset_foldl_swap)
qed

section \<open>Properties\<close>

text \<open>C32: \<open>SliceDiff\<close> returns exactly the elements of the second list that are not in the first, in their order, and
  \<open>MergeSeeds\<close> returns every seed of either list exactly once, whatever the map iteration order.\<close>

theorem seed_lists_correct:
  assumes "map_order order"
  shows "SliceDiff one two = filter (\<lambda>i. i \<notin> set one) two \<and>
    set (MergeSeeds order one two) = set one \<union> set two \<and>
    distinct (MergeSeeds order one two)"
  using MergeSeeds_set [OF assms] by (simp add: SliceDiff_filter)

theorem seed_lists_correct_witness:
  "map_order rev \<and>
   SliceDiff [[1], [2]] [[2], [3]] = [[3 :: byte]] \<and>
   set (MergeSeeds rev [[1], [2]] [[2], [3 :: byte]]) = {[1], [2], [3]} \<and>
   distinct (MergeSeeds rev [[1], [2]] [[2], [3 :: byte]])"
proof -
  have h: "map_order rev" by (simp add: map_order_def)
  show ?thesis using h seed_lists_correct [OF h, of "[[1], [2]]" "[[2], [3]]"] by auto
qed

text \<open>A shuffle permutes its argument: for every sequence of random draws the result has the same elements
  with the same multiplicities.\<close>

theorem ShuffleBytes_permutes:
  assumes "intn_draws (length xs) js"
  shows "mset (ShuffleBytes js xs) = mset xs"
  using mset_shuffle [OF assms] by (simp add: ShuffleBytes_def)

theorem ShuffleBytes_permutes_witness:
  "intn_draws 3 [0, 0, 1] \<and> mset (ShuffleBytes [0, 0, 1] [[1], [2], [3]]) = mset [[1], [2], [3]]"
proof -
  have h: "intn_draws (length [[1], [2], [3 :: byte]]) [0, 0, 1]"
    by (auto simp: intn_draws_def less_Suc_eq)
  show ?thesis using h ShuffleBytes_permutes [OF h] by (simp add: numeral_3_eq_3)
qed

end
