(* ===== verification/Dht_Entry.thy ===== *)
theory Dht_Entry
  imports Dht_Address Util
begin

text \<open>
  Entries of the distributed hash table, \<^verbatim>\<open>dht/entry.go\<close>: what a peer publishes about itself, the byte
  string it signs, and the checks every entry received from the network goes through. A \<open>*Entry\<close>
  that may be nil is an \<open>entry option\<close>.

  \<open>String\<close> concatenates the fields without separators, and \<open>string(e.Port)\<close> is Go's conversion of an
  integer to the UTF-8 encoding of the code point, not a decimal numeral.
\<close>

section \<open>Data\<close>

definition MaxEntryNameLength :: nat where "MaxEntryNameLength = 32"
definition MaxEntryDescLength :: nat where "MaxEntryDescLength = 160"
definition MaxEntryPublicAddressLength :: nat where "MaxEntryPublicAddressLength = 253"
definition MaxEntrySeeds :: nat where "MaxEntrySeeds = 100000"

record entry =
  Address :: address
  Name :: string
  Desc :: string
  PublicAddress :: string
  PublicKey :: bytes
  PostCount :: int
  Updated :: uint64
  Signature :: bytes
  CollectionHash :: bytes
  Port :: int
  Seeds :: "bytes list"
  Seeding :: "bytes list"
  Seen :: int
  distance :: address

definition empty_entry :: entry where
  "empty_entry = \<lparr>Address = empty_address, Name = [], Desc = [], PublicAddress = [], PublicKey = [],
     PostCount = 0, Updated = 0, Signature = [], CollectionHash = [], Port = 0, Seeds = [],
     Seeding = [], Seen = 0, distance = empty_address\<rparr>"

section \<open>Operations\<close>

text \<open>Go's \<open>string(i)\<close> for an integer: UTF-8 of the code point, U+FFFD when there is none.\<close>

definition utf8 :: "nat \<Rightarrow> string" where
  "utf8 r =
     (if r < 0x80 then [char_of r]
      else if r < 0x800 then [char_of (0xC0 + r div 0x40), char_of (0x80 + r mod 0x40)]
      else if r < 0x10000 then
        [char_of (0xE0 + r div 0x1000), char_of (0x80 + r div 0x40 mod 0x40),
         char_of (0x80 + r mod 0x40)]
      else
        [char_of (0xF0 + r div 0x40000), char_of (0x80 + r div 0x1000 mod 0x40),
         char_of (0x80 + r div 0x40 mod 0x40), char_of (0x80 + r mod 0x40)])"

definition string_of_int :: "int \<Rightarrow> string" where
  "string_of_int i =
     (if i < 0 \<or> i > 0x10FFFF \<or> (0xD800 \<le> i \<and> i \<le> 0xDFFF) then utf8 0xFFFD else utf8 (nat i))"

definition Entry_String :: "entry \<Rightarrow> string res" where
  "Entry_String e =
     res_bind (fst (Address_String (Address e))) (\<lambda>addressString.
       let postCount = Itoa (PostCount e);
           updated = Itoa (sint (Updated e))
       in Ok (addressString
            @ Name e
            @ Desc e
            @ PublicAddress e
            @ to_string (PublicKey e)
            @ string_of_int (Port e)
            @ postCount
            @ updated
            @ to_string (CollectionHash e)
            @ concat (map to_string (Seeding e))))"

definition Entry_Bytes :: "entry \<Rightarrow> bytes res" where
  "Entry_Bytes e = res_bind (Entry_String e) (\<lambda>s. Ok (to_bytes s))"

text \<open>\<open>data, _ := entry.Bytes()\<close>: on an error the data is the empty string.\<close>

definition Entry_Bytes_or_nil :: "entry \<Rightarrow> bytes" where
  "Entry_Bytes_or_nil e = (case Entry_Bytes e of Ok b \<Rightarrow> b | _ \<Rightarrow> [])"

definition Entry_SetLocalPeer :: "entry \<Rightarrow> address \<Rightarrow> bytes \<Rightarrow> entry" where
  "Entry_SetLocalPeer e lpAddress lpPublicKey = e\<lparr>Address := lpAddress, PublicKey := lpPublicKey\<rparr>"

text \<open>\<open>Entries.Less(i, j)\<close>; an index outside the slice panics.\<close>

definition Entries_Less :: "entry list \<Rightarrow> nat \<Rightarrow> nat \<Rightarrow> bool res" where
  "Entries_Less es i j =
     (if i < length es \<and> j < length es then Address_Less (distance (es ! i)) (distance (es ! j))
      else Panic)"

definition Entry_Verify :: "crypto \<Rightarrow> entry option \<Rightarrow> unit res" where
  "Entry_Verify C eo =
     (case eo of
        None \<Rightarrow> Err (ErrNew ''Entry is nil'')
      | Some e \<Rightarrow>
          if length (Raw (Address e)) \<noteq> 20 then Err (ErrNew ''Address size invalid'')
          else if length (Name e) > MaxEntryNameLength then Err (ErrNew ''Entry name is too long'')
          else if length (Desc e) > MaxEntryDescLength
            then Err (ErrNew ''Entry description is too long'')
          else if length (Seeds e) > MaxEntrySeeds then Err (ErrNew ''Entry has too many seeds'')
          else if length (PublicKey e) < PublicKeySize
            then Err (ErrNew (''Public key too small: '' @ Itoa (int (length (PublicKey e)))))
          else if length (Signature e) < SignatureSize then Err (ErrNew ''Signature too small'')
          else
            res_bind (ed25519_Verify C (PublicKey e) (Entry_Bytes_or_nil e) (Signature e))
              (\<lambda>verified.
                if \<not> verified then Err (ErrNew ''Failed to verify signature'')
                else if length (PublicAddress e) = 0
                  then Err (ErrNew ''Public address must be set'')
                else if length (PublicAddress e) \<ge> MaxEntryPublicAddressLength
                  then Err (ErrNew ''Public address is too large (253 char max)'')
                else if Port e > 65535
                  then Err (ErrNew (''Port too large ('' @ string_of_int (Port e) @ '')''))
                else Ok ()))"

definition ShuffleEntries :: "nat list \<Rightarrow> 'a list \<Rightarrow> 'a list" where
  "ShuffleEntries js xs = shuffle js xs"

section \<open>The signed text\<close>

text \<open>What the signature covers, written out.\<close>

definition signed_text :: "entry \<Rightarrow> string" where
  "signed_text e = address_key (Address e) @ Name e @ Desc e @ PublicAddress e
     @ to_string (PublicKey e) @ string_of_int (Port e) @ Itoa (PostCount e)
     @ Itoa (sint (Updated e)) @ to_string (CollectionHash e) @ concat (map to_string (Seeding e))"

lemma Entry_String_signed: "Entry_String e = Ok (signed_text e)"
  by (simp add: Entry_String_def fst_Address_String signed_text_def Let_def)

lemma Entry_Bytes_signed: "Entry_Bytes e = Ok (to_bytes (signed_text e))"
  by (simp add: Entry_Bytes_def Entry_String_signed)

lemma Entry_Bytes_or_nil_signed [simp]: "Entry_Bytes_or_nil e = to_bytes (signed_text e)"
  by (simp add: Entry_Bytes_or_nil_def Entry_Bytes_signed)

lemma signed_text_unsigned [simp]:
  "signed_text (e\<lparr>Signature := s\<rparr>) = signed_text e"
  "signed_text (e\<lparr>Seeds := ss\<rparr>) = signed_text e"
  "signed_text (e\<lparr>Seen := n\<rparr>) = signed_text e"
  by (simp_all add: signed_text_def)

section \<open>Verification\<close>

text \<open>The conditions an entry satisfies when \<open>Verify\<close> returns nil.\<close>

definition entry_valid :: "crypto \<Rightarrow> entry \<Rightarrow> bool" where
  "entry_valid C e \<longleftrightarrow>
     length (Raw (Address e)) = 20 \<and> length (Name e) \<le> 32 \<and> length (Desc e) \<le> 160 \<and>
     length (Seeds e) \<le> 100000 \<and> length (PublicKey e) = 32 \<and> length (Signature e) = 64 \<and>
     ed_verify C (PublicKey e) (to_bytes (signed_text e)) (Signature e) \<and>
     PublicAddress e \<noteq> [] \<and> length (PublicAddress e) < 253 \<and> Port e \<le> 65535"

lemmas entry_consts = MaxEntryNameLength_def MaxEntryDescLength_def MaxEntrySeeds_def
  MaxEntryPublicAddressLength_def PublicKeySize_def SignatureSize_def

lemma Entry_Verify_iff: "Entry_Verify C (Some e) = Ok () \<longleftrightarrow> entry_valid C e"
  by (auto simp: Entry_Verify_def entry_valid_def entry_consts ed25519_Verify_def)

lemma Entry_Verify_panic:
  "Entry_Verify C (Some e) = Panic \<longleftrightarrow>
     length (Raw (Address e)) = 20 \<and> length (Name e) \<le> 32 \<and> length (Desc e) \<le> 160 \<and>
     length (Seeds e) \<le> 100000 \<and> length (PublicKey e) > 32 \<and> length (Signature e) \<ge> 64"
  by (auto simp: Entry_Verify_def entry_consts ed25519_Verify_def)

lemma entry_valid_frame [simp]:
  "entry_valid C (e\<lparr>Seen := n\<rparr>) = entry_valid C e"
  by (simp add: entry_valid_def)

text \<open>Signing an entry with the private half of its public key makes it valid.\<close>

lemma sign_entry_valid:
  assumes "crypto_ok C" "length sk = PrivateKeySize" "PublicKey e = drop 32 sk"
    and "length (Raw (Address e)) = 20" "length (Name e) \<le> 32" "length (Desc e) \<le> 160"
    "length (Seeds e) \<le> 100000" "PublicAddress e \<noteq> []" "length (PublicAddress e) < 253"
    "Port e \<le> 65535"
  shows "entry_valid C (e\<lparr>Signature := ed_sign C sk (to_bytes (signed_text e))\<rparr>)"
  using assms crypto_ok_lengths(3) [OF assms(1)]
  by (simp add: entry_valid_def crypto_ok_def PrivateKeySize_def SignatureSize_def)

end
