(* ===== verification/Proc.thy ===== *)
theory Proc
  imports Zif_Prelude
begin

text \<open>
  Stateful Go procedures as state transformers. A call takes the state of its component and yields
  an outcome and the new state; an error or a panic keeps the effects made before it, as in Go.

  \<open>preserves I m\<close> says that a procedure keeps the invariant \<open>I\<close>, whatever its outcome;
  \<open>yields I m Q\<close> that from \<open>I\<close>-states its normal results satisfy \<open>Q\<close>. Both have one rule per
  combinator, collected in \<open>proc_intros\<close>, so that invariants of composed procedures follow from
  those of their parts.
\<close>

type_synonym ('s, 'a) proc = "'s \<Rightarrow> 'a res \<times> 's"

section \<open>Combinators\<close>

definition ret :: "'a \<Rightarrow> ('s, 'a) proc" where
  "ret x s = (Ok x, s)"

definition fail :: "err \<Rightarrow> ('s, 'a) proc" where
  "fail e s = (Err e, s)"

definition panic :: "('s, 'a) proc" where
  "panic s = (Panic, s)"

definition lift_res :: "'a res \<Rightarrow> ('s, 'a) proc" where
  "lift_res r s = (r, s)"

definition gets :: "('s \<Rightarrow> 'a) \<Rightarrow> ('s, 'a) proc" where
  "gets f s = (Ok (f s), s)"

definition modify :: "('s \<Rightarrow> 's) \<Rightarrow> ('s, unit) proc" where
  "modify f s = (Ok (), f s)"

definition bind :: "('s, 'a) proc \<Rightarrow> ('a \<Rightarrow> ('s, 'b) proc) \<Rightarrow> ('s, 'b) proc" where
  "bind m f s =
     (case m s of
        (Ok x, s') \<Rightarrow> f x s'
      | (Err e, s') \<Rightarrow> (Err e, s')
      | (Panic, s') \<Rightarrow> (Panic, s'))"

text \<open>A call whose error the caller inspects instead of returning it; panics still propagate.\<close>

definition attempt :: "('s, 'a) proc \<Rightarrow> ('s, err + 'a) proc" where
  "attempt m s =
     (case m s of
        (Ok x, s') \<Rightarrow> (Ok (Inr x), s')
      | (Err e, s') \<Rightarrow> (Ok (Inl e), s')
      | (Panic, s') \<Rightarrow> (Panic, s'))"

text \<open>A procedure of a part of the state, run inside the whole.\<close>

definition zoom :: "('s \<Rightarrow> 't) \<Rightarrow> (('t \<Rightarrow> 't) \<Rightarrow> 's \<Rightarrow> 's) \<Rightarrow> ('t, 'a) proc \<Rightarrow> ('s, 'a) proc" where
  "zoom get upd m s = (case m (get s) of (r, t) \<Rightarrow> (r, upd (\<lambda>_. t) s))"

text \<open>A loop over a list that stops at the first error.\<close>

fun forM :: "'a list \<Rightarrow> ('a \<Rightarrow> ('s, unit) proc) \<Rightarrow> ('s, unit) proc" where
  "forM [] f = ret ()"
| "forM (x # xs) f = bind (f x) (\<lambda>_. forM xs f)"

fun mapM :: "('a \<Rightarrow> ('s, 'b) proc) \<Rightarrow> 'a list \<Rightarrow> ('s, 'b list) proc" where
  "mapM f [] = ret []"
| "mapM f (x # xs) = bind (f x) (\<lambda>y. bind (mapM f xs) (\<lambda>ys. ret (y # ys)))"

lemmas proc_defs = ret_def fail_def panic_def lift_res_def gets_def modify_def

lemma bind_ret [simp]: "bind (ret x) f = f x"
  by (simp add: fun_eq_iff bind_def ret_def)

lemma bind_fail [simp]: "bind (fail e) f = fail e"
  by (simp add: fun_eq_iff bind_def fail_def)

lemma bind_assoc: "bind (bind m f) g = bind m (\<lambda>x. bind (f x) g)"
  by (auto simp: fun_eq_iff bind_def split: res.splits prod.splits)

lemma bind_run:
  "m s = (Ok x, s') \<Longrightarrow> bind m f s = f x s'"
  "m s = (Err e, s') \<Longrightarrow> bind m f s = (Err e, s')"
  "m s = (Panic, s') \<Longrightarrow> bind m f s = (Panic, s')"
  by (simp_all add: bind_def)

lemma bind_OkE:
  assumes "bind m f s = (Ok y, t)"
  obtains x s' where "m s = (Ok x, s')" "f x s' = (Ok y, t)"
  using assms by (auto simp: bind_def split: res.splits prod.splits)

lemma bind_gets [simp]: "bind (gets g) f s = f (g s) s"
  by (simp add: bind_def gets_def)

lemma bind_modify [simp]: "bind (modify g) f s = f () (g s)"
  by (simp add: bind_def modify_def)

lemma bind_lift_res [simp]:
  "bind (lift_res (Ok x)) f = f x"
  by (simp add: fun_eq_iff bind_def lift_res_def)

lemma attempt_run:
  "m s = (Ok x, s') \<Longrightarrow> attempt m s = (Ok (Inr x), s')"
  "m s = (Err e, s') \<Longrightarrow> attempt m s = (Ok (Inl e), s')"
  "m s = (Panic, s') \<Longrightarrow> attempt m s = (Panic, s')"
  by (simp_all add: attempt_def)

lemma snd_attempt [simp]: "snd (attempt m s) = snd (m s)"
  by (auto simp: attempt_def split: res.splits prod.splits)

section \<open>Invariants of procedures\<close>

definition preserves :: "('s \<Rightarrow> bool) \<Rightarrow> ('s, 'a) proc \<Rightarrow> bool" where
  "preserves I m \<longleftrightarrow> (\<forall>s. I s \<longrightarrow> I (snd (m s)))"

definition yields :: "('s \<Rightarrow> bool) \<Rightarrow> ('s, 'a) proc \<Rightarrow> ('a \<Rightarrow> bool) \<Rightarrow> bool" where
  "yields I m Q \<longleftrightarrow> (\<forall>s x s'. I s \<longrightarrow> m s = (Ok x, s') \<longrightarrow> Q x)"

named_theorems proc_intros \<open>invariant rules for the combinators\<close>

lemma preservesI: "(\<And>s. I s \<Longrightarrow> I (snd (m s))) \<Longrightarrow> preserves I m"
  by (simp add: preserves_def)

lemma preservesD: "preserves I m \<Longrightarrow> I s \<Longrightarrow> m s = (r, s') \<Longrightarrow> I s'"
  by (metis preserves_def snd_conv)

lemma preserves_snd: "preserves I m \<Longrightarrow> I s \<Longrightarrow> I (snd (m s))"
  by (simp add: preserves_def)

lemma yieldsD: "yields I m Q \<Longrightarrow> I s \<Longrightarrow> m s = (Ok x, s') \<Longrightarrow> Q x"
  by (auto simp: yields_def)

lemma preserves_basic [simp, proc_intros]:
  "preserves I (ret x)" "preserves I (fail e)" "preserves I panic"
  "preserves I (lift_res r)" "preserves I (gets f)"
  by (simp_all add: preserves_def proc_defs)

lemma preserves_modify [proc_intros]: "(\<And>s. I s \<Longrightarrow> I (f s)) \<Longrightarrow> preserves I (modify f)"
  by (simp add: preserves_def modify_def)

lemma preserves_bind_yields:
  assumes "preserves I m" "yields I m Q" "\<And>x. Q x \<Longrightarrow> preserves I (f x)"
  shows "preserves I (bind m f)"
proof (rule preservesI)
  fix s assume I: "I s"
  obtain r s' where m: "m s = (r, s')" by fastforce
  have I': "I s'" using preservesD [OF assms(1) I m] .
  show "I (snd (bind m f s))"
  proof (cases r)
    case (Ok x)
    with assms(2) I m have "Q x" by (auto simp: yields_def)
    then have "preserves I (f x)" by (rule assms(3))
    with I' have "I (snd (f x s'))" by (simp add: preserves_def)
    with m Ok show ?thesis by (simp add: bind_def)
  qed (use m I' in \<open>simp_all add: bind_def\<close>)
qed

lemma preserves_bind [proc_intros]:
  "preserves I m \<Longrightarrow> (\<And>x. preserves I (f x)) \<Longrightarrow> preserves I (bind m f)"
  by (rule preserves_bind_yields [where Q = "\<lambda>_. True"]) (auto simp: yields_def)

lemma preserves_bind_gets:
  "(\<And>s. I s \<Longrightarrow> I (snd (f (g s) s))) \<Longrightarrow> preserves I (bind (gets g) f)"
  by (simp add: preserves_def)

lemma preserves_attempt [proc_intros]: "preserves I m \<Longrightarrow> preserves I (attempt m)"
  by (simp add: preserves_def)

lemma preserves_zoom:
  assumes "preserves J m" "\<And>s. I s \<Longrightarrow> J (get s)" "\<And>s t. I s \<Longrightarrow> J t \<Longrightarrow> I (upd (\<lambda>_. t) s)"
  shows "preserves I (zoom get upd m)"
  unfolding preserves_def zoom_def
  using assms by (auto split: prod.splits dest!: preservesD)

lemma preserves_forM [proc_intros]:
  "(\<And>x. x \<in> set xs \<Longrightarrow> preserves I (f x)) \<Longrightarrow> preserves I (forM xs f)"
  by (induction xs) (auto intro!: preserves_bind)

lemma preserves_mapM [proc_intros]:
  "(\<And>x. x \<in> set xs \<Longrightarrow> preserves I (f x)) \<Longrightarrow> preserves I (mapM f xs)"
  by (induction xs) (auto intro!: preserves_bind)

lemma preserves_if [proc_intros]:
  "(b \<Longrightarrow> preserves I m) \<Longrightarrow> (\<not> b \<Longrightarrow> preserves I n) \<Longrightarrow> preserves I (if b then m else n)"
  by simp

lemma preserves_case_option [proc_intros]:
  "preserves I m \<Longrightarrow> (\<And>x. preserves I (f x)) \<Longrightarrow>
   preserves I (case x of None \<Rightarrow> m | Some y \<Rightarrow> f y)"
  by (cases x) auto

lemma preserves_case_sum [proc_intros]:
  "(\<And>x. preserves I (f x)) \<Longrightarrow> (\<And>x. preserves I (g x)) \<Longrightarrow>
   preserves I (case x of Inl y \<Rightarrow> f y | Inr y \<Rightarrow> g y)"
  by (cases x) auto

lemma preserves_case_prod [proc_intros]:
  "(\<And>x y. preserves I (f x y)) \<Longrightarrow> preserves I (case p of (x, y) \<Rightarrow> f x y)"
  by (cases p) auto

lemma preserves_conj:
  "preserves I m \<Longrightarrow> preserves J m \<Longrightarrow> preserves (\<lambda>s. I s \<and> J s) m"
  by (simp add: preserves_def)

end
