(* ===== verification/Routing_Table.thy ===== *)
theory Routing_Table
  imports Dht_Entry Proc
begin

text \<open>
  The in-memory routing table of \<^verbatim>\<open>dht/netdb.go\<close>: one bucket of recently used addresses per bit of
  the distance to the local address. A bucket is a Go slice; its backing array lives in \<open>arrays\<close>,
  because \<open>append(bucket[:found], bucket[found+1:]...)\<close> shifts the elements of an array that a
  loop over the same bucket may still be reading.

  The abstract view is a list of 160 lists, each a move-to-front cache of at most 20 addresses.
  \<open>insertIntoTable\<close> refines the insertion into that cache; \<open>rt_inv\<close> is the table's invariant.
\<close>

section \<open>State and operations\<close>

definition BucketSize :: nat where
  "BucketSize = 20"

type_synonym slice_ref = "nat \<times> nat" \<comment> \<open>array, length\<close>

record rtable =
  self :: address
  arrays :: "address list list"
  table :: "slice_ref list"

text \<open>One bucket per bit of an address, each with its own array of capacity \<open>BucketSize\<close>.\<close>

definition new_table :: "address \<Rightarrow> rtable" where
  "new_table addr = \<lparr>self = addr,
     arrays = replicate (AddressBinarySize * 8) (replicate BucketSize empty_address),
     table = map (\<lambda>n. (n, 0)) [0..<AddressBinarySize * 8]\<rparr>"

text \<open>The elements of a slice, as they are in memory now.\<close>

definition slice_elems :: "rtable \<Rightarrow> slice_ref \<Rightarrow> address list" where
  "slice_elems t r = take (snd r) (arrays t ! fst r)"

definition TableLen :: "rtable \<Rightarrow> nat" where
  "TableLen t = foldl (\<lambda>size i. size + snd i) 0 (table t)"

text \<open>
  \<open>append(bucket[:found], bucket[found+1:]...)\<close>: the tail moves down one position in the same array,
  whose position \<open>n - 1\<close> keeps its old element.
\<close>

definition shift_out :: "nat \<Rightarrow> nat \<Rightarrow> address list \<Rightarrow> address list" where
  "shift_out found n arr = take found arr @ drop (Suc found) (take n arr) @ drop (n - 1) arr"

definition insertIntoTable :: "address \<Rightarrow> rtable \<Rightarrow> rtable res" where
  "insertIntoTable addr t =
     res_bind (bucket_index (self t) addr) (\<lambda>index.
       if index < 0 \<or> int (length (table t)) \<le> index then Panic
       else
         (let (arr, n) = table t ! nat index;
              bucket = slice_elems t (arr, n)
          in case find_index (\<lambda>i. Address_Equals i addr) bucket of
               Some found \<Rightarrow>
                 Ok (t\<lparr>arrays := (arrays t)[arr := shift_out found n (arrays t ! arr)]
                                  @ [addr # remove_nth found bucket],
                       table := (table t)[nat index := (length (arrays t), n)]\<rparr>)
             | None \<Rightarrow>
                 (let kept = (if length bucket = BucketSize then butlast bucket else bucket)
                  in Ok (t\<lparr>arrays := arrays t @ [addr # kept],
                           table := (table t)[nat index := (length (arrays t), Suc (length kept))]\<rparr>))))"

text \<open>Reading the saved table back gives every bucket a fresh array.\<close>

definition load_table :: "address list list \<Rightarrow> rtable \<Rightarrow> rtable" where
  "load_table bs t = t\<lparr>arrays := bs, table := map (\<lambda>i. (i, length (bs ! i))) [0..<length bs]\<rparr>"

section \<open>Abstract view\<close>

definition buckets :: "rtable \<Rightarrow> address list list" where
  "buckets t = map (slice_elems t) (table t)"

text \<open>The specification of one bucket: a move-to-front cache of at most \<open>BucketSize\<close> addresses.\<close>

definition mtf_insert :: "address \<Rightarrow> address list \<Rightarrow> address list" where
  "mtf_insert a xs = take BucketSize (a # filter (\<lambda>x. \<not> Address_Equals x a) xs)"

definition bucket_ok :: "address \<Rightarrow> nat \<Rightarrow> address list \<Rightarrow> bool" where
  "bucket_ok me i xs \<longleftrightarrow>
     length xs \<le> BucketSize \<and> distinct (map Raw xs) \<and>
     list_all (\<lambda>a. bucket_index me a = Ok (int i)) xs"

definition refs_ok :: "rtable \<Rightarrow> bool" where
  "refs_ok t \<longleftrightarrow>
     distinct (map fst (table t)) \<and>
     list_all (\<lambda>(arr, n). arr < length (arrays t) \<and> n \<le> length (arrays t ! arr)) (table t)"

definition rt_inv :: "rtable \<Rightarrow> bool" where
  "rt_inv t \<longleftrightarrow>
     length (Raw (self t)) = AddressBinarySize \<and> length (table t) = AddressBinarySize * 8 \<and>
     refs_ok t \<and> (\<forall>i<length (table t). bucket_ok (self t) i (buckets t ! i))"

lemma length_buckets [simp]: "length (buckets t) = length (table t)"
  by (simp add: buckets_def)

lemma nth_buckets: "i < length (table t) \<Longrightarrow> buckets t ! i = slice_elems t (table t ! i)"
  by (simp add: buckets_def)

section \<open>Bucket index\<close>

lemma bucket_index_eq:
  "bucket_index me a =
     (if length (Raw a) \<le> length (Raw me)
      then Ok (Address_LeadingZeroes \<lparr>Raw = map2 (XOR) (Raw a) (Raw me), Encoded = []\<rparr>)
      else Panic)"
  by (simp add: bucket_index_def Address_Xor_def Xor_loop_cases)

lemma bucket_index_range:
  assumes "length (Raw me) = 20" "Raw a \<noteq> []" "length (Raw a) \<le> 20"
  obtains i where "bucket_index me a = Ok (int i)" "i < 160"
proof -
  let ?d = "\<lparr>Raw = map2 (XOR) (Raw a) (Raw me), Encoded = []\<rparr>"
  have "Raw me \<noteq> []" using assms(1) by auto
  then have "Raw ?d \<noteq> []" using assms(2) by (cases "Raw a"; cases "Raw me") auto
  from LeadingZeroes_range [OF this] assms
  have "0 \<le> Address_LeadingZeroes ?d" "Address_LeadingZeroes ?d < 160" by auto
  then show ?thesis
    using assms by (intro that [of "nat (Address_LeadingZeroes ?d)"]) (auto simp: bucket_index_eq)
qed

lemma bucket_index_bad:
  assumes "length (Raw me) = 20"
  shows "length (Raw a) > 20 \<Longrightarrow> bucket_index me a = Panic"
    "Raw a = [] \<Longrightarrow> bucket_index me a = Ok (- 1)"
  using assms by (simp_all add: bucket_index_eq Address_LeadingZeroes_def)

lemma bucket_index_Equals: "Raw a = Raw b \<Longrightarrow> bucket_index me a = bucket_index me b"
  by (simp add: bucket_index_eq)

section \<open>Moving to the front\<close>

lemma filter_remove_nth:
  "distinct (map f xs) \<Longrightarrow> n < length xs \<Longrightarrow> filter (\<lambda>x. f x \<noteq> f (xs ! n)) xs = remove_nth n xs"
proof (induction xs arbitrary: n)
  case (Cons a xs)
  show ?case
  proof (cases n)
    case 0
    have "filter (\<lambda>x. f x \<noteq> f a) xs = xs"
      using Cons.prems(1) by (intro filter_True) (auto simp: image_iff)
    with 0 show ?thesis by simp
  next
    case (Suc m)
    with Cons show ?thesis by (auto simp: image_iff)
  qed
qed simp

text \<open>What the code computes for a bucket is the specification's insertion.\<close>

lemma mtf_insert_code:
  assumes "length xs \<le> BucketSize" "distinct (map Raw xs)"
  shows "mtf_insert a xs =
    (case find_index (\<lambda>i. Address_Equals i a) xs of
       Some found \<Rightarrow> a # remove_nth found xs
     | None \<Rightarrow> a # (if length xs = BucketSize then butlast xs else xs))"
proof (cases "find_index (\<lambda>i. Address_Equals i a) xs")
  case None
  then have "filter (\<lambda>x. \<not> Address_Equals x a) xs = xs"
    by (auto simp: find_index_None_iff filter_id_conv)
  with None assms show ?thesis
    by (auto simp: mtf_insert_def BucketSize_def butlast_conv_take take_Cons')
next
  case (Some k)
  from find_index_SomeD [OF Some] have k: "k < length xs" "Raw (xs ! k) = Raw a"
    by (auto simp: Address_Equals_def)
  then have "filter (\<lambda>x. \<not> Address_Equals x a) xs = remove_nth k xs"
    using filter_remove_nth [OF assms(2) k(1)] by (simp add: Address_Equals_def)
  with Some assms k show ?thesis by (simp add: mtf_insert_def BucketSize_def)
qed

lemma mtf_insert_ok:
  assumes "bucket_ok me i xs" "bucket_index me a = Ok (int i)"
  shows "bucket_ok me i (mtf_insert a xs)"
proof -
  let ?ys = "a # filter (\<lambda>x. \<not> Address_Equals x a) xs"
  have "distinct (map Raw ?ys)"
    using assms(1) by (auto simp: bucket_ok_def Address_Equals_def distinct_map_filter)
  then have "distinct (map Raw (take BucketSize ?ys))"
    by (simp add: take_map [symmetric] distinct_take del: list.map)
  moreover have "\<forall>x\<in>set ?ys. bucket_index me x = Ok (int i)"
    using assms by (auto simp: bucket_ok_def list_all_iff)
  then have "list_all (\<lambda>a. bucket_index me a = Ok (int i)) (take BucketSize ?ys)"
    using set_take_subset [of BucketSize ?ys] by (auto simp: list_all_iff)
  ultimately show ?thesis by (simp add: bucket_ok_def mtf_insert_def)
qed

section \<open>Refinement\<close>

lemma slice_elems_other:
  assumes "arr' \<noteq> arr" "arr' < length (arrays t)"
  shows "slice_elems (t\<lparr>arrays := (arrays t)[arr := x] @ ys, table := tb\<rparr>) (arr', n) =
    slice_elems t (arr', n)"
  using assms by (simp add: slice_elems_def nth_append)

lemma refs_ok_nth:
  assumes "refs_ok t" "i < length (table t)" "table t ! i = (arr, n)"
  shows "arr < length (arrays t)" "n \<le> length (arrays t ! arr)"
  using assms by (auto simp: refs_ok_def list_all_length split: prod.splits dest!: spec)

lemma refs_ok_distinct:
  assumes "refs_ok t" "i < length (table t)" "j < length (table t)" "i \<noteq> j"
  shows "fst (table t ! i) \<noteq> fst (table t ! j)"
  using assms by (auto simp: refs_ok_def distinct_conv_nth)

text \<open>Replacing bucket \<open>i\<close> by a fresh array, possibly after changing its old array in place.\<close>

lemma replace_bucket:
  assumes "refs_ok t" "i < length (table t)" "table t ! i = (arr, n)"
    and t': "t' = t\<lparr>arrays := (arrays t)[arr := x] @ [ys], table := (table t)[i := (length (arrays t), length ys)]\<rparr>"
    and len: "length x = length (arrays t ! arr)"
  shows "refs_ok t'" "buckets t' = (buckets t)[i := ys]"
proof -
  have arr: "arr < length (arrays t)" using refs_ok_nth [OF assms(1,2,3)] by simp
  have fresh: "length (arrays t) \<notin> fst ` set (table t)"
    using assms(1) by (auto simp: refs_ok_def list_all_iff)
  have d: "distinct ((map fst (table t))[i := length (arrays t)])"
    using assms(1) fresh by (intro distinct_list_update) (auto simp: refs_ok_def dest: in_set_takeD in_set_dropD)
  have a: "list_all (\<lambda>(a, n). a < Suc (length (arrays t)) \<and>
             n \<le> length (((arrays t)[arr := x] @ [ys]) ! a)) ((table t)[i := (length (arrays t), length ys)])"
  proof (rule list_all_length [THEN iffD2], intro allI impI)
    fix j assume j: "j < length ((table t)[i := (length (arrays t), length ys)])"
    obtain b m where bm: "table t ! j = (b, m)" by fastforce
    show "case (table t)[i := (length (arrays t), length ys)] ! j of
        (a, n) \<Rightarrow> a < Suc (length (arrays t)) \<and> n \<le> length (((arrays t)[arr := x] @ [ys]) ! a)"
    proof (cases "j = i")
      case False
      with j bm refs_ok_nth [OF assms(1) _ bm] len show ?thesis
        by (cases "b = arr") (auto simp: nth_append)
    qed (use j in \<open>simp add: nth_append\<close>)
  qed
  from d a show "refs_ok t'" by (simp add: refs_ok_def t' map_update)
  show "buckets t' = (buckets t)[i := ys]"
  proof (rule nth_equalityI)
    fix j assume "j < length (buckets t')"
    then have j: "j < length (table t)" by (simp add: t')
    obtain b m where bm: "table t ! j = (b, m)" by fastforce
    show "buckets t' ! j = (buckets t)[i := ys] ! j"
    proof (cases "j = i")
      case True
      with j show ?thesis by (simp add: nth_buckets t' slice_elems_def nth_append)
    next
      case False
      with refs_ok_distinct [OF assms(1) j assms(2)] bm assms(3) have "b \<noteq> arr" by simp
      with j bm False refs_ok_nth [OF assms(1) j bm] show ?thesis
        by (simp add: nth_buckets t' slice_elems_other)
    qed
  qed (simp add: t')
qed

lemma length_shift_out:
  "found < n \<Longrightarrow> n \<le> length arr \<Longrightarrow> length (shift_out found n arr) = length arr"
  by (simp add: shift_out_def)

lemma insertIntoTable_refines:
  assumes inv: "rt_inv t" and idx: "bucket_index (self t) addr = Ok (int i)" and i: "i < 160"
  obtains t' where "insertIntoTable addr t = Ok t'" "self t' = self t" "refs_ok t'"
    "buckets t' = (buckets t)[i := mtf_insert addr (buckets t ! i)]"
    "\<And>arr. arr < length (arrays t) \<Longrightarrow> arr \<noteq> fst (table t ! i) \<Longrightarrow> arrays t' ! arr = arrays t ! arr"
    "length (arrays t') = Suc (length (arrays t))" "fst (table t' ! i) = length (arrays t)"
    "\<And>j. j \<noteq> i \<Longrightarrow> table t' ! j = table t ! j"
proof -
  have refs: "refs_ok t" and len: "length (table t) = 160"
    using inv by (auto simp: rt_inv_def AddressBinarySize_def)
  obtain arr n where an: "table t ! i = (arr, n)" by fastforce
  have it: "i < length (table t)" using i len by simp
  note nth = refs_ok_nth [OF refs it an]
  let ?b = "slice_elems t (arr, n)"
  have b: "buckets t ! i = ?b" using it an by (simp add: nth_buckets)
  have ok: "length ?b \<le> BucketSize" "distinct (map Raw ?b)"
    using inv it b by (auto simp: rt_inv_def bucket_ok_def)
  have lb: "length ?b = n" using nth by (simp add: slice_elems_def)
  show thesis
  proof (cases "find_index (\<lambda>i. Address_Equals i addr) ?b")
    case None
    let ?kept = "if length ?b = BucketSize then butlast ?b else ?b"
    let ?t = "t\<lparr>arrays := arrays t @ [addr # ?kept],
        table := (table t)[i := (length (arrays t), Suc (length ?kept))]\<rparr>"
    have "insertIntoTable addr t = Ok ?t"
      using idx it an None by (simp add: insertIntoTable_def Let_def)
    moreover have "mtf_insert addr ?b = addr # ?kept"
      using None by (simp add: mtf_insert_code [OF ok])
    moreover have "?t = t\<lparr>arrays := (arrays t)[arr := arrays t ! arr] @ [addr # ?kept],
        table := (table t)[i := (length (arrays t), length (addr # ?kept))]\<rparr>" by simp
    note replace_bucket [OF refs it an this refl]
    ultimately show thesis
      using that [of ?t] b it by (simp add: nth_append)
  next
    case (Some found)
    have f: "found < n" using find_index_SomeD [OF Some] lb by simp
    let ?t = "t\<lparr>arrays := (arrays t)[arr := shift_out found n (arrays t ! arr)] @ [addr # remove_nth found ?b],
        table := (table t)[i := (length (arrays t), n)]\<rparr>"
    have "insertIntoTable addr t = Ok ?t"
      using idx it an Some by (simp add: insertIntoTable_def Let_def)
    moreover have "mtf_insert addr ?b = addr # remove_nth found ?b"
      using Some by (simp add: mtf_insert_code [OF ok])
    moreover have "?t = t\<lparr>arrays := (arrays t)[arr := shift_out found n (arrays t ! arr)] @ [addr # remove_nth found ?b],
        table := (table t)[i := (length (arrays t), length (addr # remove_nth found ?b))]\<rparr>"
      using f lb by simp
    note replace_bucket [OF refs it an this length_shift_out [OF f nth(2)]]
    ultimately show thesis
      using that [of ?t] b it an by (simp add: nth_append)
  qed
qed

lemma insertIntoTable_inv:
  assumes "rt_inv t" "insertIntoTable addr t = Ok t'"
  shows "rt_inv t'" "self t' = self t"
proof -
  have me: "length (Raw (self t)) = 20" and len: "length (table t) = 160"
    using assms(1) by (auto simp: rt_inv_def AddressBinarySize_def)
  have rng: "Raw addr \<noteq> []" "length (Raw addr) \<le> 20"
    using assms(2) bucket_index_bad [OF me, of addr]
    by (auto simp: insertIntoTable_def not_less [symmetric])
  obtain i where i: "bucket_index (self t) addr = Ok (int i)" "i < 160"
    using bucket_index_range [OF me rng] .
  from insertIntoTable_refines [OF assms(1) i] assms(2)
  have r: "self t' = self t" "refs_ok t'"
    "buckets t' = (buckets t)[i := mtf_insert addr (buckets t ! i)]" by auto
  then show "self t' = self t" by simp
  have "length (table t') = 160" using r(3) len by (metis length_buckets length_list_update)
  moreover have "bucket_ok (self t) i (mtf_insert addr (buckets t ! i))"
    using assms(1) i len by (intro mtf_insert_ok) (auto simp: rt_inv_def)
  ultimately show "rt_inv t'"
    using assms(1) r i len by (auto simp: rt_inv_def nth_list_update AddressBinarySize_def)
qed

lemma new_table_inv: "length (Raw me) = 20 \<Longrightarrow> rt_inv (new_table me)"
  by (auto simp: rt_inv_def new_table_def AddressBinarySize_def refs_ok_def list_all_iff comp_def
      BucketSize_def bucket_ok_def nth_buckets slice_elems_def)

end
