(* ===== verification/Net_Store.thy ===== *)
theory Net_Store
  imports Dht_Entry Proc
begin

text \<open>
  The SQLite tables of the network database and the statements of \<^verbatim>\<open>dht/sql.go\<close>, each as one function on
  the tables. A table is the list of its rows in row id order.

  Of SQLite and its Go driver the model uses: uniqueness and NOT NULL constraints with their
  \<open>OR IGNORE\<close> resolution, row ids (the largest one plus one), the row count of an update, and column
  affinity. The columns declared \<open>STRING\<close> have numeric affinity, so a text that is a numeric literal is
  stored as a number and read back in another spelling; what is read back is the parameter
  \<open>affinity\<close>. The full text index is the parameter \<open>fts_docids\<close>. Every statement may fail in the
  driver: \<open>faults\<close> is the script of these failures, one flag per call; an empty script never fails.
\<close>

section \<open>Tables\<close>

record sqlite =
  affinity :: "string \<Rightarrow> string"
  fts_docids :: "(nat \<times> string \<times> string) list \<Rightarrow> string \<Rightarrow> string \<Rightarrow> nat list res"

record entry_row =
  rid :: nat
  raddress :: string
  rname :: string
  rdesc :: string
  rpublicAddress :: string
  rport :: int
  rpublicKey :: bytes
  rsignature :: bytes
  rcollectionHash :: bytes
  rpostCount :: int
  rseedCount :: nat
  rseedingCount :: nat
  rupdated :: int
  rseen :: int

record seed_row =
  sid :: nat
  sseed :: nat
  sfor :: nat

record store =
  entry_tbl :: "entry_row list"
  seed_tbl :: "seed_row list"
  fts_tbl :: "(nat \<times> string \<times> string) list"
  last_rowid :: nat
  faults :: "bool list"

definition empty_store :: store where
  "empty_store = \<lparr>entry_tbl = [], seed_tbl = [], fts_tbl = [], last_rowid = 0, faults = []\<rparr>"

section \<open>Statements\<close>

definition sql_call :: "(store, unit) proc" where
  "sql_call s =
     (case faults s of
        [] \<Rightarrow> (Ok (), s)
      | b # bs \<Rightarrow> (if b then Err ErrDriver else Ok (), s\<lparr>faults := bs\<rparr>))"

definition next_rowid :: "nat list \<Rightarrow> nat" where
  "next_rowid ids = Suc (foldl max 0 ids)"

text \<open>The columns of an entry, as they are stored.\<close>

definition set_columns :: "sqlite \<Rightarrow> entry \<Rightarrow> entry_row \<Rightarrow> entry_row" where
  "set_columns q e r = r\<lparr>
     rname := affinity q (Name e), rdesc := affinity q (Desc e),
     rpublicAddress := affinity q (PublicAddress e), rport := Port e, rpublicKey := PublicKey e,
     rsignature := Signature e, rcollectionHash := CollectionHash e, rpostCount := PostCount e,
     rseedCount := length (Seeds e), rseedingCount := length (Seeding e),
     rupdated := sint (Updated e), rseen := Seen e\<rparr>"

definition new_row :: "sqlite \<Rightarrow> nat \<Rightarrow> string \<Rightarrow> entry \<Rightarrow> entry_row" where
  "new_row q i key e = set_columns q e \<lparr>rid = i, raddress = affinity q key, rname = [], rdesc = [],
     rpublicAddress = [], rport = 0, rpublicKey = [], rsignature = [], rcollectionHash = [],
     rpostCount = 0, rseedCount = 0, rseedingCount = 0, rupdated = 0, rseen = 0\<rparr>"

text \<open>
  The driver refuses a \<open>uint64\<close> argument with the high bit set. An empty \<open>[]byte\<close> is bound as NULL,
  which violates the constraint on \<open>publicKey\<close>.
\<close>

definition bad_args :: "entry \<Rightarrow> bool" where
  "bad_args e \<longleftrightarrow> sint (Updated e) < 0"

definition sqlUpdateEntry :: "sqlite \<Rightarrow> entry \<Rightarrow> string \<Rightarrow> (store, nat) proc" where
  "sqlUpdateEntry q e key =
     (if bad_args e then fail ErrDriver
      else bind sql_call (\<lambda>_. bind (gets entry_tbl) (\<lambda>rows.
        let hit = (\<lambda>r. raddress r = affinity q key) in
        if PublicKey e = [] \<and> list_ex hit rows then fail ErrDriver
        else bind (modify (\<lambda>s. s\<lparr>entry_tbl := map (\<lambda>r. if hit r then set_columns q e r else r) rows\<rparr>))
               (\<lambda>_. ret (length (filter hit rows))))))"

text \<open>The result is the number of affected rows and the last row id inserted on the connection.\<close>

definition sqlInsertEntry :: "sqlite \<Rightarrow> entry \<Rightarrow> string \<Rightarrow> (store, nat \<times> nat) proc" where
  "sqlInsertEntry q e key =
     (if bad_args e then fail ErrDriver
      else bind sql_call (\<lambda>_ s.
        if PublicKey e = [] \<or> list_ex (\<lambda>r. raddress r = affinity q key) (entry_tbl s)
        then (Ok (0, last_rowid s), s)
        else
          (let i = next_rowid (map rid (entry_tbl s))
           in (Ok (1, i), s\<lparr>entry_tbl := entry_tbl s @ [new_row q i key e], last_rowid := i\<rparr>))))"

definition sqlInsertSeed :: "nat \<Rightarrow> nat \<Rightarrow> (store, unit) proc" where
  "sqlInsertSeed seedId forId =
     bind sql_call (\<lambda>_ s.
       if list_ex (\<lambda>r. sseed r = seedId \<and> sfor r = forId) (seed_tbl s) then (Ok (), s)
       else
         (let i = next_rowid (map sid (seed_tbl s))
          in (Ok (), s\<lparr>seed_tbl := seed_tbl s @ [\<lparr>sid = i, sseed = seedId, sfor = forId\<rparr>],
                       last_rowid := i\<rparr>)))"

definition sqlInsertFtsEntry :: "nat \<Rightarrow> string \<Rightarrow> string \<Rightarrow> (store, unit) proc" where
  "sqlInsertFtsEntry docid name desc =
     bind sql_call (\<lambda>_ s.
       if list_ex (\<lambda>r. fst r = docid) (fts_tbl s) then (Ok (), s)
       else (Ok (), s\<lparr>fts_tbl := fts_tbl s @ [(docid, name, desc)], last_rowid := docid\<rparr>))"

definition sqlQueryAddress :: "sqlite \<Rightarrow> string \<Rightarrow> (store, entry_row) proc" where
  "sqlQueryAddress q key =
     bind sql_call (\<lambda>_ s.
       case find (\<lambda>r. raddress r = affinity q key) (entry_tbl s) of
         None \<Rightarrow> (Err ErrNoRows, s)
       | Some r \<Rightarrow> (Ok r, s))"

definition sqlQueryIdByAddress :: "sqlite \<Rightarrow> string \<Rightarrow> (store, nat) proc" where
  "sqlQueryIdByAddress q key = bind (sqlQueryAddress q key) (\<lambda>r. ret (rid r))"

text \<open>The join of \<open>entry\<close> and \<open>seed\<close>; SQL leaves the order open, here it is that of \<open>seed\<close>.\<close>

definition entry_addresses :: "store \<Rightarrow> nat list \<Rightarrow> string list" where
  "entry_addresses s ids =
     concat (map (\<lambda>i. map raddress (filter (\<lambda>r. rid r = i) (entry_tbl s))) ids)"

definition sqlQuerySeeds :: "int \<Rightarrow> (store, string list) proc" where
  "sqlQuerySeeds i =
     bind sql_call (\<lambda>_. gets (\<lambda>s.
       entry_addresses s (map sseed (filter (\<lambda>r. int (sfor r) = i) (seed_tbl s)))))"

definition sqlQuerySeeding :: "int \<Rightarrow> (store, string list) proc" where
  "sqlQuerySeeding i =
     bind sql_call (\<lambda>_. gets (\<lambda>s.
       entry_addresses s (map sfor (filter (\<lambda>r. int (sseed r) = i) (seed_tbl s)))))"

text \<open>\<open>MAX(id)\<close> is NULL on an empty table, which \<open>Scan\<close> cannot store in an \<open>int\<close>.\<close>

definition sqlEntryLen :: "(store, nat) proc" where
  "sqlEntryLen =
     bind sql_call (\<lambda>_ s.
       if entry_tbl s = [] then (Err ErrDriver, s)
       else (Ok (foldl max 0 (map rid (entry_tbl s))), s))"

definition sqlQueryLatest :: "(store, entry_row list) proc" where
  "sqlQueryLatest = bind sql_call (\<lambda>_. gets (\<lambda>s. take 20 (rev (sort_key rid (entry_tbl s)))))"

text \<open>The subquery is compared with \<open>=\<close>: only its first row counts.\<close>

definition sqlSearchEntries :: "sqlite \<Rightarrow> string \<Rightarrow> string \<Rightarrow> int \<Rightarrow> int \<Rightarrow> (store, string list) proc" where
  "sqlSearchEntries q name desc off lim =
     bind sql_call (\<lambda>_ s.
       (res_bind (fts_docids q (fts_tbl s) name desc) (\<lambda>ids.
          Ok (take (nat lim) (drop (nat off)
            (case ids of
               [] \<Rightarrow> []
             | i # _ \<Rightarrow> map raddress (filter (\<lambda>r. rid r = i) (entry_tbl s)))))), s))"

section \<open>Invariant\<close>

definition store_inv :: "store \<Rightarrow> bool" where
  "store_inv s \<longleftrightarrow>
     map rid (entry_tbl s) = [1..<Suc (length (entry_tbl s))] \<and>
     distinct (map raddress (entry_tbl s)) \<and>
     distinct (map (\<lambda>r. (sseed r, sfor r)) (seed_tbl s)) \<and>
     (\<forall>r\<in>set (seed_tbl s). sseed r \<in> rid ` set (entry_tbl s) \<and> sfor r \<in> rid ` set (entry_tbl s))"

lemma foldl_max_upt: "foldl max 0 [1..<Suc n] = n"
  by (induction n) auto

lemma next_rowid_inv: "store_inv s \<Longrightarrow> next_rowid (map rid (entry_tbl s)) = Suc (length (entry_tbl s))"
  using foldl_max_upt [of "length (entry_tbl s)"]
  by (simp add: store_inv_def next_rowid_def del: upt_Suc)

lemma sql_call_frame:
  "entry_tbl (snd (sql_call s)) = entry_tbl s" "seed_tbl (snd (sql_call s)) = seed_tbl s"
  "fts_tbl (snd (sql_call s)) = fts_tbl s"
  by (auto simp: sql_call_def split: list.splits)

lemma sql_call_no_fault [simp]: "faults s = [] \<Longrightarrow> sql_call s = (Ok (), s)"
  by (simp add: sql_call_def)

lemma bind_sql_call_OkE:
  assumes "bind sql_call f s = (Ok x, t)"
  obtains fs where "f () (s\<lparr>faults := fs\<rparr>) = (Ok x, t)"
proof (cases "faults s")
  case Nil
  then have "s\<lparr>faults := []\<rparr> = s" by (cases s) simp
  with Nil assms that [of "[]"] show ?thesis by (simp add: bind_def sql_call_def)
next
  case (Cons b bs)
  with assms that [of bs] show ?thesis
    by (simp add: bind_def sql_call_def split: if_splits)
qed

lemma store_inv_faults [simp]: "store_inv (s\<lparr>faults := fs\<rparr>) = store_inv s"
  by (simp add: store_inv_def)

lemma preserves_sql_call [proc_intros]: "preserves store_inv sql_call"
  by (auto simp: preserves_def sql_call_def split: list.splits)

lemma rid_set_columns [simp]:
  "rid (set_columns q e r) = rid r" "raddress (set_columns q e r) = raddress r"
  by (simp_all add: set_columns_def)

lemma rid_new_row [simp]: "rid (new_row q i key e) = i" "raddress (new_row q i key e) = affinity q key"
  by (simp_all add: new_row_def)

lemma store_inv_update:
  assumes "store_inv s" "\<And>r. rid (f r) = rid r" "\<And>r. raddress (f r) = raddress r"
  shows "store_inv (s\<lparr>entry_tbl := map f (entry_tbl s)\<rparr>)"
  using assms by (simp add: store_inv_def comp_def image_image del: upt_Suc)

lemma store_inv_insert:
  assumes "store_inv s" "rid r = Suc (length (entry_tbl s))" "raddress r \<notin> raddress ` set (entry_tbl s)"
  shows "store_inv (s\<lparr>entry_tbl := entry_tbl s @ [r], last_rowid := i\<rparr>)"
  using assms by (auto simp: store_inv_def)

lemma sqlUpdateEntry_inv [proc_intros]: "preserves store_inv (sqlUpdateEntry q e key)"
proof -
  have "preserves store_inv (bind sql_call (\<lambda>_. bind (gets entry_tbl) (\<lambda>rows.
        let hit = (\<lambda>r. raddress r = affinity q key) in
        if PublicKey e = [] \<and> list_ex hit rows then fail ErrDriver
        else bind (modify (\<lambda>s. s\<lparr>entry_tbl := map (\<lambda>r. if hit r then set_columns q e r else r) rows\<rparr>))
               (\<lambda>_. ret (length (filter hit rows))))))"
    by (intro preserves_bind preserves_bind_gets proc_intros)
      (auto simp: Let_def proc_defs intro!: store_inv_update)
  then show ?thesis by (simp add: sqlUpdateEntry_def)
qed

lemma sqlInsertEntry_inv [proc_intros]: "preserves store_inv (sqlInsertEntry q e key)"
  unfolding sqlInsertEntry_def
  by (intro proc_intros)
    (auto simp: preserves_def Let_def list_ex_iff next_rowid_inv intro!: store_inv_insert)

lemma sqlInsertSeed_inv:
  assumes "store_inv s" "a \<in> rid ` set (entry_tbl s)" "b \<in> rid ` set (entry_tbl s)"
  shows "store_inv (snd (sqlInsertSeed a b s))"
  using assms
  by (auto simp: sqlInsertSeed_def bind_def sql_call_def store_inv_def Let_def list_ex_iff
      split: list.splits)

lemma sqlInsertFtsEntry_inv [proc_intros]: "preserves store_inv (sqlInsertFtsEntry i n d)"
  unfolding sqlInsertFtsEntry_def
  by (intro proc_intros) (auto simp: preserves_def store_inv_def)

lemma sqlQueries_inv [proc_intros]:
  "preserves store_inv (sqlQueryAddress q key)" "preserves store_inv (sqlQueryIdByAddress q key)"
  "preserves store_inv (sqlQuerySeeds i)" "preserves store_inv (sqlQuerySeeding i)"
  "preserves store_inv sqlEntryLen" "preserves store_inv sqlQueryLatest"
  "preserves store_inv (sqlSearchEntries q n d off lim)"
proof -
  show qa: "preserves store_inv (sqlQueryAddress q key)"
    unfolding sqlQueryAddress_def
    by (intro proc_intros) (auto simp: preserves_def split: option.splits)
  show "preserves store_inv (sqlQueryIdByAddress q key)"
    unfolding sqlQueryIdByAddress_def by (intro proc_intros qa)
  show "preserves store_inv (sqlQuerySeeds i)" "preserves store_inv (sqlQuerySeeding i)"
    "preserves store_inv sqlQueryLatest"
    unfolding sqlQuerySeeds_def sqlQuerySeeding_def sqlQueryLatest_def by (intro proc_intros)+
  show "preserves store_inv sqlEntryLen" "preserves store_inv (sqlSearchEntries q n d off lim)"
    unfolding sqlEntryLen_def sqlSearchEntries_def
    by (intro proc_intros; auto simp: preserves_def)+
qed

lemma empty_store_inv [simp]: "store_inv empty_store"
  by (simp add: store_inv_def empty_store_def)

section \<open>Rows by address\<close>

definition row_of :: "sqlite \<Rightarrow> store \<Rightarrow> string \<Rightarrow> entry_row option" where
  "row_of q s key = find (\<lambda>r. raddress r = affinity q key) (entry_tbl s)"

lemma sqlQueryAddress_eq:
  "faults s = [] \<Longrightarrow> sqlQueryAddress q key s =
     (case row_of q s key of None \<Rightarrow> (Err ErrNoRows, s) | Some r \<Rightarrow> (Ok r, s))"
  by (simp add: sqlQueryAddress_def bind_def row_of_def split: option.splits)

lemma find_map_same:
  "(\<And>r. P (f r) = P r) \<Longrightarrow> find P (map f xs) = map_option f (find P xs)"
  by (induction xs) auto

lemma row_of_None_iff: "row_of q s key = None \<longleftrightarrow> (\<forall>r\<in>set (entry_tbl s). raddress r \<noteq> affinity q key)"
  by (auto simp: row_of_def find_None_iff)

lemma row_of_SomeD: "row_of q s key = Some r \<Longrightarrow> r \<in> set (entry_tbl s) \<and> raddress r = affinity q key"
  by (auto simp: row_of_def find_Some_iff)

lemma raddress_inj:
  "store_inv s \<Longrightarrow> r \<in> set (entry_tbl s) \<Longrightarrow> r' \<in> set (entry_tbl s) \<Longrightarrow> raddress r = raddress r' \<Longrightarrow> r = r'"
  unfolding store_inv_def distinct_map by (meson inj_onD)

lemma row_of_unique:
  assumes "store_inv s" "r \<in> set (entry_tbl s)" "raddress r = affinity q key"
  shows "row_of q s key = Some r"
proof (cases "row_of q s key")
  case None
  with assms show ?thesis by (auto simp: row_of_None_iff)
next
  case (Some r')
  from row_of_SomeD [OF this] have "r' \<in> set (entry_tbl s)" "raddress r' = raddress r"
    by (simp_all add: assms(3))
  then have "r' = r" using assms(2) by (intro raddress_inj [OF assms(1)])
  with Some show ?thesis by simp
qed

lemma filter_unique:
  "distinct (map f xs) \<Longrightarrow> x \<in> set xs \<Longrightarrow> filter (\<lambda>y. f y = f x) xs = [x]"
proof (induction xs)
  case (Cons a xs)
  show ?case
  proof (cases "x = a")
    case True
    with Cons.prems have "filter (\<lambda>y. f y = f x) xs = []"
      by (auto simp: filter_empty_conv image_iff)
    with True show ?thesis by simp
  next
    case False
    with Cons have "x \<in> set xs" "f a \<noteq> f x" by (auto simp: image_iff)
    with Cons show ?thesis by simp
  qed
qed simp

text \<open>An update hits the one row of the address, if there is one.\<close>

lemma sqlUpdateEntry_eq:
  assumes "store_inv s" "faults s = []" "\<not> bad_args e" "PublicKey e \<noteq> []"
  shows "sqlUpdateEntry q e key s =
    (case row_of q s key of
       None \<Rightarrow> (Ok 0, s)
     | Some r \<Rightarrow> (Ok 1, s\<lparr>entry_tbl := map (\<lambda>r'. if r' = r then set_columns q e r else r') (entry_tbl s)\<rparr>))"
proof -
  let ?hit = "\<lambda>r. raddress r = affinity q key"
  have run: "sqlUpdateEntry q e key s =
      (Ok (length (filter ?hit (entry_tbl s))),
       s\<lparr>entry_tbl := map (\<lambda>r. if ?hit r then set_columns q e r else r) (entry_tbl s)\<rparr>)"
    using assms by (simp add: sqlUpdateEntry_def bind_def proc_defs Let_def)
  show ?thesis
  proof (cases "row_of q s key")
    case None
    then have no: "\<forall>r\<in>set (entry_tbl s). \<not> ?hit r" by (auto simp: row_of_None_iff)
    then have "map (\<lambda>r. if ?hit r then set_columns q e r else r) (entry_tbl s) = entry_tbl s"
      by (intro map_idI) simp
    with None no run show ?thesis by (simp add: filter_empty_conv)
  next
    case (Some r)
    from row_of_SomeD [OF Some] have r: "r \<in> set (entry_tbl s)" "?hit r" by auto
    have d: "distinct (map raddress (entry_tbl s))" using assms(1) by (simp add: store_inv_def)
    have "filter ?hit (entry_tbl s) = [r]" using filter_unique [OF d r(1)] r(2) by simp
    moreover have "?hit x \<longleftrightarrow> x = r" if "x \<in> set (entry_tbl s)" for x
      using raddress_inj [OF assms(1) that r(1)] r(2) by metis
    then have "map (\<lambda>r. if ?hit r then set_columns q e r else r) (entry_tbl s) =
        map (\<lambda>r'. if r' = r then set_columns q e r else r') (entry_tbl s)"
      by (intro map_cong refl) simp
    ultimately show ?thesis using run Some by simp
  qed
qed

end
