(* ===== verification/NetDB.thy ===== *)
theory NetDB
  imports Routing_Table Net_Store
begin

text \<open>
  The network database of \<^verbatim>\<open>dht/netdb.go\<close> and the facade \<^verbatim>\<open>dht/dht.go\<close>: the routing table beside the
  SQL tables, with every operation of both files. A value returned together with a non-nil error is
  never read by the callers, so \<open>(T, error)\<close> is the outcome of a procedure. The table file is the map
  \<open>disk\<close> from paths to the marshalled buckets.
\<close>

section \<open>State\<close>

record netdb =
  rtab :: rtable
  conn :: store
  disk :: "string \<Rightarrow> address list list option"

abbreviation on_conn :: "(store, 'a) proc \<Rightarrow> (netdb, 'a) proc" where
  "on_conn \<equiv> zoom conn conn_update"

text \<open>The 4 schema statements and the 11 prepared statements of \<open>NewNetDB\<close>; each may fail.\<close>

definition netdb_setup_statements :: "string list" where
  "netdb_setup_statements =
     [''sqlCreateEntriesTable'', ''sqlCreateSeedsTable'', ''sqlCreateFtsTable'', ''sqlIndexAddresses'',
      ''sqlInsertEntry'', ''sqlInsertFtsEntry'', ''sqlQueryAddress'', ''sqlInsertSeed'',
      ''sqlQueryIdByAddress'', ''sqlUpdateEntry'', ''sqlQuerySeeds'', ''sqlQuerySeeding'',
      ''sqlEntryLen'', ''sqlQueryLatest'', ''sqlSearchEntries'']"

text \<open>\<open>db\<close> is the content of the database file, empty when it did not exist.\<close>

definition NewNetDB :: "address \<Rightarrow> store \<Rightarrow> (string \<Rightarrow> address list list option) \<Rightarrow> netdb res" where
  "NewNetDB addr db files =
     (case forM (''open'' # netdb_setup_statements) (\<lambda>_. sql_call) db of
        (Ok _, db') \<Rightarrow> Ok \<lparr>rtab = new_table addr, conn = db', disk = files\<rparr>
      | (Err e, db') \<Rightarrow> Err e
      | (Panic, db') \<Rightarrow> Panic)"

section \<open>Operations\<close>

definition Len :: "(netdb, nat) proc" where
  "Len = on_conn sqlEntryLen"

definition SaveTable :: "string \<Rightarrow> (netdb, unit) proc" where
  "SaveTable path = modify (\<lambda>s. s\<lparr>disk := (disk s)(path := Some (buckets (rtab s)))\<rparr>)"

definition LoadTable :: "string \<Rightarrow> (netdb, unit) proc" where
  "LoadTable path = modify (\<lambda>s. case disk s path of
     None \<Rightarrow> s
   | Some bs \<Rightarrow> s\<lparr>rtab := load_table bs (rtab s)\<rparr>)"

definition ndb_insertIntoTable :: "address \<Rightarrow> (netdb, unit) proc" where
  "ndb_insertIntoTable addr s =
     (case insertIntoTable addr (rtab s) of
        Ok t \<Rightarrow> SaveTable ''./data/table.dat'' (s\<lparr>rtab := t\<rparr>)
      | Err e \<Rightarrow> (Err e, s)
      | Panic \<Rightarrow> (Panic, s))"

definition insertIntoDB :: "sqlite \<Rightarrow> entry \<Rightarrow> (netdb, nat) proc" where
  "insertIntoDB q e =
     bind (lift_res (fst (Address_String (Address e)))) (\<lambda>addressString.
     bind (on_conn (sqlInsertEntry q e addressString)) (\<lambda>(affected, i).
       if affected = 0 then ret 0
       else bind (on_conn (sqlInsertFtsEntry i (Name e) (Desc e))) (\<lambda>_. ret affected)))"

definition InsertSeed :: "sqlite \<Rightarrow> address \<Rightarrow> address \<Rightarrow> (netdb, unit) proc" where
  "InsertSeed q entry seed =
     bind (attempt (lift_res (fst (Address_String entry)))) (\<lambda>entryString.
     bind (lift_res (fst (Address_String seed))) (\<lambda>seedAddressString.
       let entryAddressString = (case entryString of Inl _ \<Rightarrow> [] | Inr s \<Rightarrow> s) in
     bind (on_conn (sqlQueryIdByAddress q entryAddressString)) (\<lambda>entryId.
     bind (on_conn (sqlQueryIdByAddress q seedAddressString)) (\<lambda>seedId.
     on_conn (sqlInsertSeed seedId entryId)))))"

definition peer_address :: "bytes \<Rightarrow> address" where
  "peer_address raw = \<lparr>Raw = raw, Encoded = []\<rparr>"

definition insertEntrySeeds :: "sqlite \<Rightarrow> entry \<Rightarrow> (netdb, unit) proc" where
  "insertEntrySeeds q e =
     bind (forM (Seeding e) (\<lambda>i. InsertSeed q (peer_address i) (Address e))) (\<lambda>_.
     forM (Seeds e) (\<lambda>i. InsertSeed q (Address e) (peer_address i)))"

definition Update :: "crypto \<Rightarrow> sqlite \<Rightarrow> entry \<Rightarrow> (netdb, nat) proc" where
  "Update C q e =
     bind (lift_res (Entry_Verify C (Some e))) (\<lambda>_.
     bind (lift_res (fst (Address_String (Address e)))) (\<lambda>addressString.
     bind (attempt (on_conn (sqlUpdateEntry q e addressString))) (\<lambda>r.
       case r of
         Inl err \<Rightarrow> if err = ErrNoRows then ret 0 else fail err
       | Inr affected \<Rightarrow> ret affected)))"

definition Insert :: "crypto \<Rightarrow> sqlite \<Rightarrow> entry \<Rightarrow> (netdb, nat) proc" where
  "Insert C q e =
     bind (lift_res (Entry_Verify C (Some e))) (\<lambda>_.
     bind (ndb_insertIntoTable (Address e)) (\<lambda>_.
     bind (Update C q e) (\<lambda>affected.
       if affected > 0 then ret affected
       else
         bind (insertIntoDB q e) (\<lambda>affected.
         bind (insertEntrySeeds q e) (\<lambda>_. ret affected)))))"

definition decode_all :: "string list \<Rightarrow> (netdb, address list) proc" where
  "decode_all = mapM (\<lambda>a. lift_res (DecodeAddress a))"

definition querySeeds :: "int \<Rightarrow> (netdb, address list) proc" where
  "querySeeds i = bind (on_conn (sqlQuerySeeds i)) decode_all"

definition querySeeding :: "int \<Rightarrow> (netdb, address list) proc" where
  "querySeeding i = bind (on_conn (sqlQuerySeeding i)) decode_all"

definition addSeedToEntry :: "entry \<Rightarrow> int \<Rightarrow> (netdb, entry) proc" where
  "addSeedToEntry e i =
     bind (querySeeds i) (\<lambda>sds.
     bind (querySeeding i) (\<lambda>sdg.
       ret (e\<lparr>Seeds := map Raw sds, Seeding := map Raw sdg\<rparr>)))"

text \<open>The columns \<open>Scan\<close> copies into a zero \<open>Entry\<close>; the address is not among them.\<close>

definition entry_of_row :: "entry_row \<Rightarrow> entry" where
  "entry_of_row r = empty_entry\<lparr>Name := rname r, Desc := rdesc r, PublicAddress := rpublicAddress r,
     Port := rport r, PublicKey := rpublicKey r, Signature := rsignature r,
     CollectionHash := rcollectionHash r, PostCount := rpostCount r,
     Updated := word_of_int (rupdated r), Seen := rseen r\<rparr>"

definition Query :: "sqlite \<Rightarrow> address \<Rightarrow> (netdb, entry option \<times> int) proc" where
  "Query q addr =
     bind (lift_res (fst (Address_String addr))) (\<lambda>addressString.
     bind (attempt (on_conn (sqlQueryAddress q addressString))) (\<lambda>r.
       case r of
         Inl err \<Rightarrow> if err = ErrNoRows then ret (None, - 1) else fail err
       | Inr row \<Rightarrow>
           bind (lift_res (DecodeAddress (raddress row))) (\<lambda>decoded.
           bind (addSeedToEntry ((entry_of_row row)\<lparr>Address := peer_address (Raw decoded)\<rparr>)
                   (int (rid row))) (\<lambda>e.
           bind (ndb_insertIntoTable (Address e)) (\<lambda>_.
             ret (Some e, int (rid row)))))))"

definition QuerySeeds :: "sqlite \<Rightarrow> address \<Rightarrow> (netdb, address list) proc" where
  "QuerySeeds q addr = bind (Query q addr) (\<lambda>(_, i). querySeeds i)"

definition QuerySeeding :: "sqlite \<Rightarrow> address \<Rightarrow> (netdb, address list) proc" where
  "QuerySeeding q addr = bind (Query q addr) (\<lambda>(_, i). querySeeding i)"

text \<open>
  A loop over a bucket. The slice header is read once, the elements when the loop gets to them, so
  changes a query makes to the backing array are seen. \<open>lim\<close> is the bound on the result, if any.
\<close>

fun visit_bucket :: "sqlite \<Rightarrow> nat option \<Rightarrow> nat \<Rightarrow> nat list \<Rightarrow> entry option list
    \<Rightarrow> (netdb, entry option list) proc" where
  "visit_bucket q lim arr [] acc = ret acc"
| "visit_bucket q lim arr (k # ks) acc =
     (if (case lim of None \<Rightarrow> False | Some n \<Rightarrow> n \<le> length acc) then ret acc
      else
        bind (gets (\<lambda>s. arrays (rtab s) ! arr ! k)) (\<lambda>i.
        bind (attempt (Query q i)) (\<lambda>r.
          case r of
            Inl err \<Rightarrow> visit_bucket q lim arr ks acc
          | Inr (kv, _) \<Rightarrow> visit_bucket q lim arr ks (acc @ [kv]))))"

definition queryAddresses :: "sqlite \<Rightarrow> slice_ref \<Rightarrow> (netdb, entry option list) proc" where
  "queryAddresses q as = visit_bucket q None (fst as) [0..<snd as] []"

text \<open>\<open>ndb.table[i]\<close>, which panics outside the table.\<close>

definition table_at :: "int \<Rightarrow> (netdb, slice_ref) proc" where
  "table_at i s =
     (if 0 \<le> i \<and> i < int (length (table (rtab s))) then (Ok (table (rtab s) ! nat i), s)
      else (Panic, s))"

definition visit_at :: "sqlite \<Rightarrow> int \<Rightarrow> entry option list \<Rightarrow> (netdb, entry option list) proc" where
  "visit_at q i acc =
     bind (table_at i) (\<lambda>bucket. visit_bucket q (Some BucketSize) (fst bucket) [0..<snd bucket] acc)"

text \<open>One round of the outward loop: the bucket at \<open>index - i\<close>, then the one at \<open>index + i\<close>.\<close>

definition FindClosest_round :: "sqlite \<Rightarrow> int \<Rightarrow> int \<Rightarrow> int \<Rightarrow> entry option list
    \<Rightarrow> (netdb, entry option list) proc" where
  "FindClosest_round q bits index i acc =
     bind (if index - i \<ge> 0 then visit_at q (index - i) acc else ret acc) (\<lambda>acc.
     if index + i < bits then visit_at q (index + i) acc else ret acc)"

function FindClosest_loop :: "sqlite \<Rightarrow> int \<Rightarrow> int \<Rightarrow> int \<Rightarrow> entry option list
    \<Rightarrow> (netdb, entry option list) proc" where
  "FindClosest_loop q bits index i acc s =
     (if (index - i \<ge> 0 \<or> index + i \<le> bits) \<and> length acc < BucketSize
      then
        (case FindClosest_round q bits index i acc s of
           (Ok acc', s') \<Rightarrow> FindClosest_loop q bits index (i + 1) acc' s'
         | (Err e, s') \<Rightarrow> (Err e, s')
         | (Panic, s') \<Rightarrow> (Panic, s'))
      else (Ok acc, s))"
  by pat_completeness auto
termination
  by (relation "measure (\<lambda>(q, bits, index, i, acc, s). nat (max index (bits - index) + 1 - i))") auto

declare FindClosest_loop.simps [simp del]

definition FindClosest :: "sqlite \<Rightarrow> address \<Rightarrow> (netdb, entry option list) proc" where
  "FindClosest q addr =
     bind (gets (\<lambda>s. self (rtab s))) (\<lambda>me.
     bind (lift_res (bucket_index me addr)) (\<lambda>index.
     bind (table_at index) (\<lambda>bucket.
       if snd bucket = BucketSize then queryAddresses q bucket
       else FindClosest_loop q (int (length (Raw addr)) * 8) index 0 [])))"

definition QueryLatest :: "(netdb, entry list) proc" where
  "QueryLatest =
     bind (on_conn sqlQueryLatest)
       (mapM (\<lambda>row. addSeedToEntry (entry_of_row row) (int (rid row))))"

definition SearchPeer :: "sqlite \<Rightarrow> string \<Rightarrow> string \<Rightarrow> int \<Rightarrow> (netdb, address list) proc" where
  "SearchPeer q name desc page =
     bind (on_conn (sqlSearchEntries q name desc page 25)) decode_all"

section \<open>The facade\<close>

text \<open>\<open>NewDHT\<close> inserts the latest entries again and ignores what \<open>Insert\<close> returns.\<close>

definition NewDHT_load :: "crypto \<Rightarrow> sqlite \<Rightarrow> (netdb, unit) proc" where
  "NewDHT_load C q =
     bind (attempt QueryLatest) (\<lambda>r.
       case r of
         Inl err \<Rightarrow> ret ()
       | Inr entries \<Rightarrow> forM entries (\<lambda>i. bind (attempt (Insert C q i)) (\<lambda>_. ret ())))"

definition NewDHT :: "crypto \<Rightarrow> sqlite \<Rightarrow> address \<Rightarrow> store \<Rightarrow> (string \<Rightarrow> address list list option)
    \<Rightarrow> netdb res" where
  "NewDHT C q addr db files =
     (case NewNetDB addr db files of
        Ok ndb \<Rightarrow> (case NewDHT_load C q ndb of (Ok _, s) \<Rightarrow> Ok s | (Err e, s) \<Rightarrow> Err e | (Panic, s) \<Rightarrow> Panic)
      | _ \<Rightarrow> Panic)"

definition DHT_Address :: "netdb \<Rightarrow> address" where
  "DHT_Address s = self (rtab s)"

definition DHT_Insert :: "crypto \<Rightarrow> sqlite \<Rightarrow> entry \<Rightarrow> (netdb, nat) proc" where
  "DHT_Insert = Insert"

definition DHT_Query :: "sqlite \<Rightarrow> address \<Rightarrow> (netdb, entry option) proc" where
  "DHT_Query q addr = bind (Query q addr) (\<lambda>(entry, _). ret entry)"

definition DHT_FindClosest :: "sqlite \<Rightarrow> address \<Rightarrow> (netdb, entry option list) proc" where
  "DHT_FindClosest = FindClosest"

definition DHT_SearchEntries :: "sqlite \<Rightarrow> string \<Rightarrow> string \<Rightarrow> int \<Rightarrow> (netdb, address list) proc" where
  "DHT_SearchEntries = SearchPeer"

end
