(* ===== verification/NetDB_Inv.thy ===== *)
theory NetDB_Inv
  imports NetDB
begin

text \<open>
  The invariant of the network database and its preservation by every operation, under any script
  of driver failures: the routing table satisfies \<open>rt_inv\<close>, the SQL tables \<open>store_inv\<close>, and the saved
  table is one that can be loaded.
\<close>

section \<open>Invariant\<close>

definition saved_ok :: "address \<Rightarrow> address list list \<Rightarrow> bool" where
  "saved_ok me bs \<longleftrightarrow>
     length bs = AddressBinarySize * 8 \<and> (\<forall>i<length bs. bucket_ok me i (bs ! i))"

definition ndb_inv :: "netdb \<Rightarrow> bool" where
  "ndb_inv s \<longleftrightarrow>
     rt_inv (rtab s) \<and> store_inv (conn s) \<and>
     (\<forall>p bs. disk s p = Some bs \<longrightarrow> saved_ok (self (rtab s)) bs)"

lemma ndb_invD: "ndb_inv s \<Longrightarrow> rt_inv (rtab s)" "ndb_inv s \<Longrightarrow> store_inv (conn s)"
  by (simp_all add: ndb_inv_def)

lemma on_conn_inv [proc_intros]: "preserves store_inv m \<Longrightarrow> preserves ndb_inv (on_conn m)"
  by (rule preserves_zoom [where J = store_inv]) (auto simp: ndb_inv_def)

lemma rt_inv_saved_ok: "rt_inv t \<Longrightarrow> saved_ok (self t) (buckets t)"
  by (simp add: rt_inv_def saved_ok_def)

lemma SaveTable_inv [proc_intros]: "preserves ndb_inv (SaveTable p)"
  unfolding SaveTable_def
  by (intro proc_intros) (auto simp: ndb_inv_def rt_inv_saved_ok split: if_splits)

lemma load_table_inv:
  assumes "rt_inv t" "saved_ok (self t) bs"
  shows "rt_inv (load_table bs t)"
proof -
  have b: "buckets (load_table bs t) = bs"
    by (rule nth_equalityI) (simp_all add: load_table_def buckets_def slice_elems_def)
  moreover have "refs_ok (load_table bs t)"
    by (auto simp: refs_ok_def load_table_def list_all_iff comp_def)
  moreover have "length (table (load_table bs t)) = length bs" by (simp add: load_table_def)
  moreover have "self (load_table bs t) = self t" by (simp add: load_table_def)
  ultimately show ?thesis using assms by (simp add: rt_inv_def saved_ok_def)
qed

lemma LoadTable_inv [proc_intros]: "preserves ndb_inv (LoadTable p)"
  unfolding LoadTable_def
proof (intro proc_intros)
  fix s assume s: "ndb_inv s"
  have "self (load_table bs (rtab s)) = self (rtab s)" for bs by (simp add: load_table_def)
  with s show "ndb_inv (case disk s p of None \<Rightarrow> s | Some bs \<Rightarrow> s\<lparr>rtab := load_table bs (rtab s)\<rparr>)"
    by (auto simp: ndb_inv_def load_table_inv split: option.splits)
qed

lemma ndb_insertIntoTable_inv [proc_intros]: "preserves ndb_inv (ndb_insertIntoTable a)"
proof (rule preservesI)
  fix s assume s: "ndb_inv s"
  show "ndb_inv (snd (ndb_insertIntoTable a s))"
  proof (cases "insertIntoTable a (rtab s)")
    case (Ok t)
    from insertIntoTable_inv [OF ndb_invD(1) [OF s] Ok] s
    have "ndb_inv (s\<lparr>rtab := t\<rparr>)" by (auto simp: ndb_inv_def)
    then show ?thesis
      using SaveTable_inv Ok by (simp add: ndb_insertIntoTable_def preserves_def)
  qed (use s in \<open>simp_all add: ndb_insertIntoTable_def\<close>)
qed

section \<open>Preservation\<close>

lemma decode_all_inv [proc_intros]: "preserves I (decode_all xs)"
  unfolding decode_all_def by (intro proc_intros)

lemma querySeeds_inv [proc_intros]:
  "preserves ndb_inv (querySeeds i)" "preserves ndb_inv (querySeeding i)"
  unfolding querySeeds_def querySeeding_def by (intro proc_intros)+

lemma addSeedToEntry_inv [proc_intros]: "preserves ndb_inv (addSeedToEntry e i)"
  unfolding addSeedToEntry_def by (intro proc_intros)

lemma Query_inv [proc_intros]: "preserves ndb_inv (Query q a)"
  unfolding Query_def by (intro proc_intros)

lemma on_conn_run: "m (conn s) = (r, t) \<Longrightarrow> on_conn m s = (r, s\<lparr>conn := t\<rparr>)"
  by (simp add: zoom_def)

lemma sqlQueryIdByAddress_Ok:
  assumes "sqlQueryIdByAddress q key s = (Ok i, t)"
  shows "i \<in> rid ` set (entry_tbl s)" "entry_tbl t = entry_tbl s" "seed_tbl t = seed_tbl s"
    "store_inv s \<Longrightarrow> store_inv t"
proof -
  from assms obtain r where q: "sqlQueryAddress q key s = (Ok r, t)" and i: "i = rid r"
    unfolding sqlQueryIdByAddress_def by (auto elim!: bind_OkE simp: ret_def)
  from q obtain fs where
    "(case find (\<lambda>r. raddress r = affinity q key) (entry_tbl (s\<lparr>faults := fs\<rparr>)) of
        None \<Rightarrow> (Err ErrNoRows, s\<lparr>faults := fs\<rparr>) | Some r \<Rightarrow> (Ok r, s\<lparr>faults := fs\<rparr>)) = (Ok r, t)"
    unfolding sqlQueryAddress_def by (rule bind_sql_call_OkE)
  then have "find (\<lambda>r. raddress r = affinity q key) (entry_tbl s) = Some r" "t = s\<lparr>faults := fs\<rparr>"
    by (auto split: option.splits)
  then show "i \<in> rid ` set (entry_tbl s)" "entry_tbl t = entry_tbl s" "seed_tbl t = seed_tbl s"
    "store_inv s \<Longrightarrow> store_inv t"
    using i by (auto simp: find_Some_iff)
qed

lemma InsertSeed_inv [proc_intros]: "preserves ndb_inv (InsertSeed q a b)"
proof (rule preservesI)
  fix s assume s: "ndb_inv s"
  let ?i1 = "sqlQueryIdByAddress q (address_key a)" and ?i2 = "sqlQueryIdByAddress q (address_key b)"
  have eq: "InsertSeed q a b s =
      bind (on_conn ?i1) (\<lambda>entryId. bind (on_conn ?i2) (\<lambda>seedId. on_conn (sqlInsertSeed seedId entryId))) s"
    by (simp add: InsertSeed_def fst_Address_String attempt_def lift_res_def bind_def Let_def)
  have p: "preserves store_inv ?i1" "preserves store_inv ?i2" by (rule sqlQueries_inv)+
  obtain r1 t1 where r1: "?i1 (conn s) = (r1, t1)" by fastforce
  have t1: "store_inv t1" using preservesD [OF p(1) ndb_invD(2) [OF s] r1] .
  obtain r2 t2 where r2: "?i2 t1 = (r2, t2)" by fastforce
  have t2: "store_inv t2" using preservesD [OF p(2) t1 r2] .
  have upd: "store_inv t \<Longrightarrow> ndb_inv (s\<lparr>conn := t\<rparr>)" for t using s by (simp add: ndb_inv_def)
  show "ndb_inv (snd (InsertSeed q a b s))"
  proof (cases "(\<exists>i. r1 = Ok i) \<and> (\<exists>j. r2 = Ok j)")
    case True
    then obtain i j where ij: "r1 = Ok i" "r2 = Ok j" by blast
    from sqlQueryIdByAddress_Ok [of q "address_key a" "conn s" i t1]
      sqlQueryIdByAddress_Ok [of q "address_key b" t1 j t2] r1 r2 ij
    have "i \<in> rid ` set (entry_tbl t2)" "j \<in> rid ` set (entry_tbl t2)" by auto
    from sqlInsertSeed_inv [OF t2 this(2,1)] have "store_inv (snd (sqlInsertSeed j i t2))" .
    then show ?thesis
      using r1 r2 ij upd by (auto simp: eq bind_def zoom_def split: prod.splits)
  next
    case False
    then show ?thesis
      using r1 r2 t1 t2 upd
      by (cases r1; cases r2) (auto simp: eq bind_def zoom_def)
  qed
qed

lemma insertEntrySeeds_inv [proc_intros]: "preserves ndb_inv (insertEntrySeeds q e)"
  unfolding insertEntrySeeds_def by (intro proc_intros)

lemma insertIntoDB_inv [proc_intros]: "preserves ndb_inv (insertIntoDB q e)"
  unfolding insertIntoDB_def by (intro proc_intros)

lemma Update_inv [proc_intros]: "preserves ndb_inv (Update C q e)"
  unfolding Update_def by (intro proc_intros)

lemma Insert_inv [proc_intros]: "preserves ndb_inv (Insert C q e)"
  unfolding Insert_def by (intro proc_intros)

lemma QuerySeeds_inv [proc_intros]:
  "preserves ndb_inv (QuerySeeds q a)" "preserves ndb_inv (QuerySeeding q a)"
  unfolding QuerySeeds_def QuerySeeding_def by (intro proc_intros)+

lemma visit_bucket_inv [proc_intros]: "preserves ndb_inv (visit_bucket q lim arr ks acc)"
  by (induction ks arbitrary: acc) (auto intro!: proc_intros)

lemma table_at_inv [proc_intros]: "preserves I (table_at i)"
  by (simp add: preserves_def table_at_def)

lemma FindClosest_round_inv [proc_intros]: "preserves ndb_inv (FindClosest_round q bits index i acc)"
  unfolding FindClosest_round_def visit_at_def by (intro proc_intros)

lemma FindClosest_loop_inv [proc_intros]: "preserves ndb_inv (FindClosest_loop q bits index i acc)"
proof (rule preservesI)
  fix s assume "ndb_inv s"
  then show "ndb_inv (snd (FindClosest_loop q bits index i acc s))"
  proof (induction q bits index i acc s rule: FindClosest_loop.induct)
    case (1 q bits index i acc s)
    obtain r s' where r: "FindClosest_round q bits index i acc s = (r, s')" by fastforce
    from preservesD [OF FindClosest_round_inv "1.prems" r] have "ndb_inv s'" .
    with 1 r show ?case
      by (cases r) (auto simp: FindClosest_loop.simps [of q bits index i acc s])
  qed
qed

lemma FindClosest_inv [proc_intros]: "preserves ndb_inv (FindClosest q a)"
  unfolding FindClosest_def queryAddresses_def by (intro proc_intros)

lemma QueryLatest_inv [proc_intros]: "preserves ndb_inv QueryLatest"
  unfolding QueryLatest_def by (intro proc_intros)

lemma SearchPeer_inv [proc_intros]: "preserves ndb_inv (SearchPeer q n d p)"
  unfolding SearchPeer_def by (intro proc_intros)

lemma Len_inv [proc_intros]: "preserves ndb_inv Len"
  unfolding Len_def by (intro proc_intros)

lemma NewDHT_load_inv [proc_intros]: "preserves ndb_inv (NewDHT_load C q)"
  unfolding NewDHT_load_def by (intro proc_intros)

end
