(* ===== verification/NetDB_Query.thy ===== *)
theory NetDB_Query
  imports NetDB_Inv
begin

text \<open>
  What the operations of the network database compute when the driver does not fail: \<open>Query\<close> on a
  database whose stored addresses are genuine (printed forms of 20 byte addresses), \<open>Insert\<close> of new
  and of known entries, and the seed lists.
\<close>

section \<open>Column affinity\<close>

text \<open>
  A text is only converted when it is a numeric literal, and such a literal starts, after white
  space, with a digit, a sign or a point.
\<close>

definition looks_numeric :: "string \<Rightarrow> bool" where
  "looks_numeric s =
     (case dropWhile (\<lambda>c. c \<in> {CHR '' '', CHR 0x09, CHR 0x0A, CHR 0x0B, CHR 0x0C, CHR 0x0D}) s of
        [] \<Rightarrow> False
      | c # _ \<Rightarrow> char_digit c \<noteq> None \<or> c \<in> {CHR ''+'', CHR ''-'', CHR ''.''})"

definition affinity_ok :: "sqlite \<Rightarrow> bool" where
  "affinity_ok q \<longleftrightarrow> (\<forall>s. \<not> looks_numeric s \<longrightarrow> affinity q s = s)"

lemma EncodeZif_not_numeric: "length raw = 20 \<Longrightarrow> \<not> looks_numeric (EncodeZif raw)"
  using EncodeZif_20(2) [of raw]
  by (cases "EncodeZif raw") (auto simp: looks_numeric_def char_digit_def)

lemma affinity_EncodeZif [simp]:
  "affinity_ok q \<Longrightarrow> length raw = 20 \<Longrightarrow> affinity q (EncodeZif raw) = EncodeZif raw"
  by (simp add: affinity_ok_def EncodeZif_not_numeric)

section \<open>Genuine databases\<close>

definition genuine_key :: "string \<Rightarrow> bool" where
  "genuine_key k \<longleftrightarrow> (case Decode k of Ok raw \<Rightarrow> length raw = 20 \<and> EncodeZif raw = k | _ \<Rightarrow> False)"

definition genuine :: "store \<Rightarrow> bool" where
  "genuine s \<longleftrightarrow> list_all (\<lambda>r. genuine_key (raddress r)) (entry_tbl s)"

definition raw_of :: "string \<Rightarrow> bytes" where
  "raw_of k = (case Decode k of Ok raw \<Rightarrow> raw | _ \<Rightarrow> [])"

lemma genuine_keyE:
  assumes "genuine_key k"
  obtains raw where "k = EncodeZif raw" "length raw = 20" "raw_of k = raw"
  using assms by (auto simp: genuine_key_def raw_of_def split: res.splits)

lemma genuine_key_EncodeZif [simp]: "length raw = 20 \<Longrightarrow> genuine_key (EncodeZif raw)"
  by (simp add: genuine_key_def b58.dec_enc)

lemma raw_of_EncodeZif [simp]: "raw_of (EncodeZif raw) = raw"
  by (simp add: raw_of_def b58.dec_enc)

lemma DecodeAddress_genuine: "genuine_key k \<Longrightarrow> DecodeAddress k = Ok (peer_address (raw_of k))"
  by (auto elim!: genuine_keyE simp: peer_address_def)

lemma decode_all_genuine:
  "list_all genuine_key ks \<Longrightarrow> decode_all ks s = (Ok (map (\<lambda>k. peer_address (raw_of k)) ks), s)"
  unfolding decode_all_def
  by (induction ks) (auto simp: ret_def bind_def lift_res_def DecodeAddress_genuine)

lemma entry_addresses_genuine: "genuine s \<Longrightarrow> list_all genuine_key (entry_addresses s ids)"
  by (auto simp: genuine_def entry_addresses_def list_all_iff)

section \<open>Seed lists\<close>

definition seeds_of :: "store \<Rightarrow> int \<Rightarrow> bytes list" where
  "seeds_of s i =
     map raw_of (entry_addresses s (map sseed (filter (\<lambda>r. int (sfor r) = i) (seed_tbl s))))"

definition seeding_of :: "store \<Rightarrow> int \<Rightarrow> bytes list" where
  "seeding_of s i =
     map raw_of (entry_addresses s (map sfor (filter (\<lambda>r. int (sseed r) = i) (seed_tbl s))))"

lemma querySeeds_run:
  assumes "genuine (conn s)" "faults (conn s) = []"
  shows "querySeeds i s = (Ok (map peer_address (seeds_of (conn s) i)), s)"
    "querySeeding i s = (Ok (map peer_address (seeding_of (conn s) i)), s)"
  using assms
  by (simp_all add: querySeeds_def querySeeding_def sqlQuerySeeds_def sqlQuerySeeding_def bind_def
      zoom_def gets_def decode_all_genuine entry_addresses_genuine seeds_of_def seeding_of_def comp_def)

lemma addSeedToEntry_run:
  assumes "genuine (conn s)" "faults (conn s) = []"
  shows "addSeedToEntry e i s =
    (Ok (e\<lparr>Seeds := seeds_of (conn s) i, Seeding := seeding_of (conn s) i\<rparr>), s)"
  using querySeeds_run [OF assms]
  by (simp add: addSeedToEntry_def bind_def ret_def comp_def peer_address_def)

section \<open>Query\<close>

text \<open>The state after the routing table has been updated and saved.\<close>

definition touched :: "netdb \<Rightarrow> rtable \<Rightarrow> netdb" where
  "touched s t = s\<lparr>rtab := t, disk := (disk s)(''./data/table.dat'' := Some (buckets t))\<rparr>"

lemma conn_touched [simp]: "conn (touched s t) = conn s" "rtab (touched s t) = t"
  by (simp_all add: touched_def)

lemma ndb_insertIntoTable_run:
  "insertIntoTable a (rtab s) = Ok t \<Longrightarrow> ndb_insertIntoTable a s = (Ok (), touched s t)"
  by (simp add: ndb_insertIntoTable_def SaveTable_def modify_def touched_def)

lemma insertIntoTable_20:
  assumes "rt_inv t" "length (Raw a) = 20"
  obtains t' where "insertIntoTable a t = Ok t'"
proof -
  have me: "length (Raw (self t)) = 20" using assms(1) by (simp add: rt_inv_def AddressBinarySize_def)
  have ne: "Raw a \<noteq> []" using assms(2) by auto
  from bucket_index_range [OF me ne] assms(2) obtain i where
    i: "bucket_index (self t) a = Ok (int i)" "i < 160" by auto
  from insertIntoTable_refines [OF assms(1) i] that show ?thesis by metis
qed

definition stored_entry :: "store \<Rightarrow> entry_row \<Rightarrow> entry" where
  "stored_entry s r = (entry_of_row r)\<lparr>Address := peer_address (raw_of (raddress r)),
     Seeds := seeds_of s (int (rid r)), Seeding := seeding_of s (int (rid r))\<rparr>"

lemma Query_None:
  assumes "faults (conn s) = []" "row_of q (conn s) (address_key a) = None"
  shows "Query q a s = (Ok (None, - 1), s)"
  using assms
  by (simp add: Query_def fst_Address_String lift_res_def bind_def attempt_def zoom_def
      sqlQueryAddress_eq ret_def)

lemma Query_Some:
  assumes inv: "ndb_inv s" and nf: "faults (conn s) = []" and gen: "genuine (conn s)"
    and row: "row_of q (conn s) (address_key a) = Some r"
  obtains t where "insertIntoTable (peer_address (raw_of (raddress r))) (rtab s) = Ok t"
    "Query q a s = (Ok (Some (stored_entry (conn s) r), int (rid r)), touched s t)"
proof -
  have "genuine_key (raddress r)"
    using gen row_of_SomeD [OF row] by (auto simp: genuine_def list_all_iff)
  then obtain raw where raw: "raddress r = EncodeZif raw" "length raw = 20" "raw_of (raddress r) = raw"
    by (rule genuine_keyE)
  let ?a = "peer_address (raw_of (raddress r))"
  obtain t where t: "insertIntoTable ?a (rtab s) = Ok t"
    using insertIntoTable_20 [OF ndb_invD(1) [OF inv], of ?a] raw by (auto simp: peer_address_def)
  have "DecodeAddress (raddress r) = Ok ?a" using raw by (simp add: peer_address_def)
  then have "Query q a s = (Ok (Some (stored_entry (conn s) r), int (rid r)), touched s t)"
    using nf row ndb_insertIntoTable_run [OF t]
    by (simp add: Query_def fst_Address_String lift_res_def bind_def attempt_def zoom_def
        sqlQueryAddress_eq addSeedToEntry_run [OF gen nf] stored_entry_def ret_def peer_address_def)
  with t show ?thesis by (rule that)
qed

section \<open>Insert\<close>

lemma Update_run:
  assumes inv: "ndb_inv s" and nf: "faults (conn s) = []"
    and e: "entry_valid C e" "\<not> bad_args e"
  shows "Update C q e s =
    (case row_of q (conn s) (address_key (Address e)) of
       None \<Rightarrow> (Ok 0, s)
     | Some r \<Rightarrow> (Ok 1, s\<lparr>conn := (conn s)\<lparr>entry_tbl :=
         map (\<lambda>r'. if r' = r then set_columns q e r else r') (entry_tbl (conn s))\<rparr>\<rparr>))"
proof -
  have "Entry_Verify C (Some e) = Ok ()" using e(1) by (simp add: Entry_Verify_iff)
  moreover have "PublicKey e \<noteq> []" using e(1) by (auto simp: entry_valid_def)
  note sqlUpdateEntry_eq [OF ndb_invD(2) [OF inv] nf e(2) this, of q "address_key (Address e)"]
  ultimately show ?thesis
    by (simp add: Update_def fst_Address_String bind_def attempt_def lift_res_def zoom_def ret_def
        split: option.splits)
qed

text \<open>A known address: one row is updated, and nothing else happens to the SQL tables.\<close>

lemma Insert_known:
  assumes inv: "ndb_inv s" and nf: "faults (conn s) = []"
    and e: "entry_valid C e" "\<not> bad_args e"
    and row: "row_of q (conn s) (address_key (Address e)) = Some r"
  obtains t where "insertIntoTable (Address e) (rtab s) = Ok t"
    "Insert C q e s = (Ok 1, (touched s t)\<lparr>conn := (conn s)\<lparr>entry_tbl :=
         map (\<lambda>r'. if r' = r then set_columns q e r else r') (entry_tbl (conn s))\<rparr>\<rparr>)"
proof -
  have v: "Entry_Verify C (Some e) = Ok ()" using e(1) by (simp add: Entry_Verify_iff)
  obtain t where t: "insertIntoTable (Address e) (rtab s) = Ok t"
    using insertIntoTable_20 [OF ndb_invD(1) [OF inv]] e(1) by (auto simp: entry_valid_def)
  have "ndb_inv (touched s t)"
    using preservesD [OF ndb_insertIntoTable_inv inv ndb_insertIntoTable_run [OF t]] .
  from Update_run [OF this _ e] row nf
  have "Update C q e (touched s t) = (Ok 1, (touched s t)\<lparr>conn := (conn s)\<lparr>entry_tbl :=
         map (\<lambda>r'. if r' = r then set_columns q e r else r') (entry_tbl (conn s))\<rparr>\<rparr>)" by simp
  with v t have "Insert C q e s = (Ok 1, (touched s t)\<lparr>conn := (conn s)\<lparr>entry_tbl :=
         map (\<lambda>r'. if r' = r then set_columns q e r else r') (entry_tbl (conn s))\<rparr>\<rparr>)"
    by (simp add: Insert_def bind_def lift_res_def ndb_insertIntoTable_run ret_def)
  with t show ?thesis by (rule that)
qed

text \<open>A new address: a row is appended and indexed, then the seeds are registered.\<close>

definition with_row :: "sqlite \<Rightarrow> entry \<Rightarrow> store \<Rightarrow> store" where
  "with_row q e s =
     (let i = Suc (length (entry_tbl s))
      in snd (sqlInsertFtsEntry i (Name e) (Desc e)
           (s\<lparr>entry_tbl := entry_tbl s @ [new_row q i (address_key (Address e)) e], last_rowid := i\<rparr>)))"

lemma with_row_fields:
  assumes "faults s = []"
  shows "entry_tbl (with_row q e s) =
      entry_tbl s @ [new_row q (Suc (length (entry_tbl s))) (address_key (Address e)) e]"
    "seed_tbl (with_row q e s) = seed_tbl s" "faults (with_row q e s) = []"
  using assms by (simp_all add: with_row_def Let_def sqlInsertFtsEntry_def bind_def)

lemma Insert_new:
  assumes inv: "ndb_inv s" and nf: "faults (conn s) = []"
    and e: "entry_valid C e" "\<not> bad_args e"
    and row: "row_of q (conn s) (address_key (Address e)) = None"
  obtains t where "insertIntoTable (Address e) (rtab s) = Ok t"
    "Insert C q e s =
       bind (insertEntrySeeds q e) (\<lambda>_. ret 1) ((touched s t)\<lparr>conn := with_row q e (conn s)\<rparr>)"
proof -
  have v: "Entry_Verify C (Some e) = Ok ()" using e(1) by (simp add: Entry_Verify_iff)
  have pk: "PublicKey e \<noteq> []" using e(1) by (auto simp: entry_valid_def)
  obtain t where t: "insertIntoTable (Address e) (rtab s) = Ok t"
    using insertIntoTable_20 [OF ndb_invD(1) [OF inv]] e(1) by (auto simp: entry_valid_def)
  have it: "ndb_inv (touched s t)"
    using preservesD [OF ndb_insertIntoTable_inv inv ndb_insertIntoTable_run [OF t]] .
  from Update_run [OF this _ e] row nf have u: "Update C q e (touched s t) = (Ok 0, touched s t)"
    by simp
  have nr: "\<not> list_ex (\<lambda>r. raddress r = affinity q (address_key (Address e))) (entry_tbl (conn s))"
    using row by (auto simp: row_of_None_iff list_ex_iff)
  have "insertIntoDB q e (touched s t) = (Ok 1, (touched s t)\<lparr>conn := with_row q e (conn s)\<rparr>)"
    using nf pk nr e(2) next_rowid_inv [OF ndb_invD(2) [OF inv]]
    by (simp add: insertIntoDB_def fst_Address_String bind_def lift_res_def zoom_def sqlInsertEntry_def
        Let_def with_row_def sqlInsertFtsEntry_def ret_def)
  with v t u have "Insert C q e s =
      bind (insertEntrySeeds q e) (\<lambda>_. ret 1) ((touched s t)\<lparr>conn := with_row q e (conn s)\<rparr>)"
    by (simp add: Insert_def ndb_insertIntoTable_run bind_def [of "ndb_insertIntoTable _"] bind_def [of "lift_res _"]
        bind_def [of "Update _ _ _"] bind_def [of "insertIntoDB _ _"] lift_res_def)
  with t show ?thesis by (rule that)
qed

end
