(* ===== verification/Instances.thy ===== *)
theory Instances
  imports NetDB_Query
begin

text \<open>
  Concrete instances of the model's parameters, which satisfy the laws the theorems assume of them:
  a SQLite without affinity conversions and with exact matching as full text search, and an entry that
  passes verification. They are what
  the example applications of the theorems are made at.
\<close>

definition demo_sqlite :: sqlite where
  "demo_sqlite = \<lparr>affinity = (\<lambda>s. s),
     fts_docids = (\<lambda>tbl n d. Ok (map fst (filter (\<lambda>(_, name, desc). name = n \<or> desc = d) tbl)))\<rparr>"

lemma demo_affinity [simp]: "affinity demo_sqlite s = s" "affinity_ok demo_sqlite"
  by (simp_all add: demo_sqlite_def affinity_ok_def)

definition demo_raw :: "byte \<Rightarrow> bytes" where
  "demo_raw b = replicate 19 0 @ [b]"

lemma length_demo_raw [simp]: "length (demo_raw b) = 20"
  by (simp add: demo_raw_def)

lemma demo_raw_inj [simp]: "demo_raw a = demo_raw b \<longleftrightarrow> a = b"
  by (simp add: demo_raw_def)

definition demo_sk :: bytes where
  "demo_sk = replicate 64 7"

definition unsigned_entry :: "byte \<Rightarrow> string \<Rightarrow> entry" where
  "unsigned_entry b name = empty_entry\<lparr>Address := peer_address (demo_raw b), Name := name,
     PublicAddress := ''host'', PublicKey := drop 32 demo_sk, Port := 5050, Updated := 1\<rparr>"

definition demo_entry :: "byte \<Rightarrow> string \<Rightarrow> entry" where
  "demo_entry b name = (unsigned_entry b name)
     \<lparr>Signature := ed_sign demo_crypto demo_sk (to_bytes (signed_text (unsigned_entry b name)))\<rparr>"

lemma demo_entry_fields [simp]:
  "Address (demo_entry b name) = peer_address (demo_raw b)" "Name (demo_entry b name) = name"
  "Desc (demo_entry b name) = []" "PublicAddress (demo_entry b name) = ''host''"
  "Seeds (demo_entry b name) = []" "Seeding (demo_entry b name) = []"
  "Raw (Address (unsigned_entry b name)) = demo_raw b"
  by (simp_all add: demo_entry_def unsigned_entry_def empty_entry_def peer_address_def)

lemma demo_entry_valid [simp]:
  assumes "length name \<le> 32"
  shows "entry_valid demo_crypto (demo_entry b name)"
  unfolding demo_entry_def
  by (rule sign_entry_valid [OF demo_crypto_ok])
    (use assms in \<open>simp_all add: unsigned_entry_def empty_entry_def demo_sk_def PrivateKeySize_def peer_address_def\<close>)

lemma demo_entry_args [simp]: "\<not> bad_args (demo_entry b name)"
  by (simp add: bad_args_def demo_entry_def unsigned_entry_def)

lemma demo_not_numeric [simp]: "\<not> looks_numeric []" "\<not> looks_numeric ''host''" "\<not> looks_numeric ''a''"
  by (simp_all add: looks_numeric_def char_digit_def)

text \<open>A freshly created database of the peer with address \<open>demo_raw 0\<close>.\<close>

definition demo_me :: address where
  "demo_me = peer_address (demo_raw 0)"

definition demo_ndb :: netdb where
  "demo_ndb = \<lparr>rtab = new_table demo_me, conn = empty_store, disk = (\<lambda>_. None)\<rparr>"

lemma demo_ndb_inv [simp]: "ndb_inv demo_ndb"
  by (simp add: ndb_inv_def demo_ndb_def new_table_inv demo_me_def peer_address_def)

lemma demo_ndb_conn [simp]: "conn demo_ndb = empty_store" "faults empty_store = []"
  "genuine empty_store" "entry_tbl empty_store = []" "seed_tbl empty_store = []"
  by (simp_all add: demo_ndb_def empty_store_def genuine_def)

text \<open>A database that knows two peers.\<close>

definition demo_row :: "nat \<Rightarrow> byte \<Rightarrow> entry_row" where
  "demo_row i b = new_row demo_sqlite i (EncodeZif (demo_raw b)) (demo_entry b ''a'')"

definition demo_two :: netdb where
  "demo_two = demo_ndb\<lparr>conn := empty_store\<lparr>entry_tbl := [demo_row 1 5, demo_row 2 6]\<rparr>\<rparr>"

lemma demo_row_fields [simp]: "rid (demo_row i b) = i" "raddress (demo_row i b) = EncodeZif (demo_raw b)"
  by (simp_all add: demo_row_def)

lemma demo_two_conn [simp]:
  "faults (conn demo_two) = []" "genuine (conn demo_two)" "seed_tbl (conn demo_two) = []"
  "entry_tbl (conn demo_two) = [demo_row 1 5, demo_row 2 6]" "rtab demo_two = new_table demo_me"
  by (simp_all add: demo_two_def genuine_def demo_ndb_def empty_store_def)

lemma EncodeZif_demo [simp]: "EncodeZif (demo_raw a) = EncodeZif (demo_raw b) \<longleftrightarrow> a = b"
  using b58.enc_inj [of "demo_raw a" "demo_raw b"] by auto

lemma demo_two_inv [simp]: "ndb_inv demo_two"
proof -
  have "store_inv (conn demo_two)" by (simp add: store_inv_def upt_rec)
  then show ?thesis
    by (simp add: ndb_inv_def new_table_inv demo_me_def peer_address_def demo_two_def demo_ndb_def)
qed

lemma demo_two_row [simp]:
  "row_of demo_sqlite (conn demo_two) (EncodeZif (demo_raw b)) =
     (if b = 5 then Some (demo_row 1 5) else if b = 6 then Some (demo_row 2 6) else None)"
  by (auto simp: row_of_def)

end
