(* ===== verification/NetDB_Props.thy ===== *)
theory NetDB_Props
  imports Instances
begin

text \<open>
  The network database as a state machine, and its properties: what holds in every reachable state,
  what a query returns after an insertion, how seeds are recorded, and what \<open>FindClosest\<close> returns.
\<close>

section \<open>The state machine\<close>

text \<open>
  One step is one call of an operation, or the environment choosing when the driver will fail next,
  or a restart of the process on the same files.
\<close>

inductive ndb_step :: "crypto \<Rightarrow> sqlite \<Rightarrow> netdb \<Rightarrow> netdb \<Rightarrow> bool" for C q where
  "ndb_step C q s (snd (Insert C q e s))"
| "ndb_step C q s (snd (Update C q e s))"
| "ndb_step C q s (snd (InsertSeed q a b s))"
| "ndb_step C q s (snd (Query q a s))"
| "ndb_step C q s (snd (QuerySeeds q a s))"
| "ndb_step C q s (snd (QuerySeeding q a s))"
| "ndb_step C q s (snd (FindClosest q a s))"
| "ndb_step C q s (snd (QueryLatest s))"
| "ndb_step C q s (snd (SearchPeer q n d p s))"
| "ndb_step C q s (snd (Len s))"
| "ndb_step C q s (snd (SaveTable f s))"
| "ndb_step C q s (snd (LoadTable f s))"
| "ndb_step C q s (s\<lparr>conn := (conn s)\<lparr>faults := fs\<rparr>\<rparr>)"
| "NewDHT C q (self (rtab s)) (conn s) (disk s) = Ok s' \<Longrightarrow> ndb_step C q s s'"

inductive ndb_reach :: "crypto \<Rightarrow> sqlite \<Rightarrow> address \<Rightarrow> netdb \<Rightarrow> bool" for C q me where
  start: "NewDHT C q me (empty_store\<lparr>faults := fs\<rparr>) (\<lambda>_. None) = Ok s \<Longrightarrow> ndb_reach C q me s"
| step: "ndb_reach C q me s \<Longrightarrow> ndb_step C q s s' \<Longrightarrow> ndb_reach C q me s'"

lemma self_tables [simp]: "self (new_table me) = me" "self (load_table bs t) = self t"
  by (simp_all add: new_table_def load_table_def)

lemma self_insertIntoTable: "insertIntoTable a t = Ok t' \<Longrightarrow> self t' = self t"
  unfolding insertIntoTable_def
  by (auto simp: Let_def split: prod.splits option.splits if_splits)

lemma NewNetDB_inv:
  assumes "length (Raw me) = 20" "store_inv db" "\<forall>p bs. files p = Some bs \<longrightarrow> saved_ok me bs"
    "NewNetDB me db files = Ok s"
  shows "ndb_inv s" "rtab s = new_table me"
proof -
  let ?m = "forM (''open'' # netdb_setup_statements) (\<lambda>_. sql_call)"
  have p: "preserves store_inv ?m" by (intro proc_intros)
  obtain r db' where r: "?m db = (r, db')" by fastforce
  with assms(4) have s: "s = \<lparr>rtab = new_table me, conn = db', disk = files\<rparr>"
    by (cases r) (simp_all add: NewNetDB_def)
  then show "rtab s = new_table me" by simp
  from s preservesD [OF p assms(2) r] assms(1,3) show "ndb_inv s"
    by (simp add: ndb_inv_def new_table_inv)
qed

lemma NewDHT_inv:
  assumes "length (Raw me) = 20" "store_inv db" "\<forall>p bs. files p = Some bs \<longrightarrow> saved_ok me bs"
    "NewDHT C q me db files = Ok s"
  shows "ndb_inv s"
proof -
  obtain n where n: "NewNetDB me db files = Ok n"
    using assms(4) by (cases "NewNetDB me db files") (simp_all add: NewDHT_def)
  obtain r s' where r: "NewDHT_load C q n = (r, s')" by fastforce
  have "s' = s" using assms(4) n r by (cases r) (simp_all add: NewDHT_def)
  with preservesD [OF NewDHT_load_inv NewNetDB_inv(1) [OF assms(1-3) n] r] show ?thesis by simp
qed

lemma ndb_step_inv: "ndb_step C q s s' \<Longrightarrow> ndb_inv s \<Longrightarrow> ndb_inv s'"
proof (induction rule: ndb_step.induct)
  case (13 s fs)
  then show ?case by (simp add: ndb_inv_def)
next
  case (14 s s')
  then show ?case
    by (intro NewDHT_inv [of "self (rtab s)" "conn s" "disk s"])
      (auto simp: ndb_inv_def rt_inv_def AddressBinarySize_def)
qed (rule preserves_snd [of ndb_inv], (intro proc_intros)[1], assumption)+

text \<open>The states the database starts from.\<close>

definition ndb_start :: "crypto \<Rightarrow> sqlite \<Rightarrow> address \<Rightarrow> netdb \<Rightarrow> bool" where
  "ndb_start C q me s \<longleftrightarrow> (\<exists>fs. NewDHT C q me (empty_store\<lparr>faults := fs\<rparr>) (\<lambda>_. None) = Ok s)"

lemma ndb_reach_run: "ndb_reach C q me s \<Longrightarrow> \<exists>s0. ndb_start C q me s0 \<and> rtranclp (ndb_step C q) s0 s"
  by (induction rule: ndb_reach.induct) (auto simp: ndb_start_def intro: rtranclp.rtrancl_into_rtrancl)

interpretation ndb_sys: invariant_system "ndb_start C q me" "ndb_step C q" "ndb_reach C q me"
  "\<lambda>s. length (Raw me) = 20 \<longrightarrow> ndb_inv s" for C q me
proof unfold_locales
  fix s
  assume "ndb_start C q me s"
  then obtain fs where "NewDHT C q me (empty_store\<lparr>faults := fs\<rparr>) (\<lambda>_. None) = Ok s" by (auto simp: ndb_start_def)
  then show "length (Raw me) = 20 \<longrightarrow> ndb_inv s" by (auto intro!: NewDHT_inv [of me "empty_store\<lparr>faults := fs\<rparr>"])
qed (auto intro: ndb_reach_run ndb_step_inv)

lemmas ndb_reach_inv = ndb_sys.reach_inv [rule_format]

lemma foldl_snd: "foldl (\<lambda>sz (i :: slice_ref). sz + snd i) n xs = n + sum_list (map snd xs)"
  by (induction xs arbitrary: n) auto

lemma TableLen_bound:
  assumes "rt_inv t"
  shows "TableLen t \<le> 3200"
proof -
  have len: "length (table t) = 160" using assms by (simp add: rt_inv_def AddressBinarySize_def)
  have "snd r \<le> 20" if "r \<in> set (table t)" for r
  proof -
    obtain i arr n where i: "i < length (table t)" "table t ! i = (arr, n)" "r = (arr, n)"
      using \<open>r \<in> set (table t)\<close> by (metis in_set_conv_nth prod.collapse)
    have "refs_ok t" using assms by (simp add: rt_inv_def)
    from refs_ok_nth [OF this i(1,2)] have "length (buckets t ! i) = n"
      using i by (simp add: nth_buckets slice_elems_def)
    with assms i show ?thesis by (auto simp: rt_inv_def bucket_ok_def BucketSize_def)
  qed
  then have "sum_list (map snd (table t)) \<le> sum_list (map (\<lambda>_. 20) (table t))"
    by (intro sum_list_mono)
  then show ?thesis using len by (simp add: TableLen_def foldl_snd sum_list_const_mult map_replicate_const sum_list_replicate)
qed

section \<open>The local address never changes\<close>

abbreviation owned_by :: "address \<Rightarrow> netdb \<Rightarrow> bool" where
  "owned_by me \<equiv> (\<lambda>s. self (rtab s) = me)"

lemma on_conn_owned [proc_intros]: "preserves (owned_by me) (on_conn m)"
  by (auto simp: preserves_def zoom_def split: prod.splits)

lemma table_ops_owned [proc_intros]:
  "preserves (owned_by me) (SaveTable p)" "preserves (owned_by me) (LoadTable p)"
  "preserves (owned_by me) (ndb_insertIntoTable a)"
  by (auto simp: preserves_def SaveTable_def LoadTable_def ndb_insertIntoTable_def modify_def
      dest: self_insertIntoTable split: option.splits res.splits)

lemma query_ops_owned [proc_intros]:
  "preserves (owned_by me) (addSeedToEntry e i)" "preserves (owned_by me) (querySeeds i)"
  "preserves (owned_by me) (querySeeding i)"
  unfolding addSeedToEntry_def querySeeds_def querySeeding_def by (intro proc_intros)+

lemma Query_owned [proc_intros]: "preserves (owned_by me) (Query q a)"
  unfolding Query_def by (intro proc_intros)

lemma update_ops_owned [proc_intros]:
  "preserves (owned_by me) (InsertSeed q a b)" "preserves (owned_by me) (insertIntoDB q e)"
  "preserves (owned_by me) (Update C q e)"
  unfolding InsertSeed_def insertIntoDB_def Update_def Let_def by (intro proc_intros)+

lemma Insert_owned [proc_intros]: "preserves (owned_by me) (Insert C q e)"
  unfolding Insert_def insertEntrySeeds_def by (intro proc_intros)

lemma visit_bucket_owned [proc_intros]: "preserves (owned_by me) (visit_bucket q lim arr ks acc)"
  by (induction ks arbitrary: acc) (auto intro!: proc_intros)

lemma FindClosest_loop_owned [proc_intros]: "preserves (owned_by me) (FindClosest_loop q bits index i acc)"
proof (rule preservesI)
  fix s assume "owned_by me s"
  then show "owned_by me (snd (FindClosest_loop q bits index i acc s))"
  proof (induction q bits index i acc s rule: FindClosest_loop.induct)
    case (1 q bits index i acc s)
    have "preserves (owned_by me) (FindClosest_round q bits index i acc)"
      unfolding FindClosest_round_def visit_at_def by (intro proc_intros)
    moreover obtain r s' where r: "FindClosest_round q bits index i acc s = (r, s')" by fastforce
    ultimately have "owned_by me s'" using "1.prems" by (auto dest: preservesD)
    with 1 r show ?case
      by (cases r) (auto simp: FindClosest_loop.simps [of q bits index i acc s])
  qed
qed

lemma read_ops_owned [proc_intros]:
  "preserves (owned_by me) (FindClosest q a)" "preserves (owned_by me) (QuerySeeds q a)"
  "preserves (owned_by me) (QuerySeeding q a)" "preserves (owned_by me) QueryLatest"
  "preserves (owned_by me) (SearchPeer q n d p)" "preserves (owned_by me) Len"
  unfolding FindClosest_def queryAddresses_def QuerySeeds_def QuerySeeding_def QueryLatest_def
    SearchPeer_def Len_def
  by (intro proc_intros)+

lemma NewDHT_owned: "NewDHT C q me db files = Ok s \<Longrightarrow> self (rtab s) = me"
proof -
  assume s: "NewDHT C q me db files = Ok s"
  have p: "preserves (owned_by me) (NewDHT_load C q)" unfolding NewDHT_load_def by (intro proc_intros)
  obtain n where n: "NewNetDB me db files = Ok n"
    using s by (cases "NewNetDB me db files") (simp_all add: NewDHT_def)
  then have "self (rtab n) = me" by (auto simp: NewNetDB_def split: prod.splits res.splits)
  moreover obtain r s' where r: "NewDHT_load C q n = (r, s')" by fastforce
  moreover have "s' = s" using s n r by (cases r) (simp_all add: NewDHT_def)
  ultimately show "self (rtab s) = me" using preservesD [OF p _ r] by simp
qed

lemma ndb_step_owned: "ndb_step C q s s' \<Longrightarrow> self (rtab s') = self (rtab s)"
proof (induction rule: ndb_step.induct)
  case (14 s s')
  then show ?case by (rule NewDHT_owned)
next
  case (13 s fs)
  then show ?case by simp
qed (rule preserves_snd [of "owned_by _"], (intro proc_intros)[1], rule refl)+

interpretation ndb_owner: invariant_system "ndb_start C q me" "ndb_step C q" "ndb_reach C q me" "\<lambda>s. self (rtab s) = me" for C q me
  by unfold_locales (auto intro: ndb_reach_run simp: ndb_start_def NewDHT_owned ndb_step_owned)

section \<open>Frames\<close>

lemma InsertSeed_frame [proc_intros]:
  "preserves (\<lambda>s. entry_tbl (conn s) = X \<and> fts_tbl (conn s) = F \<and> faults (conn s) = [] \<and> rtab s = T \<and> disk s = D)
     (InsertSeed q a b)"
  by (rule preservesI)
    (auto simp: InsertSeed_def fst_Address_String attempt_def lift_res_def bind_def Let_def zoom_def
      sqlQueryIdByAddress_def sqlQueryAddress_eq ret_def sqlInsertSeed_def split: option.splits)

lemma insertEntrySeeds_frame:
  "preserves (\<lambda>s. entry_tbl (conn s) = X \<and> fts_tbl (conn s) = F \<and> faults (conn s) = [] \<and> rtab s = T \<and> disk s = D)
     (insertEntrySeeds q e)"
  unfolding insertEntrySeeds_def by (intro proc_intros)

lemma InsertSeed_run:
  assumes "faults (conn s) = []"
  shows "InsertSeed q a b s =
    (case (row_of q (conn s) (address_key a), row_of q (conn s) (address_key b)) of
       (Some ra, Some rb) \<Rightarrow> (Ok (), s\<lparr>conn := snd (sqlInsertSeed (rid rb) (rid ra) (conn s))\<rparr>)
     | _ \<Rightarrow> (Err ErrNoRows, s))"
  using assms
  by (auto simp: InsertSeed_def fst_Address_String attempt_def lift_res_def bind_def Let_def zoom_def
      sqlQueryIdByAddress_def sqlQueryAddress_eq ret_def sqlInsertSeed_def split: option.splits)

section \<open>After an insertion\<close>

text \<open>The row that stands for an entry after \<open>Insert\<close>, and that everything else about the state is as before.\<close>

definition row_matches :: "sqlite \<Rightarrow> entry \<Rightarrow> entry_row \<Rightarrow> bool" where
  "row_matches q e r \<longleftrightarrow> set_columns q e r = r \<and> raddress r = affinity q (address_key (Address e))"

lemma set_columns_idem [simp]: "set_columns q e (set_columns q e r) = set_columns q e r"
  by (simp add: set_columns_def)

lemma genuine_map:
  "(\<And>r. raddress (f r) = raddress r) \<Longrightarrow> genuine s \<Longrightarrow> genuine (s\<lparr>entry_tbl := map f (entry_tbl s)\<rparr>)"
  by (simp add: genuine_def list_all_iff)

lemma Insert_row:
  assumes inv: "ndb_inv s" and nf: "faults (conn s) = []" and gen: "genuine (conn s)"
    and aff: "affinity_ok q" and e: "entry_valid C e" "\<not> bad_args e" and wf: "address_wf (Address e)"
    and ok: "Insert C q e s = (Ok n, s')"
  obtains r where "row_of q (conn s') (address_key (Address e)) = Some r" "row_matches q e r"
    "faults (conn s') = []" "genuine (conn s')" "ndb_inv s'"
proof -
  let ?k = "address_key (Address e)"
  have raw: "length (Raw (Address e)) = 20" using e(1) by (simp add: entry_valid_def)
  have inv': "ndb_inv s'" using preservesD [OF Insert_inv inv ok] .
  show ?thesis
  proof (cases "row_of q (conn s) ?k")
    case (Some r)
    let ?f = "\<lambda>r'. if r' = r then set_columns q e r else r'"
    obtain t where "Insert C q e s = (Ok 1, (touched s t)\<lparr>conn := (conn s)\<lparr>entry_tbl :=
        map ?f (entry_tbl (conn s))\<rparr>\<rparr>)" by (rule Insert_known [OF inv nf e Some])
    with ok have s': "conn s' = (conn s)\<lparr>entry_tbl := map ?f (entry_tbl (conn s))\<rparr>" by auto
    from row_of_SomeD [OF Some] have r: "r \<in> set (entry_tbl (conn s))" "raddress r = affinity q ?k" by auto
    have "set_columns q e r = ?f r" by simp
    then have "set_columns q e r \<in> set (entry_tbl (conn s'))" using r(1) by (simp add: s')
    then have "row_of q (conn s') ?k = Some (set_columns q e r)"
      using r(2) by (intro row_of_unique ndb_invD(2) [OF inv']) simp_all
    moreover have "genuine (conn s')" unfolding s' using gen by (intro genuine_map) auto
    ultimately show ?thesis
      using that inv' nf r by (simp add: s' row_matches_def)
  next
    case None
    let ?r = "new_row q (Suc (length (entry_tbl (conn s)))) ?k e"
    obtain t where "Insert C q e s =
        bind (insertEntrySeeds q e) (\<lambda>_. ret 1) ((touched s t)\<lparr>conn := with_row q e (conn s)\<rparr>)"
      by (rule Insert_new [OF inv nf e None])
    with ok have "bind (insertEntrySeeds q e) (\<lambda>_. ret 1)
        ((touched s t)\<lparr>conn := with_row q e (conn s)\<rparr>) = (Ok n, s')" by simp
    then have ies: "insertEntrySeeds q e ((touched s t)\<lparr>conn := with_row q e (conn s)\<rparr>) = (Ok (), s')"
      by (elim bind_OkE) (simp add: ret_def)
    from preservesD [OF insertEntrySeeds_frame _ this, of "entry_tbl (conn s) @ [?r]"
        "fts_tbl (with_row q e (conn s))" t "disk (touched s t)"] with_row_fields [OF nf, of q e]
    have s': "entry_tbl (conn s') = entry_tbl (conn s) @ [?r]" "faults (conn s') = []" by simp_all
    have "row_of q (conn s') ?k = Some ?r"
      by (intro row_of_unique ndb_invD(2) [OF inv']) (simp_all add: s')
    moreover have "genuine (conn s')"
      using gen aff raw wf by (simp add: genuine_def s')
    ultimately show ?thesis
      using that inv' s' by (simp add: row_matches_def new_row_def)
  qed
qed

lemma row_matches_entry:
  assumes "row_matches q e r" "\<not> bad_args e" "affinity_ok q"
    "\<not> looks_numeric (Name e)" "\<not> looks_numeric (Desc e)" "\<not> looks_numeric (PublicAddress e)"
  shows "entry_of_row r = e\<lparr>Address := empty_address, Seeds := [], Seeding := [], distance := empty_address\<rparr>"
proof -
  have "r = set_columns q e r" using assms(1) by (simp add: row_matches_def)
  then have "entry_of_row r = entry_of_row (set_columns q e r)" by simp
  also have "\<dots> = e\<lparr>Address := empty_address, Seeds := [], Seeding := [], distance := empty_address\<rparr>"
    using assms(3-6) by (simp add: entry_of_row_def set_columns_def empty_entry_def affinity_ok_def)
  finally show ?thesis .
qed

section \<open>Seeds\<close>

lemma find_snoc: "find P (xs @ [x]) = (case find P xs of None \<Rightarrow> if P x then Some x else None | Some y \<Rightarrow> Some y)"
  by (induction xs) auto

lemma sqlInsertSeed_row:
  assumes "faults c = []"
  shows "\<exists>r\<in>set (seed_tbl (snd (sqlInsertSeed i j c))). sseed r = i \<and> sfor r = j"
    "entry_tbl (snd (sqlInsertSeed i j c)) = entry_tbl c" "faults (snd (sqlInsertSeed i j c)) = []"
  using assms by (auto simp: sqlInsertSeed_def bind_def Let_def list_ex_iff)

lemma seeds_of_mem:
  assumes "r \<in> set (seed_tbl c)" "x \<in> set (entry_tbl c)" "rid x = sseed r"
  shows "raw_of (raddress x) \<in> set (seeds_of c (int (sfor r)))"
  using assms by (fastforce simp: seeds_of_def entry_addresses_def)

lemma seeding_of_mem:
  assumes "r \<in> set (seed_tbl c)" "x \<in> set (entry_tbl c)" "rid x = sfor r"
  shows "raw_of (raddress x) \<in> set (seeding_of c (int (sseed r)))"
  using assms by (fastforce simp: seeding_of_def entry_addresses_def)

lemma QuerySeeds_run:
  assumes "ndb_inv s" "faults (conn s) = []" "genuine (conn s)"
    "row_of q (conn s) (address_key a) = Some r"
  obtains t where "QuerySeeds q a s = (Ok (map peer_address (seeds_of (conn s) (int (rid r)))), touched s t)"
    "QuerySeeding q a s = (Ok (map peer_address (seeding_of (conn s) (int (rid r)))), touched s t)"
proof -
  obtain t where "Query q a s = (Ok (Some (stored_entry (conn s) r), int (rid r)), touched s t)"
    by (rule Query_Some [OF assms])
  with querySeeds_run [of "touched s t"] assms(2,3) show ?thesis
    by (intro that [of t]) (simp_all add: QuerySeeds_def QuerySeeding_def bind_run)
qed

section \<open>Starting\<close>

text \<open>The entries \<open>QueryLatest\<close> returns have no address, so \<open>Insert\<close> refuses each of them at its first check.\<close>

lemma Address_addSeedToEntry: "addSeedToEntry e i s = (Ok e', s') \<Longrightarrow> Address e' = Address e"
  unfolding addSeedToEntry_def by (auto elim!: bind_OkE simp: ret_def)

lemma mapM_Ok_all:
  "mapM f xs s = (Ok ys, s') \<Longrightarrow> (\<And>x s y s'. f x s = (Ok y, s') \<Longrightarrow> P y) \<Longrightarrow> list_all P ys"
  by (induction xs arbitrary: s ys) (auto elim!: bind_OkE simp: ret_def)

lemma QueryLatest_no_address: "QueryLatest s = (Ok es, s') \<Longrightarrow> list_all (\<lambda>e. Raw (Address e) = []) es"
  unfolding QueryLatest_def
  by (auto elim!: bind_OkE mapM_Ok_all dest: Address_addSeedToEntry
      simp: entry_of_row_def empty_entry_def empty_address_def)

lemma Insert_bad_address:
  "Raw (Address e) = [] \<Longrightarrow> Insert C q e s = (Err (ErrNew ''Address size invalid''), s)"
  by (simp add: Insert_def Entry_Verify_def bind_def lift_res_def)

lemma forM_Insert_bad:
  "list_all (\<lambda>e. Raw (Address e) = []) es \<Longrightarrow>
   forM es (\<lambda>i. bind (attempt (Insert C q i)) (\<lambda>_. ret ())) s = (Ok (), s)"
  by (induction es) (auto simp: ret_def bind_def attempt_def Insert_bad_address)

lemma rtab_frame: "preserves (\<lambda>s. rtab s = t) (on_conn m)"
  by (auto simp: preserves_def zoom_def split: prod.splits)

lemma QueryLatest_rtab: "preserves (\<lambda>s. rtab s = t) QueryLatest"
  unfolding QueryLatest_def addSeedToEntry_def querySeeds_def querySeeding_def decode_all_def
  by (intro rtab_frame preserves_bind preserves_mapM preserves_basic)

lemma NewDHT_load_rtab: "rtab (snd (NewDHT_load C q s)) = rtab s"
proof -
  obtain r s' where r: "QueryLatest s = (r, s')" by fastforce
  have t: "rtab s' = rtab s" using preservesD [OF QueryLatest_rtab refl r] .
  show ?thesis
  proof (cases r)
    case (Ok es)
    with r forM_Insert_bad [OF QueryLatest_no_address, of s es s' C q s'] t show ?thesis
      by (simp add: NewDHT_load_def bind_def attempt_def)
  qed (use r t in \<open>simp_all add: NewDHT_load_def bind_def attempt_def ret_def\<close>)
qed

section \<open>An example run\<close>

lemma demo_insert_ok:
  obtains s' where "Insert demo_crypto demo_sqlite (demo_entry b ''a'') demo_ndb = (Ok 1, s')"
    "entry_tbl (conn s') = [new_row demo_sqlite 1 (EncodeZif (demo_raw b)) (demo_entry b ''a'')]"
    "seed_tbl (conn s') = []" "faults (conn s') = []"
proof -
  let ?e = "demo_entry b ''a''"
  have v: "entry_valid demo_crypto ?e" by simp
  have row: "row_of demo_sqlite (conn demo_ndb) (address_key (Address ?e)) = None"
    by (simp add: row_of_def)
  have nf: "faults (conn demo_ndb) = []" by simp
  obtain t where "Insert demo_crypto demo_sqlite ?e demo_ndb =
      bind (insertEntrySeeds demo_sqlite ?e) (\<lambda>_. ret 1)
        ((touched demo_ndb t)\<lparr>conn := with_row demo_sqlite ?e (conn demo_ndb)\<rparr>)"
    by (rule Insert_new [OF demo_ndb_inv nf v demo_entry_args row])
  then have run: "Insert demo_crypto demo_sqlite ?e demo_ndb =
      (Ok 1, (touched demo_ndb t)\<lparr>conn := with_row demo_sqlite ?e empty_store\<rparr>)"
    by (simp add: insertEntrySeeds_def) (simp add: ret_def)
  show ?thesis
    by (rule that [OF run]) (use with_row_fields [of empty_store demo_sqlite ?e] in \<open>simp_all add: peer_address_def\<close>)
qed

text \<open>What a query finds after an insertion.\<close>

lemma Insert_Query_run:
  assumes "ndb_inv s" "faults (conn s) = []" "genuine (conn s)" "affinity_ok q"
    and "address_wf (Address e)" "\<not> bad_args e"
    and "\<not> looks_numeric (Name e)" "\<not> looks_numeric (Desc e)" "\<not> looks_numeric (PublicAddress e)"
    and ok: "Insert C q e s = (Ok n, s')" and a: "Raw a = Raw (Address e)" "address_wf a"
  obtains r t where "row_of q (conn s') (address_key a) = Some r" "ndb_inv s'" "faults (conn s') = []" "genuine (conn s')"
    "Query q a s' = (Ok (Some (e\<lparr>Address := peer_address (Raw (Address e)), Seeds := seeds_of (conn s') (int (rid r)),
       Seeding := seeding_of (conn s') (int (rid r)), distance := empty_address\<rparr>), int (rid r)), touched s' t)"
proof -
  have v: "entry_valid C e"
    using ok unfolding Insert_def by (auto elim!: bind_OkE simp: lift_res_def Entry_Verify_iff)
  obtain r where
    r: "row_of q (conn s') (address_key (Address e)) = Some r" "row_matches q e r"
    and s': "faults (conn s') = []" "genuine (conn s')" "ndb_inv s'"
    by (rule Insert_row [OF assms(1-4) v assms(6,5) ok])
  have k: "address_key a = address_key (Address e)" using a assms(5) by simp
  have "raw_of (raddress r) = Raw (Address e)"
    using r(2) assms(4,5) v by (simp add: row_matches_def entry_valid_def)
  then have "stored_entry (conn s') r = e\<lparr>Address := peer_address (Raw (Address e)),
      Seeds := seeds_of (conn s') (int (rid r)), Seeding := seeding_of (conn s') (int (rid r)),
      distance := empty_address\<rparr>"
    using row_matches_entry [OF r(2) assms(6,4,7-9)] by (simp add: stored_entry_def)
  moreover have "row_of q (conn s') (address_key a) = Some r" using r(1) k by simp
  then obtain t where
    "Query q a s' = (Ok (Some (stored_entry (conn s') r), int (rid r)), touched s' t)"
    by (rule Query_Some [OF s'(3,1,2)])
  ultimately show ?thesis using r(1) k s' that by metis
qed

lemma Insert_known_row:
  assumes "ndb_inv s" "faults (conn s) = []" "entry_valid C e" "\<not> bad_args e"
    and "row_of q (conn s) (address_key (Address e)) = Some r"
  shows "\<exists>s'. Insert C q e s = (Ok 1, s') \<and> seed_tbl (conn s') = seed_tbl (conn s) \<and>
    row_of q (conn s') (address_key (Address e)) = Some (set_columns q e r)"
proof -
  obtain t where ok: "Insert C q e s = (Ok 1, (touched s t)\<lparr>conn := (conn s)\<lparr>entry_tbl :=
      map (\<lambda>r'. if r' = r then set_columns q e r else r') (entry_tbl (conn s))\<rparr>\<rparr>)"
    (is "_ = (_, ?s)") by (rule Insert_known [OF assms])
  from row_of_SomeD [OF assms(5)] have r: "r \<in> set (entry_tbl (conn s))"
    "raddress r = affinity q (address_key (Address e))" by auto
  have "set_columns q e r = (\<lambda>r'. if r' = r then set_columns q e r else r') r" by simp
  then have "set_columns q e r \<in> set (entry_tbl (conn ?s))" using r(1) by simp
  then have "row_of q (conn ?s) (address_key (Address e)) = Some (set_columns q e r)"
    using r(2) preservesD [OF Insert_inv assms(1) ok] by (intro row_of_unique ndb_invD(2)) simp_all
  with ok show ?thesis by (intro exI [of _ ?s]) simp
qed

section \<open>Properties\<close>



text \<open>C6: In every state the database can reach, through any sequence of operations, driver failures and restarts:
  each of the 160 buckets of the routing table holds at most 20 addresses, without duplicates, all at the
  distance the bucket stands for; the table has at most 3200 addresses; row ids are consecutive from 1, no two
  rows have the same address, no seed is recorded twice, and every seed row refers to two existing entries.\<close>

theorem ndb_reachable:
  assumes "ndb_reach C q me s" "length (Raw me) = 20"
  shows "length (buckets (rtab s)) = 160 \<and> TableLen (rtab s) \<le> 3200 \<and>
    (\<forall>i<160. length (buckets (rtab s) ! i) \<le> 20 \<and> distinct (map Raw (buckets (rtab s) ! i)) \<and>
       (\<forall>a\<in>set (buckets (rtab s) ! i). bucket_index me a = Ok (int i))) \<and>
    map rid (entry_tbl (conn s)) = [1..<Suc (length (entry_tbl (conn s)))] \<and>
    distinct (map raddress (entry_tbl (conn s))) \<and>
    distinct (map (\<lambda>r. (sseed r, sfor r)) (seed_tbl (conn s))) \<and>
    (\<forall>r\<in>set (seed_tbl (conn s)). {sseed r, sfor r} \<subseteq> rid ` set (entry_tbl (conn s)))"
proof -
  have inv: "ndb_inv s" by (rule ndb_reach_inv [OF assms])
  have me: "self (rtab s) = me" by (rule ndb_owner.reach_inv [OF assms(1)])
  from inv me have "length (buckets (rtab s)) = 160" and
    b: "\<forall>i<160. bucket_ok me i (buckets (rtab s) ! i)"
    by (auto simp: ndb_inv_def rt_inv_def AddressBinarySize_def)
  moreover have "TableLen (rtab s) \<le> 3200" by (rule TableLen_bound [OF ndb_invD(1) [OF inv]])
  moreover have "store_inv (conn s)" by (rule ndb_invD [OF inv])
  ultimately show ?thesis
    by (simp add: bucket_ok_def BucketSize_def list_all_iff store_inv_def del: upt_Suc)
qed

theorem ndb_reachable_witness:
  "\<exists>s. ndb_reach demo_crypto demo_sqlite demo_me s \<and> TableLen (rtab s) \<le> 3200 \<and>
     map raddress (entry_tbl (conn s)) = [EncodeZif (demo_raw 5)] \<and>
     distinct (map raddress (entry_tbl (conn s)))"
proof -
  have me: "length (Raw demo_me) = 20" by (simp add: demo_me_def peer_address_def)
  have "NewDHT demo_crypto demo_sqlite demo_me (empty_store\<lparr>faults := []\<rparr>) (\<lambda>_. None) = Ok demo_ndb"
    by (simp add: NewDHT_def NewNetDB_def netdb_setup_statements_def NewDHT_load_def bind_def ret_def
        sql_call_def empty_store_def QueryLatest_def zoom_def sqlQueryLatest_def gets_def attempt_def demo_ndb_def)
  then have r: "ndb_reach demo_crypto demo_sqlite demo_me demo_ndb" by (rule ndb_reach.start)
  obtain s' where s': "Insert demo_crypto demo_sqlite (demo_entry 5 ''a'') demo_ndb = (Ok 1, s')"
    "entry_tbl (conn s') = [new_row demo_sqlite 1 (EncodeZif (demo_raw 5)) (demo_entry 5 ''a'')]"
    by (rule demo_insert_ok)
  have "ndb_step demo_crypto demo_sqlite demo_ndb s'"
    using ndb_step.intros(1) [of demo_crypto demo_sqlite demo_ndb "demo_entry 5 ''a''"] s'(1) by simp
  from ndb_reach.step [OF r this] have "ndb_reach demo_crypto demo_sqlite demo_me s'" .
  with ndb_reachable [OF this me] s'(2) show ?thesis by (intro exI [of _ s']) simp
qed

text \<open>C30: \<open>InsertSeed\<close> records a seed so that it is found from both sides: after it has succeeded, the seeds of the
  entry include the seed, and the entries the seed is seeding include the entry.\<close>

theorem InsertSeed_then_query:
  assumes "ndb_inv s" "faults (conn s) = []" "genuine (conn s)" "affinity_ok q"
    and "address_wf a" "length (Raw a) = 20" "address_wf b" "length (Raw b) = 20"
    and ok: "InsertSeed q a b s = (Ok (), s')"
  shows "(\<exists>xs s''. QuerySeeds q a s' = (Ok xs, s'') \<and> peer_address (Raw b) \<in> set xs) \<and>
    (\<exists>xs s''. QuerySeeding q b s' = (Ok xs, s'') \<and> peer_address (Raw a) \<in> set xs)"
proof -
  obtain ra rb where r: "row_of q (conn s) (address_key a) = Some ra" "row_of q (conn s) (address_key b) = Some rb"
    and s': "s' = s\<lparr>conn := snd (sqlInsertSeed (rid rb) (rid ra) (conn s))\<rparr>"
    using ok by (auto simp: InsertSeed_run [OF assms(2)] split: option.splits)
  note row = sqlInsertSeed_row [OF assms(2), of "rid rb" "rid ra"]
  have inv': "ndb_inv s'" using preservesD [OF InsertSeed_inv assms(1) ok] .
  have c': "faults (conn s') = []" "genuine (conn s')"
    "row_of q (conn s') (address_key a) = Some ra" "row_of q (conn s') (address_key b) = Some rb"
    using r row(2,3) assms(3) by (auto simp: s' genuine_def row_of_def)
  obtain x where x: "x \<in> set (seed_tbl (conn s'))" "sseed x = rid rb" "sfor x = rid ra"
    using row(1) by (auto simp: s')
  have raws: "raw_of (raddress ra) = Raw a" "raw_of (raddress rb) = Raw b"
    and mem: "ra \<in> set (entry_tbl (conn s'))" "rb \<in> set (entry_tbl (conn s'))"
    using row_of_SomeD [OF c'(3)] row_of_SomeD [OF c'(4)] assms(4-8) by simp_all
  have "Raw b \<in> set (seeds_of (conn s') (int (rid ra)))" "Raw a \<in> set (seeding_of (conn s') (int (rid rb)))"
    using seeds_of_mem [OF x(1) mem(2)] seeding_of_mem [OF x(1) mem(1)] x(2,3) raws by simp_all
  moreover obtain t where
    "QuerySeeds q a s' = (Ok (map peer_address (seeds_of (conn s') (int (rid ra)))), touched s' t)"
    by (rule QuerySeeds_run [OF inv' c'(1,2,3)])
  moreover obtain t where
    "QuerySeeding q b s' = (Ok (map peer_address (seeding_of (conn s') (int (rid rb)))), touched s' t)"
    by (rule QuerySeeds_run [OF inv' c'(1,2,4)])
  ultimately show ?thesis by auto
qed

theorem InsertSeed_then_query_witness:
  "\<exists>s' xs s''. InsertSeed demo_sqlite (peer_address (demo_raw 5)) (peer_address (demo_raw 6)) demo_two = (Ok (), s') \<and>
     QuerySeeds demo_sqlite (peer_address (demo_raw 5)) s' = (Ok xs, s'') \<and>
     peer_address (demo_raw 6) \<in> set xs"
proof -
  let ?a = "peer_address (demo_raw 5)" and ?b = "peer_address (demo_raw 6)"
  have k: "address_key (peer_address (demo_raw b)) = EncodeZif (demo_raw b)" for b
    by (simp add: peer_address_def)
  obtain s' where s': "InsertSeed demo_sqlite ?a ?b demo_two = (Ok (), s')"
    using InsertSeed_run [of demo_two demo_sqlite ?a ?b] by (simp add: k)
  have "(\<exists>xs s''. QuerySeeds demo_sqlite ?a s' = (Ok xs, s'') \<and> peer_address (Raw ?b) \<in> set xs) \<and>
      (\<exists>xs s''. QuerySeeding demo_sqlite ?b s' = (Ok xs, s'') \<and> peer_address (Raw ?a) \<in> set xs)"
    by (rule InsertSeed_then_query [OF demo_two_inv _ _ _ _ _ _ _ s']) (simp_all add: peer_address_def)
  then show ?thesis using s' by (auto simp: peer_address_def)
qed

text \<open>Inserting an entry whose address is already known updates its row but never touches the seed table: the seeds
  and the seeding list the entry announces are dropped.\<close>

theorem Insert_known_drops_seeds:
  assumes "ndb_inv s" "faults (conn s) = []" "entry_valid C e" "\<not> bad_args e"
    and "row_of q (conn s) (address_key (Address e)) = Some r"
  shows "\<exists>s'. Insert C q e s = (Ok 1, s') \<and> seed_tbl (conn s') = seed_tbl (conn s) \<and>
    row_of q (conn s') (address_key (Address e)) = Some (set_columns q e r)"
  by (rule Insert_known_row [OF assms])

theorem Insert_known_drops_seeds_witness:
  "\<exists>e s'. Seeds e = [demo_raw 6] \<and> Insert demo_crypto demo_sqlite e demo_two = (Ok 1, s') \<and>
     seed_tbl (conn s') = []"
proof -
  let ?e = "(demo_entry 5 ''a'')\<lparr>Seeds := [demo_raw 6]\<rparr>"
  have v: "entry_valid demo_crypto ?e"
    using demo_entry_valid [of "''a''" 5] by (simp add: entry_valid_def)
  have k: "row_of demo_sqlite (conn demo_two) (address_key (Address ?e)) = Some (demo_row 1 5)"
    by (simp add: peer_address_def)
  have b: "\<not> bad_args ?e" using demo_entry_args [of 5 "''a''"] by (simp add: bad_args_def)
  have "\<exists>s'. Insert demo_crypto demo_sqlite ?e demo_two = (Ok 1, s') \<and>
      seed_tbl (conn s') = seed_tbl (conn demo_two) \<and>
      row_of demo_sqlite (conn s') (address_key (Address ?e)) = Some (set_columns demo_sqlite ?e (demo_row 1 5))"
    by (rule Insert_known_drops_seeds [OF demo_two_inv _ v b k]) simp
  then show ?thesis by (intro exI [of _ ?e]) auto
qed

text \<open>Inserting a new entry that names a seed which is not in the database returns \<open>sql.ErrNoRows\<close> although the
  entry has been stored: the error does not undo the insertion.\<close>

theorem Insert_unknown_seed:
  assumes "ndb_inv s" "faults (conn s) = []" "entry_valid C e" "\<not> bad_args e"
    and "row_of q (conn s) (address_key (Address e)) = None"
    and "Seeding e = []" "Seeds e = i # rest"
    and "affinity q (address_key (peer_address i)) \<noteq> affinity q (address_key (Address e))"
    and "row_of q (conn s) (address_key (peer_address i)) = None"
  shows "\<exists>s' r. Insert C q e s = (Err ErrNoRows, s') \<and>
    row_of q (conn s') (address_key (Address e)) = Some r \<and> rname r = affinity q (Name e)"
proof -
  let ?k = "address_key (Address e)" and ?i = "address_key (peer_address i)"
  obtain t where run: "Insert C q e s =
      bind (insertEntrySeeds q e) (\<lambda>_. ret 1) ((touched s t)\<lparr>conn := with_row q e (conn s)\<rparr>)"
    by (rule Insert_new [OF assms(1-5)])
  let ?s = "(touched s t)\<lparr>conn := with_row q e (conn s)\<rparr>"
  let ?r = "new_row q (Suc (length (entry_tbl (conn s)))) ?k e"
  note w = with_row_fields [OF assms(2), of q e]
  have "row_of q (conn ?s) ?k = Some ?r" "row_of q (conn ?s) ?i = None"
    using assms(5,8,9) by (auto simp: row_of_def w find_snoc)
  moreover from this have "InsertSeed q (Address e) (peer_address i) ?s = (Err ErrNoRows, ?s)"
    using w(3) by (subst InsertSeed_run) simp_all
  then have "Insert C q e s = (Err ErrNoRows, ?s)"
    using assms(6,7) by (simp add: run insertEntrySeeds_def bind_def)
  ultimately show ?thesis
    by (intro exI [of _ ?s] exI [of _ ?r]) (simp add: new_row_def set_columns_def)
qed

theorem Insert_unknown_seed_witness:
  "\<exists>e s' r. Seeds e = [demo_raw 6] \<and> Insert demo_crypto demo_sqlite e demo_ndb = (Err ErrNoRows, s') \<and>
     row_of demo_sqlite (conn s') (EncodeZif (demo_raw 5)) = Some r"
proof -
  let ?e = "(demo_entry 5 ''a'')\<lparr>Seeds := [demo_raw 6]\<rparr>"
  have v: "entry_valid demo_crypto ?e"
    using demo_entry_valid [of "''a''" 5] by (simp add: entry_valid_def)
  have b: "\<not> bad_args ?e" using demo_entry_args [of 5 "''a''"] by (simp add: bad_args_def)
  have k: "address_key (peer_address (demo_raw b)) = EncodeZif (demo_raw b)" for b
    by (simp add: peer_address_def)
  have none: "row_of demo_sqlite (conn demo_ndb) x = None" for x by (simp add: row_of_def)
  have "\<exists>s' r. Insert demo_crypto demo_sqlite ?e demo_ndb = (Err ErrNoRows, s') \<and>
      row_of demo_sqlite (conn s') (address_key (Address ?e)) = Some r \<and>
      rname r = affinity demo_sqlite (Name ?e)"
    by (rule Insert_unknown_seed [OF demo_ndb_inv _ v b none, where i = "demo_raw 6" and rest = "[]"])
      (simp_all add: k row_of_def)
  then show ?thesis by (intro exI [of _ ?e]) (auto simp: k)
qed

text \<open>Creating the database leaves the routing table empty: although \<open>NewDHT\<close> reads the latest entries and
  inserts them again, none of them reaches the table, because they are read without their address.\<close>

theorem NewDHT_empty_table:
  assumes "NewDHT C q me db files = Ok s"
  shows "buckets (rtab s) = replicate 160 []"
proof -
  obtain n where n: "NewNetDB me db files = Ok n"
    using assms by (cases "NewNetDB me db files") (simp_all add: NewDHT_def)
  then have "rtab n = new_table me" by (auto simp: NewNetDB_def split: prod.splits res.splits)
  moreover obtain r s' where r: "NewDHT_load C q n = (r, s')" by fastforce
  moreover have "s' = s" using assms n r by (cases r) (simp_all add: NewDHT_def)
  ultimately have "rtab s = new_table me" using NewDHT_load_rtab [of C q n] by simp
  then show ?thesis
    by (auto simp: new_table_def buckets_def slice_elems_def AddressBinarySize_def intro!: nth_equalityI)
qed

theorem NewDHT_empty_table_witness:
  "\<exists>s. NewDHT demo_crypto demo_sqlite demo_me (conn demo_two) (\<lambda>_. None) = Ok s \<and>
     length (entry_tbl (conn demo_two)) = 2 \<and> buckets (rtab s) = replicate 160 []"
proof -
  let ?n = "\<lparr>rtab = new_table demo_me, conn = conn demo_two, disk = (\<lambda>_. None)\<rparr> :: netdb"
  have "NewNetDB demo_me (conn demo_two) (\<lambda>_. None) = Ok ?n"
    by (simp add: NewNetDB_def netdb_setup_statements_def bind_def ret_def)
  moreover obtain es s' where r: "QueryLatest ?n = (Ok es, s')"
    by (simp add: QueryLatest_def bind_def zoom_def sqlQueryLatest_def gets_def addSeedToEntry_run ret_def
        take_Cons' rev_def sort_key_def)
  have "NewDHT_load demo_crypto demo_sqlite ?n = (Ok (), s')"
    using forM_Insert_bad [OF QueryLatest_no_address [OF r], of demo_crypto demo_sqlite s'] r
    by (simp add: NewDHT_load_def bind_def attempt_def)
  ultimately have ok: "NewDHT demo_crypto demo_sqlite demo_me (conn demo_two) (\<lambda>_. None) = Ok s'"
    by (simp add: NewDHT_def)
  then show ?thesis using NewDHT_empty_table [OF ok] by simp
qed

text \<open>With a working driver \<open>Len\<close> is the number of entries, except that it fails on an empty database.\<close>

theorem Len_counts:
  assumes "ndb_inv s" "faults (conn s) = []"
  shows "Len s = (if entry_tbl (conn s) = [] then Err ErrDriver else Ok (length (entry_tbl (conn s))), s)"
  using assms foldl_max_upt [of "length (entry_tbl (conn s))"]
  by (simp add: Len_def zoom_def sqlEntryLen_def bind_def ndb_inv_def store_inv_def del: upt_Suc)

theorem Len_counts_witness: "Len demo_two = (Ok 2, demo_two)"
  using Len_counts [OF demo_two_inv] by simp

end
