(* ===== verification/Find_Closest.thy ===== *)
theory Find_Closest
  imports NetDB_Props
begin

text \<open>
  \<open>FindClosest\<close>, the lookup behind every search for a peer: it terminates with at most twenty
  results for every 20 byte address, panics for other lengths, and its loops over a bucket read a
  backing array that the queries they make are changing.
\<close>

section \<open>Queries inside a loop\<close>

text \<open>What a query for an address returns on the tables \<open>c\<close>.\<close>

definition lookup_entry :: "sqlite \<Rightarrow> store \<Rightarrow> address \<Rightarrow> entry option" where
  "lookup_entry q c a = map_option (stored_entry c) (row_of q c (address_key a))"

definition settled :: "store \<Rightarrow> netdb \<Rightarrow> bool" where
  "settled c s \<longleftrightarrow> ndb_inv s \<and> conn s = c \<and> faults c = [] \<and> genuine c"

lemma Query_settled:
  assumes "settled c s"
  obtains i s' where "Query q a s = (Ok (lookup_entry q c a, i), s')" "settled c s'"
proof (cases "row_of q (conn s) (address_key a)")
  case None
  then show ?thesis
    using that assms by (simp add: Query_None settled_def lookup_entry_def)
next
  case (Some r)
  have s: "ndb_inv s" "faults (conn s) = []" "genuine (conn s)" using assms by (auto simp: settled_def)
  obtain t where run: "Query q a s = (Ok (Some (stored_entry (conn s) r), int (rid r)), touched s t)"
    by (rule Query_Some [OF s Some])
  moreover have "settled c (touched s t)"
    using assms preservesD [OF Query_inv s(1) run] by (simp add: settled_def)
  ultimately show ?thesis using that assms Some by (simp add: lookup_entry_def settled_def)
qed

definition answers :: "sqlite \<Rightarrow> store \<Rightarrow> entry option list \<Rightarrow> bool" where
  "answers q c es \<longleftrightarrow> list_all (\<lambda>e. \<exists>a. e = lookup_entry q c a) es"

lemma visit_bucket_settled:
  assumes "settled c s" "answers q c acc"
  obtains acc' s' where "visit_bucket q lim arr ks acc s = (Ok acc', s')" "settled c s'" "answers q c acc'"
    "length acc' \<le> length acc + length ks" "lim = Some n \<longrightarrow> length acc \<le> n \<longrightarrow> length acc' \<le> n"
  using assms
proof (induction ks arbitrary: acc s thesis)
  case Nil
  then show ?case by (simp add: ret_def)
next
  case (Cons k ks)
  show ?case
  proof (cases "case lim of None \<Rightarrow> False | Some n \<Rightarrow> n \<le> length acc")
    case True
    then show ?thesis using Cons.prems by (simp add: ret_def)
  next
    case False
    let ?a = "arrays (rtab s) ! arr ! k"
    obtain i s1 where s1: "Query q ?a s = (Ok (lookup_entry q c ?a, i), s1)" "settled c s1"
      by (rule Query_settled [OF Cons.prems(2)])
    let ?acc = "acc @ [lookup_entry q c ?a]"
    have ans: "answers q c ?acc" using Cons.prems(3) by (auto simp: answers_def)
    obtain acc' s' where r: "visit_bucket q lim arr ks ?acc s1 = (Ok acc', s')" "settled c s'"
      "answers q c acc'" "length acc' \<le> length ?acc + length ks"
      "lim = Some n \<longrightarrow> length ?acc \<le> n \<longrightarrow> length acc' \<le> n"
      by (rule Cons.IH [OF _ s1(2) ans])
    have "visit_bucket q lim arr (k # ks) acc s = (Ok acc', s')"
      using False s1 r(1) by (simp add: bind_def attempt_def gets_def)
    then show ?thesis
      using r(2-5) False by (intro Cons.prems(1)) auto
  qed
qed

section \<open>The outward loop\<close>

lemma visit_at_settled:
  assumes "settled c s" "answers q c acc" "0 \<le> i" "i < 160" "length acc \<le> BucketSize"
  obtains acc' s' where "visit_at q i acc s = (Ok acc', s')" "settled c s'" "answers q c acc'"
    "length acc' \<le> BucketSize"
proof -
  have len: "int (length (table (rtab s))) = 160"
    using assms(1) by (simp add: settled_def ndb_inv_def rt_inv_def AddressBinarySize_def)
  obtain arr n where b: "table (rtab s) ! nat i = (arr, n)" by fastforce
  obtain acc' s' where "visit_bucket q (Some BucketSize) arr [0..<n] acc s = (Ok acc', s')"
    "settled c s'" "answers q c acc'"
    "Some BucketSize = Some BucketSize \<longrightarrow> length acc \<le> BucketSize \<longrightarrow> length acc' \<le> BucketSize"
    by (rule visit_bucket_settled [OF assms(1,2), where lim = "Some BucketSize" and n = BucketSize])
  then show ?thesis
    using assms(3-5) len b by (intro that) (auto simp: visit_at_def bind_def table_at_def)
qed

lemma FindClosest_round_settled:
  assumes "settled c s" "answers q c acc" "0 \<le> index" "index < 160" "0 \<le> i" "length acc \<le> BucketSize"
  obtains acc' s' where "FindClosest_round q 160 index i acc s = (Ok acc', s')" "settled c s'"
    "answers q c acc'" "length acc' \<le> BucketSize"
proof -
  obtain acc1 s1 where 1: "(if index - i \<ge> 0 then visit_at q (index - i) acc else ret acc) s = (Ok acc1, s1)"
    "settled c s1" "answers q c acc1" "length acc1 \<le> BucketSize"
  proof (cases "index - i \<ge> 0")
    case True
    with assms(4,5) have "index - i < 160" by simp
    obtain acc' s' where "visit_at q (index - i) acc s = (Ok acc', s')" "settled c s'" "answers q c acc'"
      "length acc' \<le> BucketSize"
      by (rule visit_at_settled [OF assms(1,2) True \<open>index - i < 160\<close> assms(6)])
    with True that show ?thesis by simp
  qed (use assms that in \<open>simp add: ret_def\<close>)
  obtain acc2 s2 where 2: "(if index + i < 160 then visit_at q (index + i) acc1 else ret acc1) s1 = (Ok acc2, s2)"
    "settled c s2" "answers q c acc2" "length acc2 \<le> BucketSize"
  proof (cases "index + i < 160")
    case True
    have "0 \<le> index + i" using assms(3,5) by simp
    obtain acc' s' where "visit_at q (index + i) acc1 s1 = (Ok acc', s')" "settled c s'" "answers q c acc'"
      "length acc' \<le> BucketSize"
      by (rule visit_at_settled [OF 1(2,3) \<open>0 \<le> index + i\<close> True 1(4)])
    with True that show ?thesis by simp
  qed (use 1 that in \<open>simp add: ret_def\<close>)
  have "FindClosest_round q 160 index i acc s = (Ok acc2, s2)"
    using 1(1) 2(1) unfolding FindClosest_round_def by (simp add: bind_def)
  then show ?thesis using 2(2-4) by (rule that)
qed

lemma FindClosest_loop_settled:
  assumes "settled c s" "answers q c acc" "0 \<le> index" "index < 160" "0 \<le> i" "length acc \<le> BucketSize"
  shows "\<exists>acc' s'. FindClosest_loop q 160 index i acc s = (Ok acc', s') \<and> settled c s' \<and>
    answers q c acc' \<and> length acc' \<le> BucketSize"
  using assms
proof (induction q "160 :: int" index i acc s rule: FindClosest_loop.induct)
  case (1 q index i acc s)
  show ?case
  proof (cases "(index - i \<ge> 0 \<or> index + i \<le> 160) \<and> length acc < BucketSize")
    case True
    obtain acc' s' where r: "FindClosest_round q 160 index i acc s = (Ok acc', s')" "settled c s'"
      "answers q c acc'" "length acc' \<le> BucketSize"
      by (rule FindClosest_round_settled [OF "1.prems"])
    from "1.hyps" [OF True r(1) [symmetric] refl r(2,3) "1.prems"(3,4) _ r(4)] "1.prems"(5)
    show ?thesis using True r(1) by (simp add: FindClosest_loop.simps [of q 160 index i acc s])
  next
    case False
    then show ?thesis
      using "1.prems" by (auto simp: FindClosest_loop.simps [of q 160 index i acc s])
  qed
qed

section \<open>A loop over an array that queries change\<close>

text \<open>An array no bucket uses any more: later insertions leave it alone.\<close>

definition dead_array :: "nat \<Rightarrow> rtable \<Rightarrow> bool" where
  "dead_array arr t \<longleftrightarrow> arr < length (arrays t) \<and> arr \<notin> fst ` set (table t)"

lemma insertIntoTable_dead:
  assumes "insertIntoTable a t = Ok t'" "dead_array arr t"
  shows "dead_array arr t'" "arrays t' ! arr = arrays t ! arr"
proof -
  obtain index where bi: "bucket_index (self t) a = Ok index"
    using assms(1) by (cases "bucket_index (self t) a") (simp_all add: insertIntoTable_def)
  have ix: "\<not> (index < 0 \<or> int (length (table t)) \<le> index)"
    using assms(1) bi by (cases "index < 0 \<or> int (length (table t)) \<le> index") (simp_all add: insertIntoTable_def)
  then have it: "nat index < length (table t)" by linarith
  obtain b n where b: "table t ! nat index = (b, n)" by fastforce
  have "fst (table t ! nat index) \<in> fst ` set (table t)" using it by simp
  with b assms(2) have ne: "b \<noteq> arr" by (auto simp: dead_array_def)
  have upd: "fst ` set ((table t)[j := (length (arrays t), m)]) \<subseteq> insert (length (arrays t)) (fst ` set (table t))" for j m
    using set_update_subset_insert [of "table t" j "(length (arrays t), m)"] by auto
  obtain x ys m where t': "t' = t\<lparr>arrays := (arrays t)[b := x] @ [ys],
      table := (table t)[nat index := (length (arrays t), m)]\<rparr>"
  proof (cases "find_index (\<lambda>i. Address_Equals i a) (slice_elems t (b, n))")
    case None
    let ?kept = "if length (slice_elems t (b, n)) = BucketSize then butlast (slice_elems t (b, n))
      else slice_elems t (b, n)"
    have "t' = t\<lparr>arrays := arrays t @ [a # ?kept], table := (table t)[nat index := (length (arrays t), Suc (length ?kept))]\<rparr>"
      using assms(1) None bi b ix by (simp add: insertIntoTable_def Let_def)
    then have "t' = t\<lparr>arrays := (arrays t)[b := arrays t ! b] @ [a # ?kept],
        table := (table t)[nat index := (length (arrays t), Suc (length ?kept))]\<rparr>" by simp
    then show ?thesis by (rule that)
  next
    case (Some k)
    then have "t' = t\<lparr>arrays := (arrays t)[b := shift_out k n (arrays t ! b)] @ [a # remove_nth k (slice_elems t (b, n))],
        table := (table t)[nat index := (length (arrays t), n)]\<rparr>"
      using assms(1) bi b ix by (simp add: insertIntoTable_def Let_def)
    then show ?thesis by (rule that)
  qed
  from assms(2) have d: "arr < length (arrays t)" "arr \<notin> fst ` set (table t)" by (simp_all add: dead_array_def)
  show "arrays t' ! arr = arrays t ! arr" using ne d by (simp add: t' nth_append)
  have "table t' = (table t)[nat index := (length (arrays t), m)]" by (simp add: t')
  with upd [of "nat index" m] have "fst ` set (table t') \<subseteq> insert (length (arrays t)) (fst ` set (table t))"
    by (simp only:)
  moreover have "arr \<notin> insert (length (arrays t)) (fst ` set (table t))" using d by simp
  ultimately have "arr \<notin> fst ` set (table t')" by (rule contra_subsetD)
  then show "dead_array arr t'" using d by (simp add: dead_array_def t')
qed

text \<open>Inserting the first address of a bucket again shifts the old array by one and leaves it dead.\<close>

lemma insertIntoTable_first:
  assumes "rt_inv t" "bucket_index (self t) a = Ok (int i)" "i < 160" "table t ! i = (arr, n)" "0 < n"
    "Raw (arrays t ! arr ! 0) = Raw a" "insertIntoTable a t = Ok t'"
  shows "dead_array arr t'" "arrays t' ! arr = shift_out 0 n (arrays t ! arr)"
proof -
  have refs: "refs_ok t" and len: "i < length (table t)"
    using assms(1,3) by (auto simp: rt_inv_def AddressBinarySize_def)
  note nth = refs_ok_nth [OF refs len assms(4)]
  obtain m where m: "n = Suc m" using assms(5) by (cases n) auto
  then obtain x ys where A: "arrays t ! arr = x # ys" using nth(2) by (cases "arrays t ! arr") auto
  have "find_index (\<lambda>i. Address_Equals i a) (slice_elems t (arr, n)) = Some 0"
    using assms(6) by (simp add: slice_elems_def A m Address_Equals_def)
  then have t': "t' = t\<lparr>arrays := (arrays t)[arr := shift_out 0 n (arrays t ! arr)]
      @ [a # remove_nth 0 (slice_elems t (arr, n))], table := (table t)[i := (length (arrays t), n)]\<rparr>"
    using assms(2,4,7) len by (simp add: insertIntoTable_def Let_def)
  show "arrays t' ! arr = shift_out 0 n (arrays t ! arr)" using nth by (simp add: t' nth_append)
  have "fst (table t' ! j) \<noteq> arr" if "j < length (table t)" for j
  proof (cases "j = i")
    case False
    then show ?thesis using refs_ok_distinct [OF refs that len False] assms(4) by (simp add: t')
  qed (use nth(1) len in \<open>simp add: t'\<close>)
  moreover have "length (table t') = length (table t)" by (simp add: t')
  ultimately have "arr \<notin> set (map fst (table t'))" by (simp add: in_set_conv_nth del: set_map)
  moreover have "arr < length (arrays t')" using nth(1) by (simp add: t')
  ultimately show "dead_array arr t'" by (simp add: dead_array_def)
qed

lemma Query_dead:
  assumes "settled c s" "dead_array arr (rtab s)"
  obtains i s' where "Query q a s = (Ok (lookup_entry q c a, i), s')" "settled c s'"
    "dead_array arr (rtab s')" "arrays (rtab s') ! arr = arrays (rtab s) ! arr"
proof (cases "row_of q (conn s) (address_key a)")
  case None
  then show ?thesis
    using that assms by (simp add: Query_None settled_def lookup_entry_def)
next
  case (Some r)
  have s: "ndb_inv s" "faults (conn s) = []" "genuine (conn s)" using assms by (auto simp: settled_def)
  obtain t where t: "insertIntoTable (peer_address (raw_of (raddress r))) (rtab s) = Ok t"
    and run: "Query q a s = (Ok (Some (stored_entry (conn s) r), int (rid r)), touched s t)"
    by (rule Query_Some [OF s Some])
  have "settled c (touched s t)"
    using assms preservesD [OF Query_inv s(1) run] by (simp add: settled_def)
  with that run insertIntoTable_dead [OF t assms(2)] assms Some show ?thesis
    by (simp add: lookup_entry_def settled_def)
qed

lemma visit_bucket_dead:
  assumes "settled c s" "dead_array arr (rtab s)"
  shows "\<exists>s'. visit_bucket q None arr ks acc s =
    (Ok (acc @ map (\<lambda>k. lookup_entry q c (arrays (rtab s) ! arr ! k)) ks), s')"
  using assms
proof (induction ks arbitrary: acc s)
  case Nil
  then show ?case by (simp add: ret_def)
next
  case (Cons k ks)
  let ?a = "arrays (rtab s) ! arr ! k"
  obtain i s1 where s1: "Query q ?a s = (Ok (lookup_entry q c ?a, i), s1)" "settled c s1"
    "dead_array arr (rtab s1)" "arrays (rtab s1) ! arr = arrays (rtab s) ! arr"
    by (rule Query_dead [OF Cons.prems])
  from Cons.IH [OF s1(2,3), of "acc @ [lookup_entry q c ?a]"] s1 show ?case
    by (simp add: bind_def attempt_def gets_def)
qed

lemma shift_out_first:
  assumes "take 20 A = xs" "length xs = 20"
  shows "map ((!) (shift_out 0 20 A)) [1..<20] = drop 2 xs @ [last xs]"
proof (rule nth_equalityI)
  fix k assume k: "k < length (map ((!) (shift_out 0 20 A)) [1..<20])"
  have len: "20 \<le> length A" using assms by (metis length_take min.cobounded1)
  have nth: "xs ! j = A ! j" if "j < 20" for j using assms that by (metis nth_take)
  have l: "last xs = A ! 19" using nth [of 19] assms(2) by (simp add: last_conv_nth flip: length_greater_0_conv)
  from k len assms show "map ((!) (shift_out 0 20 A)) [1..<20] ! k = (drop 2 xs @ [last xs]) ! k"
    by (auto simp: shift_out_def nth_append nth l)
qed (use assms in simp)

section \<open>An example with a full bucket\<close>

definition far_raw :: "nat \<Rightarrow> bytes" where
  "far_raw k = 128 # of_nat k # replicate 18 0"

definition demo_full :: netdb where
  "demo_full = \<lparr>rtab = load_table (map (\<lambda>k. peer_address (far_raw k)) [0..<20] # replicate 159 [])
       (new_table demo_me),
     conn = empty_store\<lparr>entry_tbl := [new_row demo_sqlite 1 (EncodeZif (far_raw 0)) (demo_entry 5 ''a'')]\<rparr>,
     disk = (\<lambda>_. None)\<rparr>"

lemma far_bucket: "bucket_index demo_me (peer_address (far_raw k)) = Ok 0"
proof -
  have "Address_LeadingZeroes \<lparr>Raw = 128 # xs, Encoded = []\<rparr> = 0" for xs
    by (simp add: Address_LeadingZeroes_def upt_rec)
  moreover have "replicate 19 0 = 0 # replicate 18 (0 :: byte)" by (simp add: numeral_eq_Suc)
  then have "map2 (XOR) (far_raw k) (Raw demo_me) = 128 # map2 (XOR) (of_nat k # replicate 18 0) (replicate 18 0 @ [0])"
    by (simp add: far_raw_def demo_me_def peer_address_def demo_raw_def)
  ultimately show ?thesis
    by (simp add: bucket_index_eq far_raw_def demo_me_def peer_address_def demo_raw_def)
qed

lemma far_raw_inj: "inj_on far_raw {0..<20}"
proof (rule inj_onI)
  fix j k assume jk: "j \<in> {0..<20 :: nat}" "k \<in> {0..<20}" "far_raw j = far_raw k"
  then have "(of_nat j :: byte) = of_nat k" by (simp add: far_raw_def)
  then have "unat (of_nat j :: byte) = unat (of_nat k :: byte)" by simp
  with jk(1,2) show "j = k" by (simp add: unat_of_nat)
qed

lemma demo_full_inv: "ndb_inv demo_full"
proof -
  let ?xs = "map (\<lambda>k. peer_address (far_raw k)) [0..<20]"
  have "distinct (map Raw ?xs)"
    using far_raw_inj by (simp add: comp_def peer_address_def distinct_map)
  then have "bucket_ok demo_me 0 ?xs"
    using far_bucket by (simp add: bucket_ok_def BucketSize_def list_all_iff)
  then have "saved_ok demo_me (?xs # replicate 159 [])"
    by (auto simp: saved_ok_def AddressBinarySize_def nth_Cons' bucket_ok_def)
  moreover have "rt_inv (new_table demo_me)" by (intro new_table_inv) (simp add: demo_me_def peer_address_def)
  ultimately have "rt_inv (rtab demo_full)" by (simp add: demo_full_def load_table_inv)
  then show ?thesis by (simp add: ndb_inv_def demo_full_def store_inv_def empty_store_def)
qed

lemma demo_full_bucket: "buckets (rtab demo_full) ! 0 = map (\<lambda>k. peer_address (far_raw k)) [0..<20]"
  by (simp add: demo_full_def nth_buckets load_table_def slice_elems_def)

lemma FindClosest_full_run:
  assumes "ndb_inv s" "faults (conn s) = []" "genuine (conn s)" "affinity_ok q"
    and i: "bucket_index (self (rtab s)) a = Ok (int i)" "i < 160"
    and xs: "buckets (rtab s) ! i = xs" "length xs = 20"
    and x: "address_wf (hd xs)" "length (Raw (hd xs)) = 20" "row_of q (conn s) (address_key (hd xs)) = Some r"
  shows "\<exists>s'. FindClosest q a s =
    (Ok (map (lookup_entry q (conn s)) (hd xs # drop 2 xs @ [last xs])), s')"
proof -
  let ?c = "conn s"
  have rt: "rt_inv (rtab s)" by (rule ndb_invD [OF assms(1)])
  then have refs: "refs_ok (rtab s)" and len: "length (table (rtab s)) = 160"
    by (simp_all add: rt_inv_def AddressBinarySize_def)
  obtain arr n where b: "table (rtab s) ! i = (arr, n)" by fastforce
  have it: "i < length (table (rtab s))" using i(2) len by simp
  note nth = refs_ok_nth [OF refs it b]
  let ?A = "arrays (rtab s) ! arr"
  have A: "take n ?A = xs" using xs(1) it b by (simp add: nth_buckets slice_elems_def)
  with nth xs(2) have n: "n = 20" by auto
  have hd: "?A ! 0 = hd xs" using A n xs(2) by (metis hd_conv_nth length_greater_0_conv nth_take zero_less_numeral)
  have raw: "raw_of (raddress r) = Raw (hd xs)" using row_of_SomeD [OF x(3)] x(1,2) assms(4) by simp
  obtain t where t: "insertIntoTable (peer_address (raw_of (raddress r))) (rtab s) = Ok t"
    and run: "Query q (hd xs) s = (Ok (Some (stored_entry ?c r), int (rid r)), touched s t)"
    by (rule Query_Some [OF assms(1-3) x(3)])
  have "bucket_ok (self (rtab s)) i xs" using rt it xs(1) by (auto simp: rt_inv_def)
  moreover have "hd xs \<in> set xs" using xs(2) by (intro hd_in_set) auto
  ultimately have "bucket_index (self (rtab s)) (hd xs) = Ok (int i)"
    by (auto simp: bucket_ok_def list_all_iff)
  then have "bucket_index (self (rtab s)) (peer_address (raw_of (raddress r))) = Ok (int i)"
    using bucket_index_Equals [of "hd xs" "peer_address (raw_of (raddress r))"] raw by (simp add: peer_address_def)
  note first = insertIntoTable_first [OF rt this i(2) b _ _ t, unfolded raw n hd, simplified peer_address_def, simplified]
  have st: "settled ?c (touched s t)"
    using preservesD [OF Query_inv assms(1) run] assms(2,3) by (simp add: settled_def)
  obtain s' where "visit_bucket q None arr [1..<20] [lookup_entry q ?c (hd xs)] (touched s t) =
      (Ok ([lookup_entry q ?c (hd xs)] @ map (\<lambda>k. lookup_entry q ?c (arrays t ! arr ! k)) [1..<20]), s')"
    using visit_bucket_dead [OF st, of arr q "[1..<20]" "[lookup_entry q ?c (hd xs)]"] first(1)
    by (auto simp del: append.simps)
  moreover have "map (\<lambda>k. lookup_entry q ?c (arrays t ! arr ! k)) [1..<20] =
      map (lookup_entry q ?c) (drop 2 xs @ [last xs])"
  proof -
    have "map (\<lambda>k. lookup_entry q ?c (arrays t ! arr ! k)) [1..<20] =
        map (lookup_entry q ?c) (map ((!) (shift_out 0 20 ?A)) [1..<20])" by (simp add: first(2))
    also have "map ((!) (shift_out 0 20 ?A)) [1..<20] = drop 2 xs @ [last xs]"
      using A n by (intro shift_out_first [OF _ xs(2)]) simp
    finally show ?thesis .
  qed
  moreover have "[0..<20] = 0 # [1..<20 :: nat]" by (simp add: upt_rec)
  ultimately have "visit_bucket q None arr [0..<20] [] s =
      (Ok (map (lookup_entry q ?c) (hd xs # drop 2 xs @ [last xs])), s')"
    using run hd x(3) by (simp add: bind_def attempt_def gets_def lookup_entry_def)
  then show ?thesis
    using i b len n by (simp add: FindClosest_def bind_def table_at_def lift_res_def gets_def BucketSize_def queryAddresses_def)
qed

lemma FindClosest_settled:
  assumes "ndb_inv s" "faults (conn s) = []" "genuine (conn s)" "length (Raw a) = 20"
  shows "\<exists>es s'. FindClosest q a s = (Ok es, s') \<and> settled (conn s) s' \<and> answers q (conn s) es \<and> length es \<le> 20"
proof -
  let ?c = "conn s"
  have st: "settled ?c s" using assms by (simp add: settled_def)
  have rt: "rt_inv (rtab s)" by (rule ndb_invD [OF assms(1)])
  then have me: "length (Raw (self (rtab s))) = 20" and len: "length (table (rtab s)) = 160"
    by (simp_all add: rt_inv_def AddressBinarySize_def)
  have "Raw a \<noteq> []" "length (Raw a) \<le> 20" using assms(4) by auto
  then obtain i where i: "bucket_index (self (rtab s)) a = Ok (int i)" "i < 160"
    by (rule bucket_index_range [OF me])
  obtain arr n where b: "table (rtab s) ! i = (arr, n)" by fastforce
  have run: "FindClosest q a s = (if n = BucketSize then queryAddresses q (arr, n)
      else FindClosest_loop q 160 (int i) 0 []) s"
    using i b len assms(4) by (simp add: FindClosest_def bind_def table_at_def lift_res_def gets_def)
  have nil: "answers q ?c []" by (simp add: answers_def)
  show ?thesis
  proof (cases "n = BucketSize")
    case True
    obtain es s' where "visit_bucket q None arr [0..<n] [] s = (Ok es, s')" "settled ?c s'" "answers q ?c es"
      "length es \<le> length ([] :: entry option list) + length [0..<n]"
      by (rule visit_bucket_settled [OF st nil])
    with True run show ?thesis by (simp add: queryAddresses_def BucketSize_def)
  next
    case False
    with FindClosest_loop_settled [OF st nil, of "int i" 0] i(2) run show ?thesis
      by (simp add: BucketSize_def)
  qed
qed

lemma demo_full_FindClosest:
  "\<exists>s'. FindClosest demo_sqlite (peer_address (far_raw 99)) demo_full =
     (Ok (map (lookup_entry demo_sqlite (conn demo_full)) (let xs = map (\<lambda>k. peer_address (far_raw k)) [0..<20]
        in peer_address (far_raw 0) # drop 2 xs @ [last xs])), s')"
proof -
  let ?xs = "map (\<lambda>k. peer_address (far_raw k)) [0..<20]"
  have hd: "hd ?xs = peer_address (far_raw 0)" by (simp add: upt_rec)
  have c: "faults (conn demo_full) = []" "genuine (conn demo_full)"
    by (simp_all add: demo_full_def empty_store_def genuine_def far_raw_def)
  have i: "bucket_index (self (rtab demo_full)) (peer_address (far_raw 99)) = Ok (int 0)"
    using far_bucket by (simp add: demo_full_def)
  have row: "row_of demo_sqlite (conn demo_full) (address_key (hd ?xs)) =
      Some (new_row demo_sqlite 1 (EncodeZif (far_raw 0)) (demo_entry 5 ''a''))"
    unfolding hd by (simp add: row_of_def demo_full_def peer_address_def)
  show ?thesis
    using FindClosest_full_run [OF demo_full_inv c _ i _ demo_full_bucket _ _ _ row] unfolding hd
    by (simp add: peer_address_def far_raw_def Let_def)
qed

section \<open>Properties\<close>



text \<open>An address that is empty or longer than 20 bytes makes \<open>FindClosest\<close> panic, whatever the database holds;
  neither it nor the handler that calls it with an address from the network checks the length.\<close>

theorem FindClosest_panics:
  assumes "ndb_inv s" "Raw a = [] \<or> length (Raw a) > 20"
  shows "FindClosest q a s = (Panic, s)"
proof -
  have me: "length (Raw (self (rtab s))) = 20"
    using assms(1) by (simp add: ndb_inv_def rt_inv_def AddressBinarySize_def)
  show ?thesis
    using assms(2) bucket_index_bad [OF me, of a]
    by (auto simp: FindClosest_def bind_def lift_res_def gets_def table_at_def)
qed

theorem FindClosest_panics_witness:
  "FindClosest demo_sqlite empty_address demo_two = (Panic, demo_two)"
  using FindClosest_panics [OF demo_two_inv, of empty_address demo_sqlite] by (simp add: empty_address_def)

text \<open>What \<open>FindClosest\<close> returns for a full bucket whose first address is known: the second address of the bucket is
  skipped and the last one comes twice. The first query moves its address to the front of the bucket, which shifts
  the array the loop is reading.\<close>

theorem FindClosest_full_bucket:
  assumes "ndb_inv s" "faults (conn s) = []" "genuine (conn s)" "affinity_ok q"
    and i: "bucket_index (self (rtab s)) a = Ok (int i)" "i < 160"
    and xs: "buckets (rtab s) ! i = xs" "length xs = 20"
    and x: "address_wf (hd xs)" "length (Raw (hd xs)) = 20" "row_of q (conn s) (address_key (hd xs)) = Some r"
  shows "\<exists>s'. FindClosest q a s =
    (Ok (map (lookup_entry q (conn s)) (hd xs # drop 2 xs @ [last xs])), s')"
  by (rule FindClosest_full_run [OF assms])

theorem FindClosest_full_bucket_witness:
  "\<exists>es s'. FindClosest demo_sqlite (peer_address (far_raw 99)) demo_full = (Ok es, s') \<and> length es = 20 \<and>
     es ! 19 = es ! 18"
proof -
  let ?xs = "map (\<lambda>k. peer_address (far_raw k)) [0..<20]"
  have hd: "hd ?xs = peer_address (far_raw 0)" by (simp add: upt_rec)
  have c: "faults (conn demo_full) = []" "genuine (conn demo_full)"
    by (simp_all add: demo_full_def empty_store_def genuine_def far_raw_def)
  have i: "bucket_index (self (rtab demo_full)) (peer_address (far_raw 99)) = Ok (int 0)"
    using far_bucket by (simp add: demo_full_def)
  have row: "row_of demo_sqlite (conn demo_full) (address_key (hd ?xs)) =
      Some (new_row demo_sqlite 1 (EncodeZif (far_raw 0)) (demo_entry 5 ''a''))"
    unfolding hd by (simp add: row_of_def demo_full_def peer_address_def)
  have "\<exists>s'. FindClosest demo_sqlite (peer_address (far_raw 99)) demo_full =
      (Ok (map (lookup_entry demo_sqlite (conn demo_full)) (hd ?xs # drop 2 ?xs @ [last ?xs])), s')"
    by (rule FindClosest_full_bucket [OF demo_full_inv c _ i _ demo_full_bucket _ _ _ row], unfold hd)
      (simp_all add: peer_address_def far_raw_def)
  then show ?thesis by (auto simp: nth_append last_conv_nth)
qed

end
