(* ===== verification/Bucket_Cache.thy ===== *)
theory Bucket_Cache
  imports Routing_Table
begin

text \<open>
  The contract of a bucket as its users see it: a bounded cache in which an insertion puts its
  element first and pushes every other element back by at most one place. What follows from the
  contract is proved once, in the locale, and carried over to the routing table.
\<close>

section \<open>The interface\<close>

locale recency_cache =
  fixes ins :: "'a \<Rightarrow> 'a list \<Rightarrow> 'a list"
    and same :: "'a \<Rightarrow> 'a \<Rightarrow> bool"
    and cap :: nat
  assumes ins_front: "\<exists>ys. ins a xs = a # ys"
    and ins_bound: "length (ins a xs) \<le> cap"
    and ins_ages: "i < length xs \<Longrightarrow> Suc i < cap \<Longrightarrow> \<not> same (xs ! i) a \<Longrightarrow>
      \<exists>j\<le>Suc i. j < length (ins a xs) \<and> ins a xs ! j = xs ! i"
begin

definition ins_all :: "'a list \<Rightarrow> 'a list \<Rightarrow> 'a list" where
  "ins_all as xs = foldl (\<lambda>xs a. ins a xs) xs as"

lemma ages_all:
  "i < length xs \<Longrightarrow> i + length as < cap \<Longrightarrow> list_all (\<lambda>a. \<not> same (xs ! i) a) as \<Longrightarrow>
   xs ! i \<in> set (ins_all as xs)"
proof (induction as arbitrary: xs i)
  case Nil
  then show ?case by (simp add: ins_all_def)
next
  case (Cons a as)
  from ins_ages [of i xs a] Cons.prems obtain j where
    j: "j \<le> Suc i" "j < length (ins a xs)" "ins a xs ! j = xs ! i" by auto
  from Cons.IH [OF j(2)] j Cons.prems show ?case by (simp add: ins_all_def)
qed

text \<open>An inserted element stays until the cache's capacity of other elements has been inserted.\<close>

lemma retention:
  assumes "length as < cap" "list_all (\<lambda>b. \<not> same a b) as"
  shows "a \<in> set (ins_all as (ins a xs))"
proof -
  obtain ys where "ins a xs = a # ys" using ins_front by blast
  with ages_all [of 0 "ins a xs" as] assms show ?thesis by simp
qed

end

section \<open>Buckets\<close>

lemma filter_nth_ages:
  "i < length xs \<Longrightarrow> P (xs ! i) \<Longrightarrow> \<exists>j\<le>i. j < length (filter P xs) \<and> filter P xs ! j = xs ! i"
proof (induction xs arbitrary: i)
  case (Cons x xs)
  show ?case
  proof (cases i)
    case 0
    with Cons.prems show ?thesis by (intro exI [of _ 0]) simp
  next
    case (Suc k)
    with Cons obtain j where "j \<le> k" "j < length (filter P xs)" "filter P xs ! j = xs ! k" by auto
    with Suc show ?thesis by (cases "P x") (auto intro: exI [of _ "Suc j"] exI [of _ j])
  qed
qed simp

interpretation bucket: recency_cache mtf_insert Address_Equals BucketSize
proof unfold_locales
  fix a :: address and xs
  show "\<exists>ys. mtf_insert a xs = a # ys" by (simp add: mtf_insert_def BucketSize_def)
  show "length (mtf_insert a xs) \<le> BucketSize" by (simp add: mtf_insert_def)
next
  fix i a and xs :: "address list"
  assume i: "i < length xs" "Suc i < BucketSize" "\<not> Address_Equals (xs ! i) a"
  let ?f = "filter (\<lambda>x. \<not> Address_Equals x a) xs"
  from filter_nth_ages [of i xs "\<lambda>x. \<not> Address_Equals x a"] i obtain j where
    j: "j \<le> i" "j < length ?f" "?f ! j = xs ! i" by auto
  show "\<exists>j\<le>Suc i. j < length (mtf_insert a xs) \<and> mtf_insert a xs ! j = xs ! i"
    using j i(2) by (intro exI [of _ "Suc j"]) (simp add: mtf_insert_def)
qed

section \<open>The routing table\<close>

fun insert_all :: "address list \<Rightarrow> rtable \<Rightarrow> rtable res" where
  "insert_all [] t = Ok t"
| "insert_all (a # as) t = res_bind (insertIntoTable a t) (insert_all as)"

lemma bucket_index_20:
  assumes "length (Raw me) = 20" "length (Raw a) = 20"
  obtains i where "bucket_index me a = Ok (int i)" "i < 160"
  using bucket_index_range [OF assms(1), of a] assms(2) by force

lemma insertIntoTable_bucket:
  assumes "rt_inv t" "length (Raw a) = 20" "i < 160"
  obtains t' where "insertIntoTable a t = Ok t'" "rt_inv t'" "self t' = self t"
    "buckets t' ! i = (if bucket_index (self t) a = Ok (int i) then mtf_insert a (buckets t ! i) else buckets t ! i)"
proof -
  have me: "length (Raw (self t)) = 20" and len: "length (table t) = 160"
    using assms(1) by (simp_all add: rt_inv_def AddressBinarySize_def)
  obtain j where j: "bucket_index (self t) a = Ok (int j)" "j < 160"
    by (rule bucket_index_20 [OF me assms(2)])
  obtain t' where t': "insertIntoTable a t = Ok t'" "self t' = self t"
    "buckets t' = (buckets t)[j := mtf_insert a (buckets t ! j)]"
    by (rule insertIntoTable_refines [OF assms(1) j])
  from insertIntoTable_inv(1) [OF assms(1) t'(1)] t' j len assms(3) show ?thesis
    by (intro that [of t']) auto
qed

lemma insert_all_bucket:
  assumes "rt_inv t" "list_all (\<lambda>a. length (Raw a) = 20) as" "i < 160"
  shows "\<exists>t'. insert_all as t = Ok t' \<and> rt_inv t' \<and> self t' = self t \<and>
    buckets t' ! i = bucket.ins_all (filter (\<lambda>a. bucket_index (self t) a = Ok (int i)) as) (buckets t ! i)"
  using assms(1,2)
proof (induction as arbitrary: t)
  case Nil
  then show ?case by (simp add: bucket.ins_all_def)
next
  case (Cons a as)
  have a: "length (Raw a) = 20" using Cons.prems by simp
  obtain t1 where t1: "insertIntoTable a t = Ok t1" "rt_inv t1" "self t1 = self t"
    "buckets t1 ! i = (if bucket_index (self t) a = Ok (int i) then mtf_insert a (buckets t ! i) else buckets t ! i)"
    by (rule insertIntoTable_bucket [OF Cons.prems(1) a assms(3)])
  from Cons.IH [OF t1(2)] Cons.prems(2) t1 show ?case by (auto simp: bucket.ins_all_def)
qed

section \<open>Properties\<close>

text \<open>C13: \<open>insertIntoTable\<close> is insertion into a move-to-front cache: for every 20 byte address it succeeds, keeps the
  table's invariant, and changes exactly one bucket, the one of the address's distance, where it puts the
  address first, removes an older occurrence of it, and drops the last address if there were 20 others.\<close>

theorem insertIntoTable_correct:
  assumes "rt_inv t" "length (Raw a) = 20"
  shows "\<exists>i t'. i < 160 \<and> bucket_index (self t) a = Ok (int i) \<and> insertIntoTable a t = Ok t' \<and> rt_inv t' \<and>
    buckets t' = (buckets t)[i := take 20 (a # filter (\<lambda>x. Raw x \<noteq> Raw a) (buckets t ! i))]"
proof -
  have me: "length (Raw (self t)) = 20" using assms(1) by (simp add: rt_inv_def AddressBinarySize_def)
  obtain i where i: "bucket_index (self t) a = Ok (int i)" "i < 160"
    by (rule bucket_index_20 [OF me assms(2)])
  obtain t' where t': "insertIntoTable a t = Ok t'"
    "buckets t' = (buckets t)[i := mtf_insert a (buckets t ! i)]"
    by (rule insertIntoTable_refines [OF assms(1) i])
  with i insertIntoTable_inv(1) [OF assms(1) t'(1)] show ?thesis
    by (auto simp: mtf_insert_def BucketSize_def Address_Equals_def)
qed

theorem insertIntoTable_correct_witness:
  "\<exists>i t'. i < 160 \<and> insertIntoTable \<lparr>Raw = replicate 20 7, Encoded = []\<rparr> (new_table \<lparr>Raw = replicate 20 0, Encoded = []\<rparr>) = Ok t' \<and>
     map Raw (buckets t' ! i) = [replicate 20 7]"
proof -
  let ?t = "new_table \<lparr>Raw = replicate 20 0, Encoded = []\<rparr>" and ?a = "\<lparr>Raw = replicate 20 7, Encoded = []\<rparr>"
  have inv: "rt_inv ?t" by (rule new_table_inv) simp
  obtain i t' where i: "i < 160" "insertIntoTable ?a ?t = Ok t'"
    "buckets t' = (buckets ?t)[i := take 20 (?a # filter (\<lambda>x. Raw x \<noteq> Raw ?a) (buckets ?t ! i))]"
    using insertIntoTable_correct [OF inv, of ?a] by auto
  have "buckets ?t ! i = []" "i < length (buckets ?t)"
    using i(1) by (simp_all add: nth_buckets new_table_def AddressBinarySize_def slice_elems_def)
  with i show ?thesis by (intro exI [of _ i] exI [of _ t']) simp
qed

text \<open>C23: A contact is not forgotten early: after an address has been inserted into the routing table, it is still in
  its bucket after any sequence of fewer than 20 insertions of other addresses.\<close>

theorem routing_retention:
  assumes "rt_inv t" "length (Raw a) = 20" "list_all (\<lambda>b. length (Raw b) = 20 \<and> Raw b \<noteq> Raw a) bs" "length bs < 20"
  shows "\<exists>i t1 t2. bucket_index (self t) a = Ok (int i) \<and> insertIntoTable a t = Ok t1 \<and>
    insert_all bs t1 = Ok t2 \<and> a \<in> set (buckets t2 ! i)"
proof -
  have me: "length (Raw (self t)) = 20" using assms(1) by (simp add: rt_inv_def AddressBinarySize_def)
  obtain i where i: "bucket_index (self t) a = Ok (int i)" "i < 160"
    by (rule bucket_index_20 [OF me assms(2)])
  obtain t1 where t1: "insertIntoTable a t = Ok t1" "rt_inv t1" "self t1 = self t"
    "buckets t1 ! i = (if bucket_index (self t) a = Ok (int i) then mtf_insert a (buckets t ! i) else buckets t ! i)"
    by (rule insertIntoTable_bucket [OF assms(1,2) i(2)])
  let ?bs = "filter (\<lambda>b. bucket_index (self t) b = Ok (int i)) bs"
  have "list_all (\<lambda>b. length (Raw b) = 20) bs" using assms(3) by (simp add: list_all_iff)
  from insert_all_bucket [OF t1(2) this i(2)] obtain t2 where
    t2: "insert_all bs t1 = Ok t2" "buckets t2 ! i = bucket.ins_all ?bs (mtf_insert a (buckets t ! i))"
    using t1(3,4) i(1) by auto
  have "length ?bs < BucketSize"
    using assms(4) le_less_trans [OF length_filter_le] by (auto simp: BucketSize_def)
  moreover have "list_all (\<lambda>b. \<not> Address_Equals a b) ?bs"
    using assms(3) by (auto simp: list_all_iff Address_Equals_def)
  ultimately have "a \<in> set (buckets t2 ! i)" unfolding t2(2) by (rule bucket.retention)
  with i(1) t1(1) t2(1) show ?thesis by blast
qed

theorem routing_retention_witness:
  "\<exists>i t1 t2. insertIntoTable \<lparr>Raw = replicate 20 7, Encoded = []\<rparr> (new_table \<lparr>Raw = replicate 20 0, Encoded = []\<rparr>) = Ok t1 \<and>
     insert_all [\<lparr>Raw = replicate 20 6, Encoded = []\<rparr>, \<lparr>Raw = replicate 20 5, Encoded = []\<rparr>] t1 = Ok t2 \<and>
     \<lparr>Raw = replicate 20 7, Encoded = []\<rparr> \<in> set (buckets t2 ! i)"
proof -
  have inv: "rt_inv (new_table \<lparr>Raw = replicate 20 0, Encoded = []\<rparr>)" by (rule new_table_inv) simp
  show ?thesis
    using routing_retention [OF inv, of "\<lparr>Raw = replicate 20 7, Encoded = []\<rparr>"
        "[\<lparr>Raw = replicate 20 6, Encoded = []\<rparr>, \<lparr>Raw = replicate 20 5, Encoded = []\<rparr>]"]
    by auto
qed

end
