(* ===== verification/Dht_Props.thy ===== *)
theory Dht_Props
  imports Instances
begin

text \<open>
  Properties of addresses and entries: printing and parsing, the numeric order, what a bucket index
  says about the distance, and what the signature of an entry does and does not protect.
\<close>

section \<open>Distance\<close>

text \<open>The XOR metric on raw addresses, as the number the bytes stand for.\<close>

definition xor_distance :: "address \<Rightarrow> address \<Rightarrow> nat" where
  "xor_distance a b = SetBytes (map2 (XOR) (Raw a) (Raw b))"

lemma bucket_index_distance:
  assumes "length (Raw me) = 20" "length (Raw a) = 20" "bucket_index me a = Ok i"
  shows "0 \<le> i" "i < 160" "xor_distance a me < 2 ^ (160 - nat i)"
    "i < 159 \<Longrightarrow> 2 ^ (159 - nat i) \<le> xor_distance a me"
proof -
  let ?d = "\<lparr>Raw = map2 (XOR) (Raw a) (Raw me), Encoded = []\<rparr>"
  have i: "i = Address_LeadingZeroes ?d" using assms by (simp add: bucket_index_eq)
  have len: "length (Raw ?d) = 20" using assms by simp
  have d: "xor_distance a me = SetBytes (Raw ?d)" by (simp add: xor_distance_def)
  have ne: "Raw ?d \<noteq> []" using len by (metis list.size(3) zero_neq_numeral)
  show "0 \<le> i" "i < 160" using LeadingZeroes_range [OF ne] unfolding i len by simp_all
  show "xor_distance a me < 2 ^ (160 - nat i)"
  proof (cases "SetBytes (Raw ?d) = 0")
    case False
    obtain k where k: "Address_LeadingZeroes ?d = int k" "SetBytes (Raw ?d) < 2 ^ (8 * length (Raw ?d) - k)"
      by (rule LeadingZeroes_pos [OF False])
    from k(2) show ?thesis unfolding len by (simp add: d i k(1))
  qed (simp add: d)
  show "2 ^ (159 - nat i) \<le> xor_distance a me" if "i < 159"
  proof (cases "SetBytes (Raw ?d) = 0")
    case True
    from LeadingZeroes_zero [OF True] that show ?thesis unfolding len by (simp add: i)
  next
    case False
    obtain k where k: "Address_LeadingZeroes ?d = int k" "k < 8 * length (Raw ?d)"
      "2 ^ (8 * length (Raw ?d) - Suc k) \<le> SetBytes (Raw ?d)"
      by (rule LeadingZeroes_pos [OF False])
    from k(3) show ?thesis unfolding len by (simp add: d i k(1))
  qed
qed

section \<open>Properties\<close>

text \<open>C28: Addresses survive printing and parsing: the printed form of a 20 byte address has 34 characters, starts with
  \<open>Z\<close>, and \<open>DecodeAddress\<close> reads it back; so two addresses print alike only if they are equal.\<close>

theorem address_print_parse:
  assumes "address_wf a" "length (Raw a) = 20"
  shows "\<exists>s. fst (Address_String a) = Ok s \<and> length s = 34 \<and> hd s = CHR ''Z'' \<and>
    DecodeAddress s = Ok \<lparr>Raw = Raw a, Encoded = []\<rparr> \<and>
    (\<forall>b. address_wf b \<longrightarrow> fst (Address_String b) = Ok s \<longrightarrow> Raw b = Raw a)"
  using assms EncodeZif_20 [OF assms(2)] b58.enc_inj
  by (auto simp: fst_Address_String)

theorem address_print_parse_witness:
  "\<exists>s. fst (Address_String (peer_address (demo_raw 5))) = Ok s \<and> length s = 34 \<and> hd s = CHR ''Z'' \<and>
     DecodeAddress s = Ok (peer_address (demo_raw 5))"
  using address_print_parse [of "peer_address (demo_raw 5)"] by (auto simp: peer_address_def)

text \<open>\<open>Less\<close> on addresses of the same length is the order of the numbers their bytes stand for, most significant
  byte first.\<close>

theorem Address_Less_numeric:
  assumes "length (Raw a) = length (Raw b)"
  shows "Address_Less a b = Ok (SetBytes (Raw a) < SetBytes (Raw b))"
  using Less_loop_SetBytes [OF assms] by (simp add: Address_Less_def)

theorem Address_Less_numeric_witness:
  "Address_Less (peer_address [1, 0]) (peer_address [0, 255]) = Ok (SetBytes [1, 0] < SetBytes [0, 255]) \<and>
   \<not> SetBytes [1, 0] < SetBytes [0, 255]"
  using Address_Less_numeric [of "peer_address [1, 0]" "peer_address [0, 255]"]
  by (simp add: peer_address_def SetBytes_def)

text \<open>C29: The bucket index measures the XOR distance: of two 20 byte addresses the one in the bucket with the higher
  index is strictly closer to the local address, and indices are always between 0 and 159.\<close>

theorem bucket_index_closer:
  assumes "length (Raw me) = 20" "length (Raw a) = 20" "length (Raw b) = 20"
    and "bucket_index me a = Ok i" "bucket_index me b = Ok j"
  shows "0 \<le> i \<and> i < 160 \<and> (j < i \<longrightarrow> xor_distance a me < xor_distance b me)"
proof -
  note da = bucket_index_distance [OF assms(1,2,4)] and db = bucket_index_distance [OF assms(1,3,5)]
  have "xor_distance a me < xor_distance b me" if "j < i"
  proof -
    have "160 - nat i \<le> 159 - nat j" using that da(1,2) db(1) by linarith
    then have "(2 :: nat) ^ (160 - nat i) \<le> 2 ^ (159 - nat j)" by (rule power_increasing) simp
    with da(3) db(4) that da(2) show ?thesis by linarith
  qed
  with da(1,2) show ?thesis by simp
qed

theorem bucket_index_closer_witness:
  "\<exists>i j. bucket_index demo_me (peer_address (demo_raw 1)) = Ok i \<and>
     bucket_index demo_me (peer_address (demo_raw 2)) = Ok j \<and> j < i \<and>
     xor_distance (peer_address (demo_raw 1)) demo_me < xor_distance (peer_address (demo_raw 2)) demo_me"
proof -
  have r: "replicate 19 (0 :: byte) = [0, 0, 0, 0, 0, 0, 0, 0, 0, 0, 0, 0, 0, 0, 0, 0, 0, 0, 0]"
    by (simp add: numeral_eq_Suc)
  have z: "LeadingZeroes_byte 0 [0..<8] = None" by (simp add: upt_rec)
  have "bucket_index demo_me (peer_address (demo_raw 1)) = Ok 159"
    "bucket_index demo_me (peer_address (demo_raw 2)) = Ok 158"
    by (simp_all add: bucket_index_eq demo_me_def peer_address_def demo_raw_def r
        Address_LeadingZeroes_def z) (simp_all add: upt_rec)
  with bucket_index_closer [of demo_me "peer_address (demo_raw 1)" "peer_address (demo_raw 2)" 159 158]
  show ?thesis by (simp add: demo_me_def peer_address_def)
qed

text \<open>C24: A peer can sign its own entry: for a well-formed entry whose public key belongs to the private key, storing
  the signature of \<open>Bytes()\<close> gives an entry that every other peer's \<open>Verify\<close> accepts.\<close>

theorem sign_then_Verify:
  assumes "crypto_ok C" "length sk = PrivateKeySize" "PublicKey e = drop 32 sk"
    and "length (Raw (Address e)) = 20" "length (Name e) \<le> 32" "length (Desc e) \<le> 160"
    "length (Seeds e) \<le> 100000" "0 < length (PublicAddress e)" "length (PublicAddress e) < 253"
    "Port e \<le> 65535"
  shows "\<exists>msg sig. Entry_Bytes e = Ok msg \<and> ed25519_Sign C sk msg = Ok sig \<and>
    Entry_Verify C (Some (e\<lparr>Signature := sig\<rparr>)) = Ok ()"
  using sign_entry_valid [OF assms(1-7) _ assms(9,10)] assms(2,8)
  by (simp add: Entry_Bytes_signed ed25519_Sign_def Entry_Verify_iff)

theorem sign_then_Verify_witness:
  "\<exists>msg sig. Entry_Bytes (unsigned_entry 5 ''a'') = Ok msg \<and> ed25519_Sign demo_crypto demo_sk msg = Ok sig \<and>
     Entry_Verify demo_crypto (Some ((unsigned_entry 5 ''a'')\<lparr>Signature := sig\<rparr>)) = Ok ()"
  by (rule sign_then_Verify [OF demo_crypto_ok])
    (simp_all add: unsigned_entry_def empty_entry_def demo_sk_def PrivateKeySize_def peer_address_def)

text \<open>An entry with a public key of more than 32 bytes crashes every peer that verifies it: \<open>Verify\<close> only refuses
  keys that are too short, and the signature check panics on any other length than 32.\<close>

theorem Verify_long_key_panics:
  assumes "length (Raw (Address e)) = 20" "length (Name e) \<le> 32" "length (Desc e) \<le> 160"
    and "length (Seeds e) \<le> 100000" "length (PublicKey e) > 32" "length (Signature e) \<ge> 64"
  shows "Entry_Verify C (Some e) = Panic \<and> Insert C q e s = (Panic, s)"
  using assms Entry_Verify_panic [of C e] by (simp add: Insert_def bind_def lift_res_def)

theorem Verify_long_key_panics_witness:
  "Insert demo_crypto demo_sqlite ((demo_entry 5 ''a'')\<lparr>PublicKey := replicate 33 0\<rparr>) demo_ndb = (Panic, demo_ndb)"
  using Verify_long_key_panics [of "(demo_entry 5 ''a'')\<lparr>PublicKey := replicate 33 0\<rparr>" demo_crypto demo_sqlite demo_ndb]
    demo_entry_valid [of "''a''" 5]
  by (simp add: entry_valid_def)

text \<open>The signature does not fix where the name ends and the description begins: moving the boundary between the
  two fields of a valid entry gives another valid entry with the same signature.\<close>

theorem Verify_field_boundary:
  assumes "Entry_Verify C (Some e) = Ok ()" "Name e = n1 @ n2" "length (n2 @ Desc e) \<le> 160"
  shows "Entry_Verify C (Some (e\<lparr>Name := n1, Desc := n2 @ Desc e\<rparr>)) = Ok ()"
  using assms by (simp add: Entry_Verify_iff entry_valid_def signed_text_def)

theorem Verify_field_boundary_witness:
  "Entry_Verify demo_crypto (Some ((demo_entry 5 ''ab'')\<lparr>Name := ''a'', Desc := ''b''\<rparr>)) = Ok ()"
proof -
  have "Entry_Verify demo_crypto (Some (demo_entry 5 ''ab'')) = Ok ()" by (simp add: Entry_Verify_iff)
  from Verify_field_boundary [OF this, of "''a''" "''b''"] show ?thesis by simp
qed

text \<open>Verification does not bind an entry to its address: whoever has a key pair can make an entry for any 20 byte
  address that \<open>Verify\<close> accepts, whether or not the address was generated from that key.\<close>

theorem Verify_any_address:
  assumes "crypto_ok C" "length sk = PrivateKeySize" "length raw = 20"
  shows "\<exists>e. Raw (Address e) = raw \<and> PublicKey e = drop 32 sk \<and> Entry_Verify C (Some e) = Ok ()"
proof -
  let ?e = "empty_entry\<lparr>Address := peer_address raw, PublicAddress := ''host'', PublicKey := drop 32 sk\<rparr>"
  have "entry_valid C (?e\<lparr>Signature := ed_sign C sk (to_bytes (signed_text ?e))\<rparr>)"
    using assms by (intro sign_entry_valid) (simp_all add: empty_entry_def peer_address_def)
  then show ?thesis
    by (intro exI [of _ "?e\<lparr>Signature := ed_sign C sk (to_bytes (signed_text ?e))\<rparr>"])
      (simp add: Entry_Verify_iff peer_address_def)
qed

theorem Verify_any_address_witness:
  "\<exists>e. Raw (Address e) = demo_raw 1 \<and> PublicKey e = drop 32 demo_sk \<and> Entry_Verify demo_crypto (Some e) = Ok () \<and>
     Raw (NewAddress demo_crypto (drop 32 demo_sk)) \<noteq> demo_raw 1"
proof -
  have "Raw (NewAddress demo_crypto (drop 32 demo_sk)) = replicate 20 7"
    by (simp add: NewAddress_def Address_Generate_ok demo_sk_def demo_crypto_def pad_to_def Let_def)
  moreover have "replicate 20 (7 :: byte) ! 0 \<noteq> demo_raw 1 ! 0" by (simp add: demo_raw_def nth_append)
  then have "replicate 20 7 \<noteq> demo_raw 1" by metis
  ultimately show ?thesis
    using Verify_any_address [OF demo_crypto_ok, of demo_sk "demo_raw 1"] by (simp add: demo_sk_def PrivateKeySize_def)
qed

text \<open>An address that came from the network with its cached printed form is identified by that form alone: its raw
  bytes can be exchanged without invalidating the entry's signature.\<close>

theorem Verify_cached_address:
  assumes "Entry_Verify C (Some e) = Ok ()" "Encoded (Address e) \<noteq> []" "length raw = 20"
  shows "Entry_Verify C (Some (e\<lparr>Address := (Address e)\<lparr>Raw := raw\<rparr>\<rparr>)) = Ok ()"
  using assms by (simp add: Entry_Verify_iff entry_valid_def signed_text_def address_key_def)

theorem Verify_cached_address_witness:
  "\<exists>e. Entry_Verify demo_crypto (Some e) = Ok () \<and> Raw (Address e) = demo_raw 5 \<and>
     Entry_Verify demo_crypto (Some (e\<lparr>Address := (Address e)\<lparr>Raw := demo_raw 6\<rparr>\<rparr>)) = Ok ()"
proof -
  let ?u = "(unsigned_entry 5 ''a'')\<lparr>Address := \<lparr>Raw = demo_raw 5, Encoded = ''Z''\<rparr>\<rparr>"
  let ?e = "?u\<lparr>Signature := ed_sign demo_crypto demo_sk (to_bytes (signed_text ?u))\<rparr>"
  have "entry_valid demo_crypto ?e"
    by (rule sign_entry_valid [OF demo_crypto_ok])
      (simp_all add: unsigned_entry_def empty_entry_def demo_sk_def PrivateKeySize_def)
  then have "Entry_Verify demo_crypto (Some ?e) = Ok ()" by (simp add: Entry_Verify_iff)
  moreover from Verify_cached_address [OF this, of "demo_raw 6"]
  have "Entry_Verify demo_crypto (Some (?e\<lparr>Address := (Address ?e)\<lparr>Raw := demo_raw 6\<rparr>\<rparr>)) = Ok ()" by simp
  ultimately show ?thesis by (intro exI [of _ ?e]) simp
qed

text \<open>Reading an address never checks its checksum: the four checksum bytes of a printed address can be replaced by any
  others and \<open>DecodeAddress\<close> still returns the address; and a text that stands for a number of at most three
  bytes, like the empty one, makes it panic.\<close>

theorem DecodeAddress_unchecked:
  assumes "length c = 4" "DecodeToBig short = Ok n" "n < 2 ^ 24"
  shows "DecodeAddress (EncodeBig [] (SetBytes (0x51 # raw @ c))) = Ok (peer_address raw) \<and>
    DecodeAddress short = Panic"
  using Decode_ignores_checksum [OF assms(1), of raw] Decode_short_panics [OF assms(2)] assms(3)
  by (simp add: DecodeAddress_def peer_address_def)

theorem DecodeAddress_unchecked_witness:
  "DecodeAddress (EncodeBig [] (SetBytes (0x51 # demo_raw 5 @ [0, 0, 0, 0]))) = Ok (peer_address (demo_raw 5)) \<and>
   DecodeAddress [] = Panic"
  using DecodeAddress_unchecked [of "[0, 0, 0, 0]" "[]" 0 "demo_raw 5"] by (simp add: DecodeToBig_def)

end
