(* ===== verification/Posts.thy ===== *)
theory Posts
  imports Sha256
begin

text \<open>
  Posts and pieces, \<^verbatim>\<open>data/post.go\<close>, \<^verbatim>\<open>data/piece.go\<close>, the \<open>ErrorReader\<close> of \<^verbatim>\<open>data/errors.go\<close>, and how pieces
  travel: the stream \<open>HandlePiece\<close> (\<^verbatim>\<open>localpeerhandlers.go\<close>) writes and the loop with which
  \<open>Client.Pieces\<close> (\<^verbatim>\<open>proto/client.go\<close>) reads it.

  A hash object is the byte string written to it so far. The stream is what the gzip reader delivers
  until the connection is closed; compression is the identity on it. \<open>strconv.Itoa\<close> and
  \<open>strconv.Atoi\<close> are those of the prelude.
\<close>

section \<open>Posts\<close>

definition TitleMax :: nat where "TitleMax = 144"
definition TagsMax :: nat where "TagsMax = 256"
definition MaxPostSize :: nat where "MaxPostSize = TitleMax + TagsMax + 1024"

record post =
  Id :: int
  InfoHash :: string
  Title :: string
  Size :: int
  FileCount :: int
  Seeders :: int
  Leechers :: int
  UploadDate :: int
  Tags :: string
  Meta :: string

definition empty_post :: post where
  "empty_post = \<lparr>Id = 0, InfoHash = [], Title = [], Size = 0, FileCount = 0, Seeders = 0, Leechers = 0,
     UploadDate = 0, Tags = [], Meta = []\<rparr>"

text \<open>What \<open>Write\<close> appends to its writer.\<close>

definition Post_Write :: "string \<Rightarrow> string \<Rightarrow> bool \<Rightarrow> post \<Rightarrow> string" where
  "Post_Write sep term seedLeech p =
     Itoa (Id p) @ sep @ InfoHash p @ sep @ Title p @ sep @ Itoa (Size p) @ sep @ Itoa (FileCount p)
     @ (if seedLeech then sep @ Itoa (Seeders p) @ sep @ Itoa (Leechers p) else [])
     @ sep @ Itoa (UploadDate p) @ sep @ Tags p @ sep @ Meta p @ sep @ term"

definition Post_Bytes :: "bytes \<Rightarrow> bytes \<Rightarrow> bool \<Rightarrow> post \<Rightarrow> bytes" where
  "Post_Bytes sep term seedLeech p = to_bytes (Post_Write (to_string sep) (to_string term) seedLeech p)"

definition Post_String :: "string \<Rightarrow> string \<Rightarrow> bool \<Rightarrow> post \<Rightarrow> string" where
  "Post_String sep term seedLeech p = to_string (Post_Bytes (to_bytes sep) (to_bytes term) seedLeech p)"

text \<open>\<open>now\<close> is \<open>time.Now().Unix()\<close>.\<close>

definition Post_Valid :: "int \<Rightarrow> post \<Rightarrow> unit res" where
  "Post_Valid now p =
     (if length (Title p) > 140 then Err (ErrNew ''Title too long'')
      else if UploadDate p > now then Err (ErrNew ''Upload data cannot be in the future'')
      else Ok ())"

section \<open>Pieces\<close>

definition PieceSize :: nat where "PieceSize = 1000"

record piece =
  Piece_Id :: uint64
  Posts :: "post list"
  hashed :: bytes

definition Piece_Setup :: "piece \<Rightarrow> piece" where
  "Piece_Setup p = p\<lparr>hashed := []\<rparr>"

definition new_piece :: "uint64 \<Rightarrow> piece" where
  "new_piece i = Piece_Setup \<lparr>Piece_Id = i, Posts = [], hashed = []\<rparr>"

definition Piece_Add :: "post \<Rightarrow> bool \<Rightarrow> piece \<Rightarrow> unit res \<times> piece" where
  "Piece_Add x store p =
     (if length (Posts p) > PieceSize then (Err (ErrNew ''Piece full''), p)
      else
        (let p1 = (if store then p\<lparr>Posts := Posts p @ [x]\<rparr> else p);
             d = Post_String ''|'' '''' False x
         in (Ok (), p1\<lparr>hashed := hashed p1 @ to_bytes d\<rparr>)))"

definition Piece_Hash :: "crypto \<Rightarrow> piece \<Rightarrow> bytes" where
  "Piece_Hash C p = sha3_256 C (hashed p)"

definition Piece_Rehash :: "crypto \<Rightarrow> piece \<Rightarrow> bytes res \<times> piece" where
  "Piece_Rehash C p =
     (let p1 = p\<lparr>hashed := concat (map (Post_Bytes (to_bytes ''|'') [] False) (Posts p))\<rparr>
      in (Ok (sha3_256 C (hashed p1)), p1))"

section \<open>Reading\<close>

record reader =
  input :: string
  Err_field :: "err option"

definition NewErrorReader :: "string \<Rightarrow> reader" where
  "NewErrorReader s = \<lparr>input = s, Err_field = None\<rparr>"

text \<open>Without a delimiter \<open>bufio\<close> consumes everything and reports the end of the stream.\<close>

definition ReadString :: "char \<Rightarrow> reader \<Rightarrow> string \<times> reader" where
  "ReadString delim r =
     (case dropWhile (\<lambda>c. c \<noteq> delim) (input r) of
        [] \<Rightarrow> ([], \<lparr>input = [], Err_field = Some ErrEOF\<rparr>)
      | _ # rest \<Rightarrow> (takeWhile (\<lambda>c. c \<noteq> delim) (input r), \<lparr>input = rest, Err_field = None\<rparr>))"

definition ReadByte :: "reader \<Rightarrow> char res \<times> reader" where
  "ReadByte r =
     (case input r of
        [] \<Rightarrow> (Err ErrEOF, r\<lparr>Err_field := Some ErrEOF\<rparr>)
      | c # rest \<Rightarrow> (Ok c, \<lparr>input = rest, Err_field = None\<rparr>))"

definition convert :: "string \<Rightarrow> int" where
  "convert val = (case Atoi val of None \<Rightarrow> 0 | Some i \<Rightarrow> i)"

datatype post_read = Sentinel | Broken | Got post

text \<open>The body of the inner loop of \<open>Pieces\<close> up to the post it builds.\<close>

definition read_post :: "reader \<Rightarrow> post_read \<times> reader" where
  "read_post r =
     (let (id_s, r) = ReadString CHR ''|'' r in
      if convert id_s = - 1 then (Sentinel, r)
      else
        (let (ih, r) = ReadString CHR ''|'' r;
             (title, r) = ReadString CHR ''|'' r;
             (sz, r) = ReadString CHR ''|'' r;
             (filecount, r) = ReadString CHR ''|'' r;
             (seeders, r) = ReadString CHR ''|'' r;
             (leechers, r) = ReadString CHR ''|'' r;
             (uploaddate, r) = ReadString CHR ''|'' r;
             (tags, r) = ReadString CHR ''|'' r;
             (meta, r) = ReadString CHR ''|'' r
         in if Err_field r \<noteq> None then (Broken, r)
            else (Got \<lparr>Id = convert id_s, InfoHash = ih, Title = title, Size = convert sz,
                   FileCount = convert filecount, Seeders = convert seeders, Leechers = convert leechers,
                   UploadDate = convert uploaddate, Tags = tags, Meta = meta\<rparr>, r)))"

text \<open>The inner loop; the first argument is \<open>PieceSize - count\<close>.\<close>

fun read_piece :: "nat \<Rightarrow> piece \<Rightarrow> reader \<Rightarrow> piece \<times> reader" where
  "read_piece 0 p r = (p, r)"
| "read_piece (Suc n) p r =
     (case read_post r of
        (Got x, r') \<Rightarrow> read_piece n (snd (Piece_Add x True p)) r'
      | (_, r') \<Rightarrow> (p, r'))"

text \<open>The outer loop: the pieces sent into the channel, for \<open>length\<close> rounds.\<close>

fun read_pieces :: "nat \<Rightarrow> reader \<Rightarrow> piece list" where
  "read_pieces 0 r = []"
| "read_pieces (Suc n) r =
     (let (p, r') = read_piece PieceSize (new_piece 0) r in p # read_pieces n r')"

section \<open>Sending\<close>

text \<open>What \<open>HandlePiece\<close> writes for the posts of the query: the posts and the end marker.\<close>

definition send_posts :: "post list \<Rightarrow> string" where
  "send_posts ps =
     concat (map (Post_Write ''|'' '''' True) ps) @ Post_Write ''|'' '''' True (empty_post\<lparr>Id := - 1\<rparr>)"

section \<open>Reading what was written\<close>

text \<open>Posts that survive the transfer: no separator in a text field, 64 bit numbers, not the end marker.\<close>

definition wire_ok :: "post \<Rightarrow> bool" where
  "wire_ok p \<longleftrightarrow>
     list_all (\<lambda>s. CHR ''|'' \<notin> set s) [InfoHash p, Title p, Tags p, Meta p] \<and>
     list_all int_range [Id p, Size p, FileCount p, Seeders p, Leechers p, UploadDate p] \<and> Id p \<noteq> - 1"

lemma ReadString_field:
  "d \<notin> set s \<Longrightarrow> ReadString d \<lparr>input = s @ d # rest, Err_field = e\<rparr> = (s, \<lparr>input = rest, Err_field = None\<rparr>)"
proof -
  assume d: "d \<notin> set s"
  then have "takeWhile (\<lambda>c. c \<noteq> d) (s @ d # rest) = s" "dropWhile (\<lambda>c. c \<noteq> d) (s @ d # rest) = d # rest"
    by (induction s) auto
  then show ?thesis by (simp add: ReadString_def)
qed

lemma ReadString_empty [simp]: "ReadString d \<lparr>input = [], Err_field = e\<rparr> = ([], \<lparr>input = [], Err_field = Some ErrEOF\<rparr>)"
  by (simp add: ReadString_def)

lemma convert_Itoa [simp]: "int_range i \<Longrightarrow> convert (Itoa i) = i"
  by (simp add: convert_def Atoi_Itoa)

lemma convert_empty [simp]: "convert [] = 0"
  by (simp add: convert_def Atoi_def Atoi_digits_def)

lemma read_post_written:
  assumes "wire_ok p"
  shows "read_post \<lparr>input = Post_Write ''|'' '''' True p @ rest, Err_field = e\<rparr> =
    (Got p, \<lparr>input = rest, Err_field = None\<rparr>)"
  using assms Itoa_no_bar
  by (simp add: read_post_def Post_Write_def wire_ok_def ReadString_field)

text \<open>Of the end marker only its first field is read; what remains is not a whole post.\<close>

definition marker_rest :: string where
  "marker_rest = ''||0|0|0|0|0|||''"

lemma Itoa_0: "Itoa 0 = ''0''"
  by code_simp

lemma marker_written: "Post_Write ''|'' '''' True (empty_post\<lparr>Id := - 1\<rparr>) = Itoa (- 1) @ CHR ''|'' # marker_rest"
  by (simp add: Post_Write_def empty_post_def Itoa_0 marker_rest_def)

lemma read_post_sentinel:
  "read_post \<lparr>input = Post_Write ''|'' '''' True (empty_post\<lparr>Id := - 1\<rparr>), Err_field = e\<rparr> =
    (Sentinel, \<lparr>input = marker_rest, Err_field = None\<rparr>)"
  unfolding marker_written
  by (simp add: read_post_def ReadString_field Itoa_no_bar int_range_def)

lemma read_post_ended:
  "read_post \<lparr>input = marker_rest, Err_field = e\<rparr> = (Broken, \<lparr>input = [], Err_field = Some ErrEOF\<rparr>)"
  "read_post \<lparr>input = [], Err_field = e\<rparr> = (Broken, \<lparr>input = [], Err_field = Some ErrEOF\<rparr>)"
  by (simp_all add: read_post_def marker_rest_def ReadString_def)

section \<open>Pieces on the wire\<close>

definition piece_text :: "post list \<Rightarrow> bytes" where
  "piece_text ps = concat (map (\<lambda>x. to_bytes (Post_Write ''|'' '''' False x)) ps)"

definition piece_of :: "post list \<Rightarrow> piece" where
  "piece_of ps = \<lparr>Piece_Id = 0, Posts = ps, hashed = piece_text ps\<rparr>"

lemma Post_Bytes_bar: "Post_Bytes (to_bytes ''|'') [] False = (\<lambda>x. to_bytes (Post_Write ''|'' [] False x))"
  by (simp add: fun_eq_iff Post_Bytes_def)

lemma piece_text_simps [simp]: "piece_text [] = []"
  "piece_text (ps @ qs) = piece_text ps @ piece_text qs"
  by (simp_all add: piece_text_def)

lemma Piece_Add_ok:
  "length (Posts p) \<le> PieceSize \<Longrightarrow> Piece_Add x True p =
     (Ok (), p\<lparr>Posts := Posts p @ [x], hashed := hashed p @ piece_text [x]\<rparr>)"
  by (simp add: Piece_Add_def Post_String_def Post_Bytes_def piece_text_def Let_def)

lemma Piece_Add_piece_of:
  "length ps \<le> PieceSize \<Longrightarrow> snd (Piece_Add x True (piece_of ps)) = piece_of (ps @ [x])"
  by (simp add: Piece_Add_ok piece_of_def)

lemma read_piece_posts:
  assumes "list_all wire_ok ps" "length qs + n \<le> PieceSize"
  shows "read_piece n (piece_of qs) \<lparr>input = send_posts ps, Err_field = e\<rparr> =
    (if n \<le> length ps
     then (piece_of (qs @ take n ps), \<lparr>input = send_posts (drop n ps), Err_field = if n = 0 then e else None\<rparr>)
     else (piece_of (qs @ ps), \<lparr>input = marker_rest, Err_field = None\<rparr>))"
  using assms
proof (induction n arbitrary: ps qs e)
  case (Suc n)
  show ?case
  proof (cases ps)
    case Nil
    then show ?thesis by (simp add: send_posts_def read_post_sentinel)
  next
    case (Cons p ps')
    then have "read_post \<lparr>input = send_posts ps, Err_field = e\<rparr> = (Got p, \<lparr>input = send_posts ps', Err_field = None\<rparr>)"
      using Suc.prems(1) read_post_written [of p "send_posts ps'" e] by (simp add: send_posts_def)
    with Suc.IH [of ps' "qs @ [p]" None] Suc.prems Cons show ?thesis
      by (simp add: Piece_Add_piece_of)
  qed
qed simp

lemma new_piece_0: "new_piece 0 = piece_of []"
  by (simp add: new_piece_def Piece_Setup_def piece_of_def)

lemma PieceSize_Suc: "PieceSize = Suc 999"
  by (simp add: PieceSize_def)

lemma read_piece_ended:
  "read_piece PieceSize p \<lparr>input = marker_rest, Err_field = e\<rparr> = (p, \<lparr>input = [], Err_field = Some ErrEOF\<rparr>)"
  "read_piece PieceSize p \<lparr>input = [], Err_field = e\<rparr> = (p, \<lparr>input = [], Err_field = Some ErrEOF\<rparr>)"
  unfolding PieceSize_Suc read_piece.simps by (simp_all add: read_post_ended)

lemma read_pieces_ended:
  "read_pieces n \<lparr>input = [], Err_field = e\<rparr> = replicate n (piece_of [])"
  "read_pieces n \<lparr>input = marker_rest, Err_field = e\<rparr> = replicate n (piece_of [])"
proof -
  show "read_pieces n \<lparr>input = [], Err_field = e\<rparr> = replicate n (piece_of [])" for n e
    by (induction n arbitrary: e) (simp_all add: read_piece_ended new_piece_0)
  then show "read_pieces n \<lparr>input = marker_rest, Err_field = e\<rparr> = replicate n (piece_of [])"
    by (cases n) (simp_all add: read_piece_ended new_piece_0)
qed

lemma read_pieces_posts:
  assumes "list_all wire_ok ps"
  shows "read_pieces n \<lparr>input = send_posts ps, Err_field = e\<rparr> =
    map (\<lambda>i. piece_of (take PieceSize (drop (PieceSize * i) ps))) [0..<n]"
  using assms
proof (induction n arbitrary: ps e)
  case (Suc n)
  have upt: "[0..<Suc n] = 0 # map Suc [0..<n]" by (simp add: map_Suc_upt upt_conv_Cons del: upt_Suc)
  note first = read_piece_posts [OF Suc.prems, of "[]" PieceSize e, simplified]
  show ?case
  proof (cases "PieceSize \<le> length ps")
    case True
    have "list_all wire_ok (drop PieceSize ps)"
      using Suc.prems by (auto simp: list_all_iff dest: in_set_dropD)
    with Suc.IH [of "drop PieceSize ps"] True show ?thesis
      unfolding upt by (simp add: first new_piece_0 comp_def add.commute)
  next
    case False
    then have "drop (PieceSize + PieceSize * i) ps = []" for i by simp
    with False show ?thesis
      unfolding upt
      by (simp add: first new_piece_0 comp_def read_pieces_ended map_replicate_const)
  qed
qed simp

section \<open>What a piece hash binds\<close>

text \<open>Two separated fields are determined by the text, if neither contains the separator.\<close>

lemma field_inj:
  "d \<notin> set s \<Longrightarrow> d \<notin> set t \<Longrightarrow> s @ d # x = t @ d # y \<longleftrightarrow> s = t \<and> x = y"
  by (induction s arbitrary: t; case_tac t) auto

lemma Itoa_inj: "int_range i \<Longrightarrow> int_range j \<Longrightarrow> Itoa i = Itoa j \<longleftrightarrow> i = j"
  by (metis Atoi_Itoa option.inject)

text \<open>The part of a post that never changes: all but the counts of seeders and leechers.\<close>

definition immutable_part :: "post \<Rightarrow> post" where
  "immutable_part p = p\<lparr>Seeders := 0, Leechers := 0\<rparr>"

lemma immutable_part_eq:
  "immutable_part p = immutable_part q \<longleftrightarrow>
     Id p = Id q \<and> InfoHash p = InfoHash q \<and> Title p = Title q \<and> Size p = Size q \<and>
     FileCount p = FileCount q \<and> UploadDate p = UploadDate q \<and> Tags p = Tags q \<and> Meta p = Meta q"
  by (cases p; cases q) (auto simp: immutable_part_def)

lemma Post_Write_inj:
  assumes "wire_ok p" "wire_ok q"
  shows "Post_Write ''|'' '''' False p @ x = Post_Write ''|'' '''' False q @ y \<longleftrightarrow>
    immutable_part p = immutable_part q \<and> x = y"
  using assms
  by (simp add: Post_Write_def wire_ok_def field_inj Itoa_no_bar Itoa_inj immutable_part_eq)

lemma Post_Write_nonempty: "Post_Write ''|'' '''' b p \<noteq> []"
  by (simp add: Post_Write_def)

lemma post_texts_inj:
  assumes "list_all wire_ok ps" "list_all wire_ok qs"
    "concat (map (Post_Write ''|'' '''' False) ps) = concat (map (Post_Write ''|'' '''' False) qs)"
  shows "map immutable_part ps = map immutable_part qs"
  using assms
proof (induction ps arbitrary: qs)
  case Nil
  then show ?case by (cases qs) (auto simp: Post_Write_nonempty)
next
  case (Cons p ps)
  then show ?case by (cases qs) (auto simp: Post_Write_nonempty Post_Write_inj)
qed

lemma piece_text_string: "piece_text ps = to_bytes (concat (map (Post_Write ''|'' '''' False) ps))"
  by (induction ps) (simp_all add: piece_text_def)

text \<open>One post alone, as a value of the codec interface.\<close>

definition decode_post :: "string \<Rightarrow> post res" where
  "decode_post s =
     (case read_post (NewErrorReader s) of (Got p, r) \<Rightarrow> Ok p | _ \<Rightarrow> Err ErrEOF)"

interpretation wire: codec "Post_Write ''|'' '''' True" decode_post wire_ok
  using read_post_written [of _ "[]"] by unfold_locales (simp add: decode_post_def NewErrorReader_def)

section \<open>Properties\<close>

text \<open>Pieces survive the transfer: reading \<open>n\<close> pieces from the stream another peer wrote for a list of posts gives
  the posts cut into runs of 1000, in order (empty pieces once the posts are exhausted), and each piece
  has the hash of its posts. The posts must not contain the separator in a text field.\<close>

theorem pieces_roundtrip:
  assumes "list_all wire_ok ps"
  shows "map Posts (read_pieces n (NewErrorReader (send_posts ps))) =
      map (\<lambda>i. take 1000 (drop (1000 * i) ps)) [0..<n] \<and>
    list_all (\<lambda>p. fst (Piece_Rehash C p) = Ok (Piece_Hash C p))
      (read_pieces n (NewErrorReader (send_posts ps)))"
  unfolding NewErrorReader_def read_pieces_posts [OF assms]
  by (simp add: comp_def piece_of_def PieceSize_def list_all_iff Piece_Hash_def Piece_Rehash_def
      piece_text_def Post_Bytes_bar Let_def)

definition demo_post :: "int \<Rightarrow> post" where
  "demo_post i = empty_post\<lparr>Id := i, Title := ''t'', Seeders := 4\<rparr>"

theorem pieces_roundtrip_witness:
  "map Posts (read_pieces 2 (NewErrorReader (send_posts [demo_post 1, demo_post 2]))) =
     [[demo_post 1, demo_post 2], []]"
proof -
  have "list_all wire_ok [demo_post 1, demo_post 2]"
    by (simp add: wire_ok_def demo_post_def empty_post_def int_range_def)
  from pieces_roundtrip [OF this, of 2] show ?thesis by (simp add: upt_rec numeral_2_eq_2)
qed

text \<open>C25: The bytes a piece hash covers determine its posts up to their counts of seeders and leechers: two lists of
  posts, without the separator in a text field, with the same hashed text agree on every other field, in
  number and order.\<close>

theorem piece_hash_binds:
  assumes "list_all wire_ok ps" "list_all wire_ok qs"
    and "hashed (snd (Piece_Rehash C \<lparr>Piece_Id = i, Posts = ps, hashed = h\<rparr>)) =
      hashed (snd (Piece_Rehash C \<lparr>Piece_Id = j, Posts = qs, hashed = h'\<rparr>))"
  shows "map immutable_part ps = map immutable_part qs"
proof -
  have "hashed (snd (Piece_Rehash C \<lparr>Piece_Id = i, Posts = ps, hashed = h\<rparr>)) = piece_text ps" for i ps h
    by (simp add: Piece_Rehash_def Let_def piece_text_def Post_Bytes_bar)
  with assms(3) have "piece_text ps = piece_text qs" by simp
  then show ?thesis by (intro post_texts_inj [OF assms(1,2)]) (simp add: piece_text_string)
qed

theorem piece_hash_binds_witness:
  "map immutable_part [demo_post 1] = map immutable_part [(demo_post 1)\<lparr>Seeders := 9\<rparr>] \<and>
   [demo_post 1] \<noteq> [(demo_post 1)\<lparr>Seeders := 9\<rparr>]"
proof -
  have ok: "list_all wire_ok [demo_post 1]" "list_all wire_ok [(demo_post 1)\<lparr>Seeders := 9\<rparr>]"
    by (simp_all add: wire_ok_def demo_post_def empty_post_def int_range_def)
  have "map immutable_part [demo_post 1] = map immutable_part [(demo_post 1)\<lparr>Seeders := 9\<rparr>]"
    by (rule piece_hash_binds [OF ok, of undefined 0 "[]" 0 "[]"])
      (simp add: Piece_Rehash_def Let_def Post_Bytes_def Post_Write_def)
  then show ?thesis by (simp add: demo_post_def empty_post_def)
qed

text \<open>A separator inside a title shifts every later field of the post.\<close>

lemma bar_in_title:
  "read_post (NewErrorReader (Post_Write ''|'' '''' True ((demo_post 1)\<lparr>Title := ''a|b''\<rparr>) @ ''x|'')) =
     (Got ((demo_post 1)\<lparr>Title := ''a'', Seeders := 0, Leechers := 4, Tags := ''0''\<rparr>), \<lparr>input = ''|x|'', Err_field = None\<rparr>)"
  by code_simp

end
