(* ===== verification/Collections.thy ===== *)
theory Collections
  imports Posts Proc
begin

text \<open>
  Collections of pieces, \<^verbatim>\<open>data/collection.go\<close>, and the message that carries a hash list,
  \<open>MessageCollection\<close> of \<^verbatim>\<open>proto/messages.go\<close>. The hash list is a Go slice with its capacity, because
  \<open>Add\<close> slices beyond the length. Files are a map from paths to contents; an operation of
  \<^verbatim>\<open>io/ioutil\<close> fails when the file does not exist or the script \<open>fs_faults\<close> says so.
\<close>

section \<open>Files\<close>

record fs =
  files :: "string \<Rightarrow> bytes option"
  fs_faults :: "bool list"

definition fs_call :: "(fs, unit) proc" where
  "fs_call s =
     (case fs_faults s of
        [] \<Rightarrow> (Ok (), s)
      | b # bs \<Rightarrow> (if b then Err ErrDriver else Ok (), s\<lparr>fs_faults := bs\<rparr>))"

definition ReadFile :: "string \<Rightarrow> (fs, bytes) proc" where
  "ReadFile path =
     bind fs_call (\<lambda>_ s. (case files s path of None \<Rightarrow> Err ErrDriver | Some d \<Rightarrow> Ok d, s))"

definition WriteFile :: "string \<Rightarrow> bytes \<Rightarrow> (fs, unit) proc" where
  "WriteFile path d = bind fs_call (\<lambda>_. modify (\<lambda>s. s\<lparr>files := (files s)(path := Some d)\<rparr>))"

section \<open>Collections\<close>

record collection =
  Pieces :: "piece list"
  HashList :: "byte slice"
  RootHash :: bytes

definition NewCollection :: collection where
  "NewCollection = \<lparr>Pieces = [], HashList = slice_of [], RootHash = []\<rparr>"

text \<open>\<open>copy(s[lo:lo+32], h)\<close> into an array with room for it.\<close>

definition overwrite :: "nat \<Rightarrow> 'a list \<Rightarrow> 'a list \<Rightarrow> 'a list" where
  "overwrite lo xs buf = take lo buf @ xs @ drop (lo + length xs) buf"

text \<open>\<open>extra\<close> is the capacity \<open>append\<close> allocates beyond the need, if it allocates.\<close>

definition Collection_Add :: "crypto \<Rightarrow> bytes \<Rightarrow> piece \<Rightarrow> collection \<Rightarrow> collection res" where
  "Collection_Add C extra p c =
     (let h = Piece_Hash C p;
          lo = Piece_Id p * 32;
          hi = Piece_Id p * 32 + 32
      in if (of_nat (slen (HashList c)) :: uint64) < Piece_Id p + 1
         then Ok (c\<lparr>HashList := sappend extra (HashList c) h, RootHash := RootHash c @ h\<rparr>)
         else if hi < lo \<or> unat hi > scap (HashList c) then Panic
         else Ok (c\<lparr>HashList := (HashList c)\<lparr>sbuf := overwrite (unat lo) (take 32 h) (sbuf (HashList c))\<rparr>,
                    RootHash := RootHash c @ h\<rparr>))"

definition Collection_Hash :: "crypto \<Rightarrow> collection \<Rightarrow> bytes" where
  "Collection_Hash C c = sha3_256 C (RootHash c)"

fun write_chunks :: "nat \<Rightarrow> bytes \<Rightarrow> bytes" where
  "write_chunks 0 hl = []"
| "write_chunks (Suc n) hl = write_chunks n hl @ take 32 (drop (n * 32) hl)"

definition Collection_Rehash :: "collection \<Rightarrow> collection" where
  "Collection_Rehash c = c\<lparr>RootHash := write_chunks (slen (HashList c) div 32) (sdata (HashList c))\<rparr>"

definition Collection_Save :: "string \<Rightarrow> collection \<Rightarrow> (fs, unit) proc" where
  "Collection_Save path c = WriteFile path (sdata (HashList c))"

definition LoadCollection :: "string \<Rightarrow> (fs, collection) proc" where
  "LoadCollection path =
     bind (ReadFile path) (\<lambda>d.
       if length d mod 32 \<noteq> 0 then fail (ErrNew ''Invalid collection data file'')
       else ret (Collection_Rehash (NewCollection\<lparr>HashList := slice_of d\<rparr>)))"

section \<open>Hash lists from other peers\<close>

record mcollection =
  MC_Hash :: bytes
  MC_HashList :: "byte slice"
  MC_Size :: int
  MC_Signature :: bytes

text \<open>The loop of \<open>Verify\<close>: \<open>HashList[32*i : 32*i+32]\<close> panics beyond the capacity.\<close>

fun verify_chunks :: "nat \<Rightarrow> byte slice \<Rightarrow> bytes res" where
  "verify_chunks 0 s = Ok []"
| "verify_chunks (Suc n) s =
     res_bind (verify_chunks n s) (\<lambda>w.
       if 32 * n + 32 > scap s then Panic else Ok (w @ take 32 (drop (32 * n) (sbuf s))))"

definition MessageCollection_Verify :: "crypto \<Rightarrow> mcollection \<Rightarrow> bytes \<Rightarrow> unit res" where
  "MessageCollection_Verify C m root =
     res_bind (verify_chunks (nat (MC_Size m)) (MC_HashList m)) (\<lambda>w.
       if sha3_256 C w \<noteq> root then Err (ErrNew ''Invalid hash list'') else Ok ())"

section \<open>Chunks\<close>

lemma write_chunks_take: "n * 32 \<le> length hl \<Longrightarrow> write_chunks n hl = take (n * 32) hl"
proof (induction n)
  case (Suc n)
  have "take (n * 32 + 32) hl = take (n * 32) hl @ take 32 (drop (n * 32) hl)" by (rule take_add)
  with Suc show ?case by (simp add: add.commute)
qed simp

lemma Rehash_whole:
  assumes "slice_ok (HashList c)" "slen (HashList c) mod 32 = 0"
  shows "RootHash (Collection_Rehash c) = sdata (HashList c)"
proof -
  have "slen (HashList c) div 32 * 32 = slen (HashList c)" using assms(2) by auto
  then show ?thesis
    using assms(1) by (simp add: Collection_Rehash_def write_chunks_take)
qed

lemma verify_chunks_eq:
  "verify_chunks n s = (if n = 0 \<or> 32 * n \<le> scap s then Ok (take (32 * n) (sbuf s)) else Panic)"
proof (induction n)
  case (Suc n)
  have "take (32 * n + 32) (sbuf s) = take (32 * n) (sbuf s) @ take 32 (drop (32 * n) (sbuf s))"
    by (rule take_add)
  with Suc show ?case by (auto simp: add.commute)
qed simp

lemma MessageCollection_Verify_eq:
  "MessageCollection_Verify C m root =
     (let n = nat (MC_Size m) in
      if n \<noteq> 0 \<and> 32 * n > scap (MC_HashList m) then Panic
      else if sha3_256 C (take (32 * n) (sbuf (MC_HashList m))) = root then Ok ()
      else Err (ErrNew ''Invalid hash list''))"
  by (auto simp: MessageCollection_Verify_def verify_chunks_eq Let_def)

section \<open>Adding pieces\<close>

lemma length_overwrite: "lo + length xs \<le> length buf \<Longrightarrow> length (overwrite lo xs buf) = length buf"
  by (simp add: overwrite_def)

text \<open>Once the list holds one hash, no piece with a number below 32 makes it longer.\<close>

lemma Collection_Add_keeps_length:
  assumes "slen (HashList c) = 32" "Piece_Id p < 32" "Collection_Add C extra p c = Ok c'"
  shows "slen (HashList c') = 32"
proof -
  have "\<not> (of_nat (slen (HashList c)) :: uint64) < Piece_Id p + 1"
    using assms(1,2) by (simp add: word_less_nat_alt unat_word_ariths)
  with assms(1,3) show ?thesis
    by (auto simp: Collection_Add_def Let_def simp del: not_less split: if_splits)
qed

section \<open>Properties\<close>

text \<open>C26: A published hash list is accepted: saving a collection and loading it again gives the same hash list, the
  root hash of the loaded collection is the hash of the whole list, and the message a peer sends for it,
  with the number of hashes as its size, passes \<open>Verify\<close> against that root hash.\<close>

theorem hash_list_verifies:
  assumes "slice_ok (HashList c)" "slen (HashList c) mod 32 = 0" "fs_faults s = []"
  shows "\<exists>s' c'. Collection_Save path c s = (Ok (), s') \<and> LoadCollection path s' = (Ok c', s') \<and>
    sdata (HashList c') = sdata (HashList c) \<and>
    Collection_Hash C c' = sha3_256 C (sdata (HashList c)) \<and>
    MessageCollection_Verify C \<lparr>MC_Hash = mh, MC_HashList = slice_of (sdata (HashList c)),
      MC_Size = int (length (sdata (HashList c)) div 32), MC_Signature = sg\<rparr> (Collection_Hash C c') = Ok ()"
proof -
  let ?d = "sdata (HashList c)"
  let ?c = "Collection_Rehash (NewCollection\<lparr>HashList := slice_of ?d\<rparr>)"
  let ?s = "s\<lparr>files := (files s)(path := Some ?d)\<rparr>"
  have len: "length ?d mod 32 = 0" "32 * (length ?d div 32) = length ?d" using assms(1,2) by auto
  have "RootHash ?c = ?d"
    using Rehash_whole [of "NewCollection\<lparr>HashList := slice_of ?d\<rparr>"] len(1) by simp
  then have root: "Collection_Hash C ?c = sha3_256 C ?d" by (simp add: Collection_Hash_def)
  have "sdata (HashList ?c) = ?d" by (simp add: Collection_Rehash_def)
  moreover have "Collection_Save path c s = (Ok (), ?s)" "LoadCollection path ?s = (Ok ?c, ?s)"
    using assms(3) len(1)
    by (simp_all add: Collection_Save_def WriteFile_def LoadCollection_def ReadFile_def bind_def fs_call_def modify_def ret_def)
  ultimately show ?thesis
    using root len(2) by (intro exI [of _ ?s] exI [of _ ?c]) (simp add: MessageCollection_Verify_eq Let_def)
qed

theorem hash_list_verifies_witness:
  "\<exists>s' c'. Collection_Save ''c'' (NewCollection\<lparr>HashList := slice_of (replicate 64 7)\<rparr>) \<lparr>files = (\<lambda>_. None), fs_faults = []\<rparr> = (Ok (), s') \<and>
     LoadCollection ''c'' s' = (Ok c', s') \<and> sdata (HashList c') = replicate 64 7"
  using hash_list_verifies [of "NewCollection\<lparr>HashList := slice_of (replicate 64 7)\<rparr>" "\<lparr>files = (\<lambda>_. None), fs_faults = []\<rparr>" "''c''" demo_crypto "[]" "[]"]
  by auto

text \<open>A hash list with a size beyond its content crashes the peer that receives it: \<open>Verify\<close> slices the list
  without comparing the announced size with its length. For every other size it accepts exactly the lists whose
  first hashes have the given root hash.\<close>

theorem MessageCollection_Verify_size:
  assumes "MC_Size m > 0"
  shows "MessageCollection_Verify C m root =
    (if 32 * MC_Size m > int (scap (MC_HashList m)) then Panic
     else if sha3_256 C (take (nat (32 * MC_Size m)) (sbuf (MC_HashList m))) = root then Ok ()
     else Err (ErrNew ''Invalid hash list''))"
proof -
  have "32 * nat (MC_Size m) = nat (32 * MC_Size m)" using assms by linarith
  moreover have "32 * nat (MC_Size m) > scap (MC_HashList m) \<longleftrightarrow> 32 * MC_Size m > int (scap (MC_HashList m))"
    using assms by linarith
  ultimately show ?thesis using assms by (simp add: MessageCollection_Verify_eq Let_def)
qed

theorem MessageCollection_Verify_size_witness:
  "MessageCollection_Verify demo_crypto \<lparr>MC_Hash = [], MC_HashList = slice_of [1, 2, 3], MC_Size = 1, MC_Signature = []\<rparr> [] = Panic"
  using MessageCollection_Verify_size
    [of "\<lparr>MC_Hash = [], MC_HashList = slice_of [1, 2, 3], MC_Size = 1, MC_Signature = []\<rparr>" demo_crypto "[]"]
  by (simp add: slice_of_def)

lemma second_piece:
  assumes "crypto_ok C" "Piece_Id p0 = 0" "Piece_Id p1 = 1"
  shows "\<exists>c. Collection_Add C extra p0 NewCollection = Ok c \<and> sdata (HashList c) = Piece_Hash C p0 \<and>
    (if length extra < 32 then Collection_Add C extra' p1 c = Panic
     else \<exists>c'. Collection_Add C extra' p1 c = Ok c' \<and> sdata (HashList c') = Piece_Hash C p0)"
proof -
  let ?h = "Piece_Hash C p0" and ?h1 = "Piece_Hash C p1"
  let ?c = "NewCollection\<lparr>HashList := sappend extra (slice_of []) ?h, RootHash := ?h\<rparr>"
  have len: "length ?h = 32" "length ?h1 = 32" using assms(1) by (simp_all add: Piece_Hash_def crypto_ok_lengths)
  have s: "sappend extra (slice_of []) ?h = \<lparr>sbuf = ?h @ extra, slen = 32\<rparr>"
    using len by (simp add: sappend_def slice_of_def sdata_def)
  have "Collection_Add C extra p0 NewCollection = Ok ?c"
    using assms(2) by (simp add: Collection_Add_def NewCollection_def slice_of_def Let_def)
  moreover have "sdata (HashList ?c) = ?h" by (simp add: s sdata_def len)
  moreover have "Collection_Add C extra' p1 ?c = (if length extra < 32 then Panic
      else Ok (?c\<lparr>HashList := \<lparr>sbuf = overwrite 32 ?h1 (?h @ extra), slen = 32\<rparr>, RootHash := ?h @ ?h1\<rparr>))"
    using assms(3) len by (simp add: Collection_Add_def s Let_def NewCollection_def)
  moreover have "sdata \<lparr>sbuf = overwrite 32 ?h1 (?h @ extra), slen = 32\<rparr> = ?h"
    using len by (simp add: sdata_def overwrite_def)
  ultimately show ?thesis by (intro exI [of _ ?c]) simp
qed

text \<open>A collection never grows beyond its first piece: \<open>Add\<close> compares the length of the hash list in bytes with
  the number of the piece. After piece 0, adding piece 1 either panics, which is what happens when \<open>append\<close>
  allocated less than 64 bytes, or leaves the visible hash list as it was.\<close>

theorem Collection_Add_second_piece:
  assumes "crypto_ok C" "Piece_Id p0 = 0" "Piece_Id p1 = 1"
  shows "\<exists>c. Collection_Add C extra p0 NewCollection = Ok c \<and> sdata (HashList c) = Piece_Hash C p0 \<and>
    (if length extra < 32 then Collection_Add C extra' p1 c = Panic
     else \<exists>c'. Collection_Add C extra' p1 c = Ok c' \<and> sdata (HashList c') = Piece_Hash C p0)"
  using assms by (rule second_piece)

theorem Collection_Add_second_piece_witness:
  "\<exists>c. Collection_Add demo_crypto [] (new_piece 0) NewCollection = Ok c \<and>
     Collection_Add demo_crypto [] (new_piece 1) c = Panic"
  using Collection_Add_second_piece [OF demo_crypto_ok, of "new_piece 0" "new_piece 1" "[]" "[]"]
  by (auto simp: new_piece_def Piece_Setup_def)

end
