(* ===== verification/Post_Store.thy ===== *)
theory Post_Store
  imports Collections
begin

text \<open>
  The post database, \<^verbatim>\<open>data/database.go\<close> with the statements of \<^verbatim>\<open>data/sql.go\<close>, \<open>CreateCollection\<close> of
  \<^verbatim>\<open>data/collection.go\<close> and the search provider of \<^verbatim>\<open>data/search.go\<close>. The table is the list of its rows in
  row id order; where SQL leaves the order of equal rows open, it is the row order here.

  Parameters that stand for SQLite: the text a \<open>STRING\<close> column gives back (\<open>text_affinity\<close>), the full
  text search (\<open>title_match\<close>) and \<open>LIKE\<close>. The title index is a list of the row ids and titles that
  were indexed; its other columns are read from the post table, which is its content table. All
  statements run on one connection; \<open>pfaults\<close> is the script of driver failures.
\<close>

section \<open>State\<close>

record psqlite =
  text_affinity :: "string \<Rightarrow> string"
  title_match :: "(int \<times> string) list \<Rightarrow> string \<Rightarrow> int list res"
  sql_like :: "string \<Rightarrow> string \<Rightarrow> bool"

record pstore =
  post_tbl :: "post list"
  fts_post :: "(int \<times> string) list"
  plast_rowid :: int
  pfaults :: "bool list"

definition empty_pstore :: pstore where
  "empty_pstore = \<lparr>post_tbl = [], fts_post = [], plast_rowid = 0, pfaults = []\<rparr>"

definition db_call :: "(pstore, unit) proc" where
  "db_call s =
     (case pfaults s of
        [] \<Rightarrow> (Ok (), s)
      | b # bs \<Rightarrow> (if b then Err ErrDriver else Ok (), s\<lparr>pfaults := bs\<rparr>))"

text \<open>\<open>LIMIT off, cnt\<close>: a negative count is no limit, a negative offset is zero.\<close>

definition sql_limit :: "int \<Rightarrow> int \<Rightarrow> 'a list \<Rightarrow> 'a list" where
  "sql_limit off cnt xs = (let ys = drop (nat off) xs in if cnt < 0 then ys else take (nat cnt) ys)"

text \<open>The driver refuses an unsigned argument with the high bit set.\<close>

definition uint_arg :: "uint64 \<Rightarrow> (pstore, int) proc" where
  "uint_arg w = (if unat w \<ge> 2 ^ 63 then fail ErrDriver else ret (int (unat w)))"

section \<open>Statements\<close>

definition sql_insert_post :: "psqlite \<Rightarrow> post \<Rightarrow> (pstore, int) proc" where
  "sql_insert_post q p =
     bind db_call (\<lambda>_ s.
       let ih = text_affinity q (InfoHash p) in
       if list_ex (\<lambda>r. InfoHash r = ih) (post_tbl s) then (Ok (plast_rowid s), s)
       else
         (let i = 1 + foldl max 0 (map Id (post_tbl s));
              row = p\<lparr>Id := i, InfoHash := ih, Title := text_affinity q (Title p),
                      Tags := text_affinity q (Tags p), Meta := text_affinity q (Meta p)\<rparr>
          in (Ok i, s\<lparr>post_tbl := post_tbl s @ [row], plast_rowid := i\<rparr>)))"

definition sql_attach_meta :: "psqlite \<Rightarrow> int \<Rightarrow> string \<Rightarrow> (pstore, unit) proc" where
  "sql_attach_meta q pid value =
     bind db_call (\<lambda>_. modify (\<lambda>s. s\<lparr>post_tbl :=
       map (\<lambda>r. if Id r = pid then r\<lparr>Meta := text_affinity q value\<rparr> else r) (post_tbl s)\<rparr>))"

definition sql_generate_fts :: "int \<Rightarrow> (pstore, unit) proc" where
  "sql_generate_fts since =
     bind db_call (\<lambda>_. modify (\<lambda>s. s\<lparr>fts_post := foldl (\<lambda>ix r.
         if Id r \<ge> since \<and> \<not> list_ex (\<lambda>d. fst d = Id r) ix then ix @ [(Id r, Title r)] else ix)
       (fts_post s) (post_tbl s)\<rparr>))"

definition sql_query_recent_post :: "int \<Rightarrow> int \<Rightarrow> pstore \<Rightarrow> post list" where
  "sql_query_recent_post off cnt s = sql_limit off cnt (sort_key (\<lambda>r. - UploadDate r) (post_tbl s))"

definition sql_query_popular_post :: "int \<Rightarrow> int \<Rightarrow> pstore \<Rightarrow> post list" where
  "sql_query_popular_post off cnt s =
     sql_limit off cnt (sort_key (\<lambda>r. - (Seeders r + Leechers r))
       (take 10000 (sort_key (\<lambda>r. - UploadDate r) (post_tbl s))))"

definition sql_query_post_id :: "int \<Rightarrow> pstore \<Rightarrow> post list" where
  "sql_query_post_id i s = filter (\<lambda>r. Id r = i) (post_tbl s)"

definition sql_query_paged_post :: "int \<Rightarrow> int \<Rightarrow> pstore \<Rightarrow> post list" where
  "sql_query_paged_post after cnt s = sql_limit 0 cnt (filter (\<lambda>r. Id r > after) (post_tbl s))"

text \<open>The weight \<open>(seeders * 1.1) + leechers\<close> is kept in tenths.\<close>

definition weight :: "pstore \<Rightarrow> int \<Rightarrow> int" where
  "weight s i =
     (case find (\<lambda>r. Id r = i) (post_tbl s) of
        None \<Rightarrow> 0
      | Some r \<Rightarrow> 11 * Seeders r + 10 * Leechers r)"

definition sql_search_post :: "psqlite \<Rightarrow> string \<Rightarrow> int \<Rightarrow> int \<Rightarrow> pstore \<Rightarrow> int list res" where
  "sql_search_post q query off cnt s =
     res_bind (title_match q (fts_post s) query) (\<lambda>ids.
       Ok (sql_limit off cnt (sort_key (\<lambda>i. - weight s i) ids)))"

definition sql_suggest_posts :: "psqlite \<Rightarrow> string \<Rightarrow> int \<Rightarrow> pstore \<Rightarrow> string list" where
  "sql_suggest_posts q query cnt s =
     map Title (sql_limit 0 cnt (sort_key (\<lambda>r. - (11 * Seeders r + 10 * Leechers r))
       (filter (\<lambda>r. sql_like q query (Title r))
         (take 100000 (sort_key (\<lambda>r. - UploadDate r) (post_tbl s))))))"

section \<open>The database\<close>

text \<open>\<open>Connect\<close>: opening the file, then the three schema statements; the pragma's error is ignored.\<close>

definition Connect :: "(pstore, unit) proc" where
  "Connect =
     bind db_call (\<lambda>_.
     bind (attempt db_call) (\<lambda>_.
     bind db_call (\<lambda>_. bind db_call (\<lambda>_. db_call))))"

text \<open>
  A transaction: open since the given state, finished by a failed commit, or nil
  after a failed \<open>Begin\<close>. A failed commit rolls back.
\<close>

datatype tx = TxOpen pstore | TxDone | TxNil

definition tx_Commit :: "pstore \<Rightarrow> (pstore, unit) proc" where
  "tx_Commit snap s =
     (case db_call s of
        (Ok _, s1) \<Rightarrow> (Ok (), s1)
      | (r, s1) \<Rightarrow> (r, snap\<lparr>pfaults := pfaults s1\<rparr>))"

text \<open>Eight arguments for the nine placeholders of \<open>sql_insert_post\<close>: the driver refuses.\<close>

definition tx_Exec_8_args :: "post \<Rightarrow> (pstore, unit) proc" where
  "tx_Exec_8_args p = bind db_call (\<lambda>_. fail ErrDriver)"

text \<open>\<open>Begin\<close> that fails leaves a nil transaction, on which the deferred \<open>Rollback\<close> panics.\<close>

definition InsertPiece :: "piece \<Rightarrow> (pstore, unit) proc" where
  "InsertPiece p s =
     (case db_call s of
        (Err e, s1) \<Rightarrow> (Panic, s1)
      | (Panic, s1) \<Rightarrow> (Panic, s1)
      | (Ok _, s1) \<Rightarrow>
          (case forM (Posts p) tx_Exec_8_args s1 of
             (Ok _, s2) \<Rightarrow> tx_Commit s1 s2
           | (Err e, s2) \<Rightarrow> (Err e, s1\<lparr>pfaults := pfaults s2\<rparr>)
           | (Panic, s2) \<Rightarrow> (Panic, s2)))"

definition GenerateFts :: "int \<Rightarrow> (pstore, unit) proc" where
  "GenerateFts since = bind db_call (\<lambda>_. bind (attempt (sql_generate_fts since)) (\<lambda>_. ret ()))"

definition PostCount_db :: "(pstore, uint64) proc" where
  "PostCount_db =
     bind (attempt db_call) (\<lambda>r s.
       (Ok (case r of Inl _ \<Rightarrow> 0 | Inr _ \<Rightarrow> of_int (foldl max 0 (map Id (post_tbl s)))), s))"

text \<open>
  The loop over what arrives on the channel: \<open>Commit\<close> and \<open>Begin\<close> when \<open>n\<close> is 99, then the posts of
  the piece. It ends with the transaction the deferred function finds.
\<close>

fun insert_pieces_loop :: "psqlite \<Rightarrow> nat \<Rightarrow> piece option list \<Rightarrow> pstore \<Rightarrow> pstore \<Rightarrow> tx \<times> pstore" where
  "insert_pieces_loop q n [] snap s = (TxOpen snap, s)"
| "insert_pieces_loop q n (None # ps) snap s = (TxOpen snap, s)"
| "insert_pieces_loop q n (Some p # ps) snap s =
     (let insert_posts = (\<lambda>n snap s.
            case forM (Posts p) (\<lambda>i. bind (sql_insert_post q i) (\<lambda>_. ret ())) s of
              (Ok _, s') \<Rightarrow> insert_pieces_loop q (Suc n) ps snap s'
            | (_, s') \<Rightarrow> (TxOpen snap, s'))
      in if n = 99
         then (case tx_Commit snap s of
                 (Ok _, s1) \<Rightarrow>
                   (case db_call s1 of
                      (Ok _, s2) \<Rightarrow> insert_posts 0 s2 s2
                    | (_, s2) \<Rightarrow> (TxNil, s2))
               | (_, s1) \<Rightarrow> (TxDone, s1))
         else insert_posts n snap s)"

text \<open>
  The deferred function commits and then generates the index, and the error of the latter is what
  \<open>InsertPieces\<close> returns, whatever happened before. On a nil transaction it panics.
\<close>

definition InsertPieces :: "psqlite \<Rightarrow> piece option list \<Rightarrow> bool \<Rightarrow> (pstore, unit) proc" where
  "InsertPieces q pieces fts =
     bind (attempt db_call) (\<lambda>begun.
     bind PostCount_db (\<lambda>startPosts s.
       case begun of
         Inl e \<Rightarrow> (Err e, s)
       | Inr _ \<Rightarrow>
           (case insert_pieces_loop q 0 pieces s s of
              (TxOpen snap, s1) \<Rightarrow> GenerateFts (sint startPosts) (snd (tx_Commit snap s1))
            | (TxDone, s1) \<Rightarrow> GenerateFts (sint startPosts) s1
            | (TxNil, s1) \<Rightarrow> (Panic, s1))))"

definition InsertPost :: "psqlite \<Rightarrow> post \<Rightarrow> (pstore, int) proc" where
  "InsertPost q p = bind db_call (\<lambda>_. sql_insert_post q p)"

definition PaginatedQuery :: "(int \<Rightarrow> int \<Rightarrow> pstore \<Rightarrow> post list) \<Rightarrow> int \<Rightarrow> (pstore, post list) proc" where
  "PaginatedQuery query page = bind db_call (\<lambda>_. gets (query (wrap64 (25 * page)) 25))"

definition QueryRecent :: "int \<Rightarrow> (pstore, post list) proc" where
  "QueryRecent = PaginatedQuery sql_query_recent_post"

definition QueryPopular :: "int \<Rightarrow> (pstore, post list) proc" where
  "QueryPopular = PaginatedQuery sql_query_popular_post"

text \<open>Without a row the result is the zero post; the loop keeps the last row.\<close>

definition QueryPostId :: "uint64 \<Rightarrow> (pstore, post) proc" where
  "QueryPostId i =
     bind (uint_arg i) (\<lambda>i'.
     bind db_call (\<lambda>_. gets (\<lambda>s. foldl (\<lambda>_ r. r) empty_post (sql_query_post_id i' s))))"

definition db_Search :: "psqlite \<Rightarrow> string \<Rightarrow> int \<Rightarrow> int \<Rightarrow> (pstore, post list) proc" where
  "db_Search q query page pageSize =
     (if pageSize < 0 then panic
      else
        bind db_call (\<lambda>_.
        bind (\<lambda>s. (sql_search_post q query (wrap64 (page * pageSize)) pageSize s, s)) (\<lambda>ids.
        mapM (\<lambda>i. QueryPostId (of_int i)) ids)))"

definition add_all :: "bool \<Rightarrow> post list \<Rightarrow> piece \<Rightarrow> piece" where
  "add_all store ps p = foldl (\<lambda>p x. snd (Piece_Add x store p)) p ps"

definition QueryPiece :: "uint64 \<Rightarrow> bool \<Rightarrow> (pstore, piece) proc" where
  "QueryPiece i store =
     bind (uint_arg (i * of_nat PieceSize)) (\<lambda>after.
     bind db_call (\<lambda>_. gets (\<lambda>s.
       add_all store (sql_query_paged_post after (int PieceSize) s) (new_piece i))))"

text \<open>The posts sent into the channel; a failing query closes it at once.\<close>

definition QueryPiecePosts :: "int \<Rightarrow> int \<Rightarrow> (pstore, post list) proc" where
  "QueryPiecePosts start len =
     bind (attempt db_call) (\<lambda>r s.
       (Ok (case r of
              Inl _ \<Rightarrow> []
            | Inr _ \<Rightarrow> sql_query_paged_post (wrap64 (start * int PieceSize))
                         (wrap64 (start + int PieceSize * len)) s), s))"

definition AddMeta :: "psqlite \<Rightarrow> int \<Rightarrow> string \<Rightarrow> (pstore, unit) proc" where
  "AddMeta q pid value = bind db_call (\<lambda>_. sql_attach_meta q pid value)"

definition db_Suggest :: "psqlite \<Rightarrow> string \<Rightarrow> (pstore, string list) proc" where
  "db_Suggest q query = bind db_call (\<lambda>_. gets (sql_suggest_posts q query 5))"

definition SetSeeders :: "uint64 \<Rightarrow> uint64 \<Rightarrow> (pstore, unit) proc" where
  "SetSeeders i seeders =
     bind db_call (\<lambda>_. bind (uint_arg seeders) (\<lambda>n. bind (uint_arg i) (\<lambda>k.
     bind db_call (\<lambda>_. modify (\<lambda>s. s\<lparr>post_tbl :=
       map (\<lambda>r. if Id r = k then r\<lparr>Seeders := n\<rparr> else r) (post_tbl s)\<rparr>)))))"

definition SetLeechers :: "uint64 \<Rightarrow> uint64 \<Rightarrow> (pstore, unit) proc" where
  "SetLeechers i leechers =
     bind db_call (\<lambda>_. bind (uint_arg leechers) (\<lambda>n. bind (uint_arg i) (\<lambda>k.
     bind db_call (\<lambda>_. modify (\<lambda>s. s\<lparr>post_tbl :=
       map (\<lambda>r. if Id r = k then r\<lparr>Leechers := n\<rparr> else r) (post_tbl s)\<rparr>)))))"

section \<open>Collections from the database, search\<close>

text \<open>
  \<open>math.Ceil(float64(n) / float64(size))\<close> for a count and a size that floating point represents
  exactly (below \<open>2^50\<close> the quotient is not rounded across an integer).
\<close>

definition ceil_div :: "nat \<Rightarrow> nat \<Rightarrow> nat" where
  "ceil_div n m = (n + m - 1) div m"

fun create_loop :: "crypto \<Rightarrow> bytes list \<Rightarrow> nat list \<Rightarrow> collection \<Rightarrow> (pstore, collection) proc" where
  "create_loop C ex [] c = ret c"
| "create_loop C ex (i # is) c =
     bind (QueryPiece (of_nat i) False) (\<lambda>p.
     bind (lift_res (Collection_Add C (hd (ex @ [[]])) p c)) (\<lambda>c'. create_loop C (tl ex) is c'))"

definition CreateCollection :: "crypto \<Rightarrow> bytes list \<Rightarrow> nat \<Rightarrow> (pstore, collection) proc" where
  "CreateCollection C ex pieceSize =
     bind PostCount_db (\<lambda>n. create_loop C ex [0..<ceil_div (unat n) pieceSize] NewCollection)"

record search_result =
  SR_Posts :: "post list"
  SR_Source :: string

text \<open>
  Making a title presentable. The tests of a character are those of ASCII; for a text with other characters, and for one of
  64 KiB or more, where a word may be longer than a scanner takes, the result is the parameter \<open>beyond\<close>.
\<close>

definition is_space :: "char \<Rightarrow> bool" where
  "is_space c \<longleftrightarrow> c \<in> {CHR '' '', CHR 0x09, CHR 0x0A, CHR 0x0B, CHR 0x0C, CHR 0x0D}"

fun ScanWords :: "string \<Rightarrow> string \<Rightarrow> string list" where
  "ScanWords word [] = (if word = [] then [] else [word])"
| "ScanWords word (c # cs) =
     (if is_space c then (if word = [] then [] else [word]) @ ScanWords [] cs else ScanWords (word @ [c]) cs)"

definition IsAlnumWord :: "string \<Rightarrow> bool" where
  "IsAlnumWord word = list_all (\<lambda>i. let n = of_char i :: nat in
     (65 \<le> n \<and> n \<le> 90) \<or> (97 \<le> n \<and> n \<le> 122) \<or> (48 \<le> n \<and> n \<le> 57)) word"

definition SanitiseForAuto :: "(string \<Rightarrow> string) \<Rightarrow> string \<Rightarrow> string" where
  "SanitiseForAuto beyond t =
     (if list_all (\<lambda>c. (of_char c :: nat) < 128) t \<and> length t < 65536
      then foldl (\<lambda>buffer w. if IsAlnumWord w then buffer @ w @ '' '' else buffer) [] (ScanWords [] t)
      else beyond t)"

text \<open>\<open>make([]string, len(checked))\<close> followed by \<open>append\<close>: the result starts with empty strings.\<close>

definition sp_Suggest :: "psqlite \<Rightarrow> (string \<Rightarrow> string) \<Rightarrow> string \<Rightarrow> (pstore, string list) proc" where
  "sp_Suggest q beyond query =
     bind (db_Suggest q (query @ ''%'')) (\<lambda>checked.
       ret (replicate (length checked) [] @ map (SanitiseForAuto beyond) checked))"

definition sp_Search :: "psqlite \<Rightarrow> string \<Rightarrow> string \<Rightarrow> int \<Rightarrow> (pstore, search_result) proc" where
  "sp_Search q source query page =
     bind (db_Search q query page 25) (\<lambda>results. ret \<lparr>SR_Posts = results, SR_Source = source\<rparr>)"

end
