(* ===== verification/Post_Props.thy ===== *)
theory Post_Props
  imports Post_Store
begin

text \<open>
  The post database keeps its posts numbered from one without gaps, so that its pieces are
  consecutive slices of the table, and what a mirror stores after a transfer is what the publisher
  has.
\<close>

section \<open>Invariant\<close>

text \<open>A row that SQLite reads back as it was written.\<close>

definition row_settled :: "psqlite \<Rightarrow> post \<Rightarrow> bool" where
  "row_settled q r \<longleftrightarrow>
     list_all (\<lambda>x. text_affinity q x = x) [InfoHash r, Title r, Tags r, Meta r]"

text \<open>Reading a column and writing it again changes nothing.\<close>

definition text_affinity_ok :: "psqlite \<Rightarrow> bool" where
  "text_affinity_ok q \<longleftrightarrow> (\<forall>x. text_affinity q (text_affinity q x) = text_affinity q x)"

definition pinv :: "psqlite \<Rightarrow> pstore \<Rightarrow> bool" where
  "pinv q s \<longleftrightarrow>
     map Id (post_tbl s) = map int [Suc 0..<Suc (length (post_tbl s))] \<and>
     distinct (map InfoHash (post_tbl s)) \<and> list_all (row_settled q) (post_tbl s) \<and>
     distinct (map fst (fts_post s)) \<and> fst ` set (fts_post s) \<subseteq> Id ` set (post_tbl s)"

lemma pinv_empty [simp]: "pinv q empty_pstore"
  by (simp add: pinv_def empty_pstore_def)

lemma pinv_faults [simp]: "pinv q (s\<lparr>pfaults := fs\<rparr>) = pinv q s"
  by (simp add: pinv_def)

lemma foldl_max_int_upt: "foldl max 0 (map int [Suc 0..<Suc n]) = int n"
  by (induction n) auto

lemma max_Id: "pinv q s \<Longrightarrow> foldl max 0 (map Id (post_tbl s)) = int (length (post_tbl s))"
  by (simp add: pinv_def foldl_max_int_upt del: upt_Suc)

lemma nth_Id:
  assumes "pinv q s" "i < length (post_tbl s)"
  shows "Id (post_tbl s ! i) = int (Suc i)"
proof -
  have "map Id (post_tbl s) ! i = map int [Suc 0..<Suc (length (post_tbl s))] ! i"
    using assms(1) by (simp add: pinv_def del: upt_Suc)
  with assms(2) show ?thesis by (simp add: nth_append del: upt_Suc)
qed

lemma filter_after:
  assumes "pinv q s"
  shows "filter (\<lambda>r. Id r > int k) (post_tbl s) = drop k (post_tbl s)"
proof -
  let ?xs = "post_tbl s"
  have 1: "filter (\<lambda>r. Id r > int k) (take k ?xs) = []"
    using nth_Id [OF assms] by (auto simp: filter_empty_conv in_set_conv_nth)
  have 2: "filter (\<lambda>r. Id r > int k) (drop k ?xs) = drop k ?xs"
    using nth_Id [OF assms] by (auto simp: filter_id_conv in_set_conv_nth)
  have "filter (\<lambda>r. Id r > int k) ?xs =
      filter (\<lambda>r. Id r > int k) (take k ?xs) @ filter (\<lambda>r. Id r > int k) (drop k ?xs)"
    by (metis append_take_drop_id filter_append)
  with 1 2 show ?thesis by simp
qed

lemma find_Id:
  assumes "pinv q s" "i < length (post_tbl s)"
  shows "filter (\<lambda>r. Id r = int (Suc i)) (post_tbl s) = [post_tbl s ! i]"
proof -
  let ?xs = "post_tbl s"
  have 1: "filter (\<lambda>r. Id r = int (Suc i)) (take i ?xs) = []"
    using nth_Id [OF assms(1)] assms(2) by (auto simp: filter_empty_conv in_set_conv_nth)
  have 2: "filter (\<lambda>r. Id r = int (Suc i)) (drop (Suc i) ?xs) = []"
    using nth_Id [OF assms(1)] by (auto simp: filter_empty_conv in_set_conv_nth)
  have "?xs = take i ?xs @ ?xs ! i # drop (Suc i) ?xs" by (rule id_take_nth_drop [OF assms(2)])
  then have "filter (\<lambda>r. Id r = int (Suc i)) ?xs =
      filter (\<lambda>r. Id r = int (Suc i)) (take i ?xs @ ?xs ! i # drop (Suc i) ?xs)" by simp
  with 1 2 nth_Id [OF assms] show ?thesis by simp
qed

section \<open>Every operation keeps the invariant\<close>

lemma db_call_inv [proc_intros]: "preserves (pinv q) db_call"
  by (auto simp: preserves_def db_call_def split: list.splits)

lemma uint_arg_inv [proc_intros]: "preserves I (uint_arg w)"
  by (simp add: uint_arg_def)

lemma pinv_append:
  assumes "pinv q s" "row_settled q r" "Id r = int (Suc (length (post_tbl s)))"
    "InfoHash r \<notin> InfoHash ` set (post_tbl s)"
  shows "pinv q (s\<lparr>post_tbl := post_tbl s @ [r], plast_rowid := i\<rparr>)"
proof -
  have "map Id (post_tbl s @ [r]) = map int [Suc 0..<Suc (length (post_tbl s @ [r]))]"
    using assms(1,3) by (simp add: pinv_def)
  moreover have "fst ` set (fts_post s) \<subseteq> Id ` set (post_tbl s @ [r])"
    using assms(1) unfolding pinv_def by auto
  ultimately show ?thesis
    using assms unfolding pinv_def by (simp del: upt_Suc)
qed

lemma sql_insert_post_inv [proc_intros]:
  assumes "text_affinity_ok q"
  shows "preserves (pinv q) (sql_insert_post q p)"
  unfolding sql_insert_post_def
proof (intro preserves_bind db_call_inv preservesI)
  fix s assume s: "pinv q s"
  define ih where "ih = text_affinity q (InfoHash p)"
  define row where "row = p\<lparr>Id := 1 + int (length (post_tbl s)), InfoHash := ih,
    Title := text_affinity q (Title p), Tags := text_affinity q (Tags p), Meta := text_affinity q (Meta p)\<rparr>"
  have "\<forall>r\<in>set (post_tbl s). InfoHash r \<noteq> ih \<Longrightarrow> pinv q (s\<lparr>post_tbl := post_tbl s @ [row], plast_rowid := i\<rparr>)" for i
    using assms by (intro pinv_append [OF s]) (auto simp: row_def ih_def row_settled_def text_affinity_ok_def)
  then show "pinv q (snd (let ih = text_affinity q (InfoHash p) in
       if list_ex (\<lambda>r. InfoHash r = ih) (post_tbl s) then (Ok (plast_rowid s), s)
       else
         (let i = 1 + foldl max 0 (map Id (post_tbl s));
              row = p\<lparr>Id := i, InfoHash := ih, Title := text_affinity q (Title p),
                      Tags := text_affinity q (Tags p), Meta := text_affinity q (Meta p)\<rparr>
          in (Ok i, s\<lparr>post_tbl := post_tbl s @ [row], plast_rowid := i\<rparr>))))"
    using s by (auto simp: Let_def max_Id list_ex_iff row_def ih_def)
qed

lemma pinv_map:
  assumes "pinv q s" "\<And>r. Id (f r) = Id r" "\<And>r. InfoHash (f r) = InfoHash r"
    "\<And>r. row_settled q r \<Longrightarrow> row_settled q (f r)"
  shows "pinv q (s\<lparr>post_tbl := map f (post_tbl s)\<rparr>)"
  using assms by (auto simp: pinv_def comp_def list_all_iff image_image)

lemma sql_attach_meta_inv [proc_intros]:
  "text_affinity_ok q \<Longrightarrow> preserves (pinv q) (sql_attach_meta q pid v)"
  unfolding sql_attach_meta_def
  by (intro proc_intros pinv_map) (auto simp: row_settled_def text_affinity_ok_def)

lemma set_counts_inv [proc_intros]:
  "preserves (pinv q) (SetSeeders i n)" "preserves (pinv q) (SetLeechers i n)"
  unfolding SetSeeders_def SetLeechers_def
  by (intro proc_intros pinv_map; simp add: row_settled_def)+

lemma index_rows:
  fixes ix :: "(int \<times> string) list" and since :: int
  assumes "distinct (map fst ix)" "fst ` set ix \<subseteq> A" "Id ` set rs \<subseteq> A"
  defines "step \<equiv> \<lambda>ix r. if Id r \<ge> since \<and> \<not> list_ex (\<lambda>d. fst d = Id r) ix then ix @ [(Id r, Title r)] else ix"
  shows "distinct (map fst (foldl step ix rs)) \<and> fst ` set (foldl step ix rs) \<subseteq> A"
  using assms(1-3)
proof (induction rs arbitrary: ix)
  case (Cons r rs)
  have "distinct (map fst (step ix r))" "fst ` set (step ix r) \<subseteq> A"
    using Cons.prems by (auto simp: step_def list_ex_iff)
  with Cons show ?case by simp
qed simp

lemma sql_generate_fts_inv [proc_intros]: "preserves (pinv q) (sql_generate_fts n)"
  unfolding sql_generate_fts_def
proof (intro proc_intros)
  fix s assume "pinv q s"
  with index_rows [of "fts_post s" "Id ` set (post_tbl s)" "post_tbl s" n]
  show "pinv q (s\<lparr>fts_post := foldl (\<lambda>ix r.
         if Id r \<ge> n \<and> \<not> list_ex (\<lambda>d. fst d = Id r) ix then ix @ [(Id r, Title r)] else ix)
       (fts_post s) (post_tbl s)\<rparr>)"
    by (simp add: pinv_def)
qed

lemma GenerateFts_inv [proc_intros]: "preserves (pinv q) (GenerateFts n)"
  unfolding GenerateFts_def by (intro proc_intros)

lemma PostCount_inv [proc_intros]: "preserves (pinv q) PostCount_db"
  unfolding PostCount_db_def by (intro proc_intros preservesI) simp

lemma tx_Commit_inv: "pinv q snap \<Longrightarrow> preserves (pinv q) (tx_Commit snap)"
  by (auto simp: preserves_def tx_Commit_def db_call_def split: list.splits res.splits prod.splits)

lemma insert_posts_inv:
  assumes "text_affinity_ok q" "pinv q s"
    "forM (Posts p) (\<lambda>i. bind (sql_insert_post q i) (\<lambda>_. ret ())) s = (r, s')"
  shows "pinv q s'"
proof -
  have "preserves (pinv q) (forM (Posts p) (\<lambda>i. bind (sql_insert_post q i) (\<lambda>_. ret ())))"
    using assms(1) by (intro proc_intros)
  then show ?thesis using assms(2,3) by (rule preservesD)
qed

lemma insert_pieces_loop_inv:
  assumes "text_affinity_ok q" "pinv q snap" "pinv q s" "insert_pieces_loop q n ps snap s = (t, s')"
  shows "pinv q s' \<and> (\<forall>snap'. t = TxOpen snap' \<longrightarrow> pinv q snap')"
  using assms(2-4)
proof (induction ps arbitrary: n snap s)
  case (Cons x ps)
  show ?case
  proof (cases x)
    case (Some p)
    define ins where "ins = (\<lambda>n snap s.
      case forM (Posts p) (\<lambda>i. bind (sql_insert_post q i) (\<lambda>_. ret ())) s of
        (Ok _, s') \<Rightarrow> insert_pieces_loop q (Suc n) ps snap s' | (_, s') \<Rightarrow> (TxOpen snap, s'))"
    have ins: "pinv q s' \<and> (\<forall>snap'. t = TxOpen snap' \<longrightarrow> pinv q snap')"
      if h: "pinv q snap" "pinv q s" "ins n snap s = (t, s')" for n snap s
    proof -
      obtain r s1 where f: "forM (Posts p) (\<lambda>i. bind (sql_insert_post q i) (\<lambda>_. ret ())) s = (r, s1)" by fastforce
      from insert_posts_inv [OF assms(1) h(2) f] have s1: "pinv q s1" .
      show ?thesis
      proof (cases r)
        case (Ok u)
        with h(3) f have "insert_pieces_loop q (Suc n) ps snap s1 = (t, s')" by (simp add: ins_def)
        with Cons.IH h(1) s1 show ?thesis by blast
      qed (use h f s1 in \<open>auto simp: ins_def\<close>)
    qed
    have step: "insert_pieces_loop q n (x # ps) snap s =
        (if n = 99 then (case tx_Commit snap s of
           (Ok _, s1) \<Rightarrow> (case db_call s1 of (Ok _, s2) \<Rightarrow> ins 0 s2 s2 | (_, s2) \<Rightarrow> (TxNil, s2))
         | (_, s1) \<Rightarrow> (TxDone, s1)) else ins n snap s)"
      by (simp only: Some insert_pieces_loop.simps ins_def Let_def)
    obtain r1 s1 where c: "tx_Commit snap s = (r1, s1)" by fastforce
    from preservesD [OF tx_Commit_inv [OF Cons.prems(1)] Cons.prems(2) c] have s1: "pinv q s1" .
    obtain r2 s2 where d: "db_call s1 = (r2, s2)" by fastforce
    from preservesD [OF db_call_inv s1 d] have s2: "pinv q s2" .
    show ?thesis
      using Cons.prems(3) ins [OF Cons.prems(1,2)] ins [OF s2 s2] s1 s2
      unfolding step by (cases "n = 99"; cases r1; cases r2) (auto simp: c d)
  qed (use Cons.prems in auto)
qed auto

lemma InsertPieces_inv [proc_intros]:
  assumes "text_affinity_ok q"
  shows "preserves (pinv q) (InsertPieces q ps fts)"
  unfolding InsertPieces_def
proof (intro proc_intros preservesI)
  fix begun :: "err + unit" and n :: uint64 and s assume s: "pinv q s"
  obtain t s1 where l: "insert_pieces_loop q 0 ps s s = (t, s1)" by fastforce
  from insert_pieces_loop_inv [OF assms s s l] have
    i: "pinv q s1" "\<And>snap. t = TxOpen snap \<Longrightarrow> pinv q snap" by auto
  have "pinv q (snd (tx_Commit snap s1))" if "t = TxOpen snap" for snap
    using tx_Commit_inv [OF i(2) [OF that]] i(1) by (simp add: preserves_def)
  with i(1) show "pinv q (snd (case begun of Inl e \<Rightarrow> (Err e, s) | Inr _ \<Rightarrow>
      (case insert_pieces_loop q 0 ps s s of
         (TxOpen snap, s1) \<Rightarrow> GenerateFts (sint n) (snd (tx_Commit snap s1))
       | (TxDone, s1) \<Rightarrow> GenerateFts (sint n) s1
       | (TxNil, s1) \<Rightarrow> (Panic, s1))))"
    using l s GenerateFts_inv by (auto simp: preserves_def split: sum.splits tx.splits)
qed

lemma InsertPost_inv [proc_intros]: "text_affinity_ok q \<Longrightarrow> preserves (pinv q) (InsertPost q p)"
  unfolding InsertPost_def by (intro proc_intros)

lemma AddMeta_inv [proc_intros]: "text_affinity_ok q \<Longrightarrow> preserves (pinv q) (AddMeta q i v)"
  unfolding AddMeta_def by (intro proc_intros)

lemma tx_Exec_8_args_tables:
  "forM ps tx_Exec_8_args s = (r, s') \<Longrightarrow> \<exists>fs. s' = s\<lparr>pfaults := fs\<rparr>"
  by (cases ps) (auto simp: tx_Exec_8_args_def bind_def ret_def fail_def db_call_def
      split: list.splits if_splits intro: exI [of _ "pfaults s"])

lemma InsertPiece_tables:
  "\<exists>fs. snd (InsertPiece p s) = s\<lparr>pfaults := fs\<rparr>"
proof -
  obtain r fs where d: "db_call s = (r, s\<lparr>pfaults := fs\<rparr>)"
    using that [of _ "pfaults s"] by (cases "pfaults s") (auto simp: db_call_def)
  obtain r2 s2 where f: "forM (Posts p) tx_Exec_8_args (s\<lparr>pfaults := fs\<rparr>) = (r2, s2)" by fastforce
  from tx_Exec_8_args_tables [OF f] obtain fs2 where s2: "s2 = s\<lparr>pfaults := fs2\<rparr>" by auto
  have "\<exists>fs'. snd (tx_Commit (s\<lparr>pfaults := fs\<rparr>) s2) = s\<lparr>pfaults := fs'\<rparr>"
    by (auto simp: tx_Commit_def db_call_def s2 split: list.splits)
  with d f s2 show ?thesis
    by (auto simp: InsertPiece_def split: res.splits)
qed

lemma InsertPiece_inv [proc_intros]: "preserves (pinv q) (InsertPiece p)"
  using InsertPiece_tables [of p] by (intro preservesI) (metis pinv_faults)


text \<open>The states the exported operations reach from an empty database; queries change nothing but the script.\<close>

inductive pdb_step :: "psqlite \<Rightarrow> pstore \<Rightarrow> pstore \<Rightarrow> bool" for q where
  fault: "pdb_step q s (s\<lparr>pfaults := fs\<rparr>)"
| insert_piece: "pdb_step q s (snd (InsertPiece p s))"
| insert_pieces: "pdb_step q s (snd (InsertPieces q ps fts s))"
| insert_post: "pdb_step q s (snd (InsertPost q x s))"
| generate_fts: "pdb_step q s (snd (GenerateFts n s))"
| add_meta: "pdb_step q s (snd (AddMeta q i v s))"
| set_seeders: "pdb_step q s (snd (SetSeeders i m s))"
| set_leechers: "pdb_step q s (snd (SetLeechers i m s))"

inductive pdb_reach :: "psqlite \<Rightarrow> pstore \<Rightarrow> bool" for q where
  start: "pdb_reach q (empty_pstore\<lparr>pfaults := fs\<rparr>)"
| step: "pdb_reach q s \<Longrightarrow> pdb_step q s s' \<Longrightarrow> pdb_reach q s'"

lemma pdb_step_inv: "pdb_step q s s' \<Longrightarrow> text_affinity_ok q \<Longrightarrow> pinv q s \<Longrightarrow> pinv q s'"
proof (induction rule: pdb_step.induct)
qed (simp_all add: preserves_snd proc_intros)

lemma pdb_reach_run: "pdb_reach q s \<Longrightarrow> \<exists>s0. (\<exists>fs. s0 = empty_pstore\<lparr>pfaults := fs\<rparr>) \<and> rtranclp (pdb_step q) s0 s"
  by (induction rule: pdb_reach.induct) (auto intro: rtranclp.rtrancl_into_rtrancl)

interpretation pdb_sys: invariant_system "\<lambda>s. \<exists>fs. s = empty_pstore\<lparr>pfaults := fs\<rparr>" "pdb_step q" "pdb_reach q"
  "\<lambda>s. text_affinity_ok q \<longrightarrow> pinv q s" for q
  by unfold_locales (use pdb_reach_run in \<open>auto intro: pdb_step_inv\<close>)

lemmas pdb_reach_inv = pdb_sys.reach_inv [rule_format]

section \<open>Pieces are slices of the table\<close>

lemma db_call_ok [simp]: "pfaults s = [] \<Longrightarrow> db_call s = (Ok (), s)"
  by (simp add: db_call_def)

lemma add_all_True:
  "length (Posts p) + length ps \<le> Suc PieceSize \<Longrightarrow>
   add_all True ps p = p\<lparr>Posts := Posts p @ ps, hashed := hashed p @ piece_text ps\<rparr>"
proof (induction ps arbitrary: p)
  case (Cons x ps)
  then show ?case by (simp add: add_all_def Piece_Add_ok piece_text_def)
qed (simp add: add_all_def)

lemma add_all_False:
  "length (Posts p) \<le> PieceSize \<Longrightarrow> add_all False ps p = p\<lparr>hashed := hashed p @ piece_text ps\<rparr>"
proof (induction ps arbitrary: p)
  case (Cons x ps)
  then show ?case
    by (simp add: add_all_def Piece_Add_def Post_String_def Post_Bytes_def piece_text_def Let_def)
qed (simp add: add_all_def)

text \<open>The posts of piece number \<open>k\<close>.\<close>

definition piece_rows :: "pstore \<Rightarrow> nat \<Rightarrow> post list" where
  "piece_rows s k = take PieceSize (drop (PieceSize * k) (post_tbl s))"

lemma uint_arg_piece:
  assumes "PieceSize * k < 2 ^ 63"
  shows "uint_arg (of_nat k * of_nat PieceSize) = ret (int (PieceSize * k))"
proof -
  have "unat (of_nat n :: uint64) = n" if "n < 2 ^ 63" for n
    using that by (simp add: unat_of_nat)
  from this [OF assms] have "unat (of_nat (PieceSize * k) :: uint64) = PieceSize * k" .
  then have "unat (of_nat k * of_nat PieceSize :: uint64) = PieceSize * k"
    by (metis mult.commute of_nat_mult)
  with assms show ?thesis by (simp add: uint_arg_def)
qed

lemma QueryPiece_rows:
  assumes "pinv q s" "pfaults s = []" "PieceSize * k < 2 ^ 63"
  shows "QueryPiece (of_nat k) store s =
    (Ok \<lparr>Piece_Id = of_nat k, Posts = (if store then piece_rows s k else []),
         hashed = piece_text (piece_rows s k)\<rparr>, s)"
proof -
  have p: "sql_query_paged_post (int (PieceSize * k)) (int PieceSize) s = piece_rows s k"
    by (simp only: sql_query_paged_post_def filter_after [OF assms(1)])
      (simp add: sql_limit_def piece_rows_def)
  have "length (piece_rows s k) \<le> PieceSize" by (simp add: piece_rows_def)
  then have "add_all store (piece_rows s k) (new_piece (of_nat k)) =
      \<lparr>Piece_Id = of_nat k, Posts = (if store then piece_rows s k else []), hashed = piece_text (piece_rows s k)\<rparr>"
    by (cases store) (simp_all add: add_all_True add_all_False new_piece_def Piece_Setup_def)
  with p show ?thesis
    unfolding QueryPiece_def uint_arg_piece [OF assms(3)]
    using assms(2) by (simp add: bind_def gets_def)
qed

section \<open>Transfer to a mirror\<close>

lemma wrap64_nat: "n < 2 ^ 63 \<Longrightarrow> wrap64 (int n) = int n"
  by (simp add: wrap64_def)

lemma sql_limit_nat: "sql_limit 0 (int n) xs = take n xs"
  by (simp add: sql_limit_def)

lemma QueryPiecePosts_rows:
  assumes "pinv q s" "pfaults s = []" "PieceSize * start < 2 ^ 63" "start + PieceSize * n < 2 ^ 63"
  shows "QueryPiecePosts (int start) (int n) s =
    (Ok (take (start + PieceSize * n) (drop (PieceSize * start) (post_tbl s))), s)"
proof -
  have w: "wrap64 (int start * int PieceSize) = int (PieceSize * start)"
    "wrap64 (int start + int PieceSize * int n) = int (start + PieceSize * n)"
    using wrap64_nat [OF assms(3)] wrap64_nat [OF assms(4)]
    by (simp_all add: mult.commute)
  have "sql_query_paged_post (wrap64 (int start * int PieceSize)) (wrap64 (int start + int PieceSize * int n)) s =
      take (start + PieceSize * n) (drop (PieceSize * start) (post_tbl s))"
    unfolding w sql_query_paged_post_def filter_after [OF assms(1)] sql_limit_nat by (rule refl)
  then show ?thesis
    using assms(2) by (simp add: QueryPiecePosts_def bind_def attempt_def)
qed

lemma transferred_pieces:
  assumes "pinv q s" "pfaults s = []" "list_all wire_ok (post_tbl s)"
    "PieceSize * start < 2 ^ 63" "start + PieceSize * n < 2 ^ 63"
  obtains ps where "QueryPiecePosts (int start) (int n) s = (Ok ps, s)"
    "read_pieces n (NewErrorReader (send_posts ps)) = map (\<lambda>i. piece_of (piece_rows s (start + i))) [0..<n]"
proof
  let ?ps = "take (start + PieceSize * n) (drop (PieceSize * start) (post_tbl s))"
  show "QueryPiecePosts (int start) (int n) s = (Ok ?ps, s)" by (rule QueryPiecePosts_rows [OF assms(1,2,4,5)])
  have ok: "list_all wire_ok ?ps"
    using assms(3) by (auto simp: list_all_iff dest!: in_set_takeD in_set_dropD)
  have "take PieceSize (drop (PieceSize * i) ?ps) = piece_rows s (start + i)" if "i < n" for i
  proof -
    have "PieceSize * Suc i \<le> PieceSize * n" using that by (intro mult_le_mono2) simp
    then have "PieceSize \<le> start + PieceSize * n - PieceSize * i" by simp
    then show ?thesis
      by (simp add: piece_rows_def drop_take take_take min_def add_mult_distrib2 add.commute)
  qed
  then show "read_pieces n (NewErrorReader (send_posts ?ps)) = map (\<lambda>i. piece_of (piece_rows s (start + i))) [0..<n]"
    by (simp add: NewErrorReader_def read_pieces_posts [OF ok])
qed

text \<open>C27: What a peer reads from the stream that serves pieces \<open>start\<close> to \<open>start + n\<close> of a database are, piece
  by piece, the posts the publisher hashes for those pieces: every received piece has the text
  whose hash the publisher puts in its hash list.
\<close>

theorem piece_transfer:
  assumes "text_affinity_ok q" "pdb_reach q s" "pfaults s = []" "list_all wire_ok (post_tbl s)"
    "PieceSize * (start + n) < 2 ^ 62" "i < n"
  shows "\<exists>ps p. QueryPiecePosts (int start) (int n) s = (Ok ps, s) \<and>
    QueryPiece (of_nat (start + i)) False s = (Ok p, s) \<and>
    hashed (read_pieces n (NewErrorReader (send_posts ps)) ! i) = hashed p"
proof -
  from pdb_reach_inv [OF assms(2,1)] have s: "pinv q s" .
  have b: "PieceSize * start < 2 ^ 63" "start + PieceSize * n < 2 ^ 63" "PieceSize * (start + i) < 2 ^ 63"
    using assms(5,6) by (auto simp: PieceSize_def)
  obtain ps where "QueryPiecePosts (int start) (int n) s = (Ok ps, s)"
    "read_pieces n (NewErrorReader (send_posts ps)) = map (\<lambda>i. piece_of (piece_rows s (start + i))) [0..<n]"
    by (rule transferred_pieces [OF s assms(3,4) b(1,2)])
  with QueryPiece_rows [OF s assms(3) b(3), of False] assms(6) show ?thesis
    by (simp add: piece_of_def)
qed

section \<open>Storing what was received\<close>

lemma sql_insert_post_row:
  assumes "pinv q m" "pfaults m = []" "row_settled q r" "Id r = int (Suc (length (post_tbl m)))"
    "InfoHash r \<notin> InfoHash ` set (post_tbl m)"
  shows "sql_insert_post q r m = (Ok (Id r), m\<lparr>post_tbl := post_tbl m @ [r], plast_rowid := Id r\<rparr>)"
proof -
  have "r\<lparr>Id := 1 + int (length (post_tbl m)), InfoHash := text_affinity q (InfoHash r), Title := text_affinity q (Title r),
     Tags := text_affinity q (Tags r), Meta := text_affinity q (Meta r)\<rparr> = r"
    using assms(3,4) by (simp add: row_settled_def)
  with assms show ?thesis
    by (auto simp: sql_insert_post_def bind_def Let_def max_Id list_ex_iff row_settled_def image_iff)
qed

text \<open>A mirror that has a prefix of the publisher's rows.\<close>

definition has_prefix :: "psqlite \<Rightarrow> post list \<Rightarrow> nat \<Rightarrow> pstore \<Rightarrow> bool" where
  "has_prefix q rows k m \<longleftrightarrow>
     pinv q m \<and> pfaults m = [] \<and> k \<le> length rows \<and> post_tbl m = take k rows"

lemma insert_next_row:
  assumes "pinv q s" "has_prefix q (post_tbl s) k m" "k < length (post_tbl s)"
  shows "\<exists>m'. bind (sql_insert_post q (post_tbl s ! k)) (\<lambda>_. ret ()) m = (Ok (), m') \<and>
    has_prefix q (post_tbl s) (Suc k) m'"
proof -
  let ?r = "post_tbl s ! k"
  have m: "pinv q m" "pfaults m = []" "post_tbl m = take k (post_tbl s)"
    using assms(2) by (simp_all add: has_prefix_def)
  have r: "row_settled q ?r" using assms(1,3) by (simp add: pinv_def list_all_length)
  have i: "Id ?r = int (Suc (length (post_tbl m)))" using nth_Id [OF assms(1,3)] assms(3) m(3) by simp
  have "distinct (map InfoHash (post_tbl s))" using assms(1) by (simp add: pinv_def)
  then have "InfoHash ?r \<noteq> InfoHash (post_tbl s ! j)" if "j < k" for j
    using that assms(3) by (auto simp: distinct_conv_nth)
  then have h: "InfoHash ?r \<notin> InfoHash ` set (post_tbl m)"
    using m(3) assms(3) by (fastforce simp: in_set_conv_nth)
  show ?thesis
    using pinv_append [OF m(1) r i h] sql_insert_post_row [OF m(1,2) r i h] assms(3) m
    by (simp add: bind_def ret_def has_prefix_def take_Suc_conv_app_nth)
qed

lemma insert_rows:
  assumes "pinv q s" "has_prefix q (post_tbl s) k m"
  shows "\<exists>m'. forM (take n (drop k (post_tbl s))) (\<lambda>i. bind (sql_insert_post q i) (\<lambda>_. ret ())) m = (Ok (), m') \<and>
    has_prefix q (post_tbl s) (min (k + n) (length (post_tbl s))) m'"
  using assms(2)
proof (induction n arbitrary: k m)
  case 0
  then show ?case by (auto simp: ret_def has_prefix_def)
next
  case (Suc n)
  show ?case
  proof (cases "k < length (post_tbl s)")
    case True
    from insert_next_row [OF assms(1) Suc.prems True] obtain m1 where
      m1: "bind (sql_insert_post q (post_tbl s ! k)) (\<lambda>_. ret ()) m = (Ok (), m1)"
        "has_prefix q (post_tbl s) (Suc k) m1" by auto
    have "take (Suc n) (drop k (post_tbl s)) = post_tbl s ! k # take n (drop (Suc k) (post_tbl s))"
      using True by (metis Cons_nth_drop_Suc take_Suc_Cons)
    with Suc.IH [OF m1(2)] show ?thesis
      by (auto simp: bind_run(1) [of "bind (sql_insert_post q (post_tbl s ! k)) (\<lambda>_. ret ())", OF m1(1)])
  next
    case False
    with Suc.prems show ?thesis by (auto simp: ret_def has_prefix_def)
  qed
qed

lemma piece_rows_take: "piece_rows s k = take PieceSize (drop (min (PieceSize * k) (length (post_tbl s))) (post_tbl s))"
  by (simp add: piece_rows_def min_def)

lemma insert_pieces_rows:
  assumes "pinv q s" "has_prefix q (post_tbl s) (min (PieceSize * k) (length (post_tbl s))) m"
  shows "\<exists>snap m'. insert_pieces_loop q c (map (\<lambda>i. Some (piece_of (piece_rows s i))) [k..<k + n] @ [None]) snap0 m =
      (TxOpen snap, m') \<and> has_prefix q (post_tbl s) (min (PieceSize * (k + n)) (length (post_tbl s))) m'"
  using assms(2)
proof (induction n arbitrary: k m c snap0)
  case (Suc n)
  let ?L = "length (post_tbl s)"
  obtain m1 where m1:
    "forM (piece_rows s k) (\<lambda>i. bind (sql_insert_post q i) (\<lambda>_. ret ())) m = (Ok (), m1)"
    "has_prefix q (post_tbl s) (min (min (PieceSize * k) ?L + PieceSize) ?L) m1"
    using insert_rows [OF assms(1) Suc.prems, of PieceSize] unfolding piece_rows_take by blast
  have e: "min (min (PieceSize * k) ?L + PieceSize) ?L = min (PieceSize * Suc k) ?L" by (simp add: min_def)
  from Suc.IH [OF m1(2) [unfolded e]] have
    IH: "\<exists>snap m'. insert_pieces_loop q c (map (\<lambda>i. Some (piece_of (piece_rows s i))) [Suc k..<k + Suc n] @ [None]) snap0 m1 =
      (TxOpen snap, m') \<and> has_prefix q (post_tbl s) (min (PieceSize * (k + Suc n)) ?L) m'" for c snap0
    by simp
  have u: "[k..<k + Suc n] = k # [Suc k..<k + Suc n]" by (simp add: upt_conv_Cons)
  have p: "Posts (piece_of (piece_rows s k)) = piece_rows s k" by (simp add: piece_of_def)
  have f: "pfaults m = []" using Suc.prems by (simp add: has_prefix_def)
  show ?case
    unfolding u list.map append_Cons insert_pieces_loop.simps p Let_def
    using f IH by (simp add: m1(1) tx_Commit_def)
qed auto

lemma index_covers:
  fixes ix :: "(int \<times> string) list" and since :: int
  assumes "\<forall>r\<in>set rs. since \<le> Id r"
  defines "step \<equiv> \<lambda>ix r. if Id r \<ge> since \<and> \<not> list_ex (\<lambda>d. fst d = Id r) ix then ix @ [(Id r, Title r)] else ix"
  shows "fst ` set ix \<union> Id ` set rs \<subseteq> fst ` set (foldl step ix rs)"
  using assms(1)
proof (induction rs arbitrary: ix)
  case (Cons r rs)
  have "fst ` set ix \<union> {Id r} \<subseteq> fst ` set (step ix r)"
    using Cons.prems by (auto simp: step_def list_ex_iff image_iff intro: bexI [rotated])
  moreover have "fst ` set (step ix r) \<union> Id ` set rs \<subseteq> fst ` set (foldl step (step ix r) rs)"
    using Cons by simp
  ultimately show ?case unfolding foldl_Cons list.set image_insert by blast
qed simp

lemma GenerateFts_covers:
  assumes "pinv q m" "pfaults m = []"
  shows "\<exists>m'. GenerateFts 0 m = (Ok (), m') \<and> post_tbl m' = post_tbl m \<and> fst ` set (fts_post m') = Id ` set (post_tbl m)"
proof -
  obtain m' where g: "GenerateFts 0 m = (Ok (), m')" "post_tbl m' = post_tbl m"
    "fts_post m' = foldl (\<lambda>ix r. if Id r \<ge> 0 \<and> \<not> list_ex (\<lambda>d. fst d = Id r) ix then ix @ [(Id r, Title r)] else ix)
       (fts_post m) (post_tbl m)"
    using assms(2) by (simp add: GenerateFts_def bind_def attempt_def sql_generate_fts_def modify_def ret_def)
  have "\<forall>r\<in>set (post_tbl m). 0 \<le> Id r" using nth_Id [OF assms(1)] by (auto simp: in_set_conv_nth)
  from index_covers [OF this, of "fts_post m"] g(3) have "Id ` set (post_tbl m) \<subseteq> fst ` set (fts_post m')" by auto
  moreover have "pinv q m'" using preservesD [OF GenerateFts_inv assms(1) g(1)] .
  ultimately show ?thesis using g by (auto simp: pinv_def)
qed

lemma pfaults_empty [simp]: "pfaults empty_pstore = []"
  by (simp add: empty_pstore_def)

lemma PostCount_empty: "PostCount_db empty_pstore = (Ok 0, empty_pstore)"
  by (simp add: PostCount_db_def bind_def attempt_def empty_pstore_def)

lemma InsertPieces_copies:
  assumes s: "pinv q s"
  obtains m where
    "InsertPieces q (map Some (map (\<lambda>i. piece_of (piece_rows s i)) [0..<n]) @ [None]) True empty_pstore = (Ok (), m)"
    "post_tbl m = take (PieceSize * n) (post_tbl s)" "set (map fst (fts_post m)) = set (map Id (post_tbl m))"
proof -
  let ?L = "length (post_tbl s)" and ?ps = "map Some (map (\<lambda>i. piece_of (piece_rows s i)) [0..<n]) @ [None]"
  have e: "has_prefix q (post_tbl s) (min (PieceSize * 0) ?L) empty_pstore"
    by (simp add: has_prefix_def) (simp add: empty_pstore_def)
  from insert_pieces_rows [OF s e, where n = n] obtain snap m1 where
    m1: "insert_pieces_loop q 0 ?ps empty_pstore empty_pstore = (TxOpen snap, m1)"
      "has_prefix q (post_tbl s) (min (PieceSize * n) ?L) m1"
    by (fastforce simp: comp_def)
  then have m1': "pinv q m1" "pfaults m1 = []" "post_tbl m1 = take (PieceSize * n) (post_tbl s)"
    by (auto simp: has_prefix_def min_def)
  from GenerateFts_covers [OF m1'(1,2)] obtain m where
    m: "GenerateFts 0 m1 = (Ok (), m)" "post_tbl m = post_tbl m1" "fst ` set (fts_post m) = Id ` set (post_tbl m1)" by auto
  have "InsertPieces q ?ps True empty_pstore = (Ok (), m)"
    using m1(1) m(1) m1'(2) PostCount_empty
    by (simp add: InsertPieces_def bind_def attempt_def tx_Commit_def del: map_map)
  with m m1'(3) that show ?thesis by auto
qed

text \<open>C14: A mirror with an empty database that downloads the first \<open>n\<close> pieces and inserts what it reads has
  exactly the publisher's first \<open>1000 * n\<close> rows afterwards, numbers included, and its title index
  covers them.
\<close>

theorem mirror_copies:
  assumes "text_affinity_ok q" "pdb_reach q s" "pfaults s = []" "list_all wire_ok (post_tbl s)"
    "PieceSize * n < 2 ^ 62"
  shows "\<exists>ps m. QueryPiecePosts 0 (int n) s = (Ok ps, s) \<and>
    InsertPieces q (map Some (read_pieces n (NewErrorReader (send_posts ps))) @ [None]) True empty_pstore = (Ok (), m) \<and>
    post_tbl m = take (PieceSize * n) (post_tbl s) \<and> set (map fst (fts_post m)) = set (map Id (post_tbl m))"
proof -
  from pdb_reach_inv [OF assms(2,1)] have s: "pinv q s" .
  obtain ps where ps: "QueryPiecePosts (int 0) (int n) s = (Ok ps, s)"
    "read_pieces n (NewErrorReader (send_posts ps)) = map (\<lambda>i. piece_of (piece_rows s (0 + i))) [0..<n]"
    by (rule transferred_pieces [OF s assms(3,4), of 0 n]) (use assms(5) in auto)
  obtain m where
    "InsertPieces q (map Some (map (\<lambda>i. piece_of (piece_rows s i)) [0..<n]) @ [None]) True empty_pstore = (Ok (), m)"
    "post_tbl m = take (PieceSize * n) (post_tbl s)" "set (map fst (fts_post m)) = set (map Id (post_tbl m))"
    by (rule InsertPieces_copies [OF s])
  with ps show ?thesis by auto
qed

section \<open>Further properties\<close>

text \<open>C21: Whatever sequence of operations ran on a post database and whichever of them failed, its posts are
  numbered 1, 2, ... in the order of the table, no two have the same info hash, the title index
  refers to existing posts only, once each, and without a failure \<open>PostCount\<close> is their number.
\<close>

theorem post_db_reachable:
  assumes "text_affinity_ok q" "pdb_reach q s"
  shows "map Id (post_tbl s) = map int [Suc 0..<Suc (length (post_tbl s))] \<and>
    distinct (map InfoHash (post_tbl s)) \<and>
    distinct (map fst (fts_post s)) \<and> set (map fst (fts_post s)) \<subseteq> set (map Id (post_tbl s)) \<and>
    (pfaults s = [] \<longrightarrow> PostCount_db s = (Ok (of_nat (length (post_tbl s))), s))"
proof -
  from pdb_reach_inv [OF assms(2,1)] have s: "pinv q s" .
  have "PostCount_db s = (Ok (of_nat (length (post_tbl s))), s)" if "pfaults s = []"
    using that max_Id [OF s] by (simp add: PostCount_db_def bind_def attempt_def)
  with s show ?thesis unfolding pinv_def by (metis image_set)
qed

text \<open>C31: A post whose info hash is new is stored under the next number, and \<open>QueryPostId\<close> of the number
  \<open>InsertPost\<close> returns gives the post back, with the columns as SQLite reads them.
\<close>

theorem InsertPost_then_QueryPostId:
  assumes "text_affinity_ok q" "pdb_reach q s" "pfaults s = []" "Suc (length (post_tbl s)) < 2 ^ 63"
    "text_affinity q (InfoHash p) \<notin> InfoHash ` set (post_tbl s)"
  shows "\<exists>i s'. InsertPost q p s = (Ok i, s') \<and> i = int (Suc (length (post_tbl s))) \<and>
    QueryPostId (of_int i) s' = (Ok (p\<lparr>Id := i, InfoHash := text_affinity q (InfoHash p),
      Title := text_affinity q (Title p), Tags := text_affinity q (Tags p), Meta := text_affinity q (Meta p)\<rparr>), s')"
proof -
  from pdb_reach_inv [OF assms(2,1)] have s: "pinv q s" .
  let ?n = "length (post_tbl s)"
  define row where "row = p\<lparr>Id := int (Suc ?n), InfoHash := text_affinity q (InfoHash p),
      Title := text_affinity q (Title p), Tags := text_affinity q (Tags p), Meta := text_affinity q (Meta p)\<rparr>"
  define s' where "s' = s\<lparr>post_tbl := post_tbl s @ [row], plast_rowid := int (Suc ?n)\<rparr>"
  have i: "InsertPost q p s = (Ok (int (Suc ?n)), s')"
    using assms(3,5) max_Id [OF s]
    by (auto simp: InsertPost_def sql_insert_post_def bind_def Let_def list_ex_iff row_def s'_def image_iff)
  have s': "pinv q s'" using preservesD [OF InsertPost_inv [OF assms(1)] s i] .
  have "unat (of_nat (Suc ?n) :: uint64) = Suc ?n" using assms(4) by (simp add: unat_of_nat del: of_nat_Suc)
  then have u: "uint_arg (of_int (int (Suc ?n))) = ret (int (Suc ?n))"
    using assms(4) by (simp add: uint_arg_def del: of_nat_Suc)
  have "sql_query_post_id (int (Suc ?n)) s' = [row]"
    using find_Id [OF s', of ?n] by (simp add: sql_query_post_id_def s'_def)
  then have "QueryPostId (of_int (int (Suc ?n))) s' = (Ok row, s')"
    using assms(3) unfolding QueryPostId_def u by (simp add: bind_def gets_def s'_def)
  with i show ?thesis unfolding row_def by blast
qed

text \<open>\<open>InsertPieces\<close> reports success although inserting a post failed: the deferred index generation
  overwrites the error, and the post is not stored.
\<close>

theorem InsertPieces_hides_error:
  assumes "pfaults s = [False, False, True]" "Posts p \<noteq> []"
  shows "\<exists>s'. InsertPieces q [Some p, None] True s = (Ok (), s') \<and> post_tbl s' = post_tbl s"
proof -
  obtain x xs where "Posts p = x # xs" using assms(2) by (cases "Posts p") auto
  then show ?thesis
    using assms(1)
    by (simp add: InsertPieces_def bind_def attempt_def PostCount_db_def db_call_def sql_insert_post_def
        tx_Commit_def GenerateFts_def sql_generate_fts_def modify_def ret_def)
qed

text \<open>\<open>InsertPiece\<close> never stores anything: a piece with posts is always refused, because the statement
  has nine placeholders and eight arguments are passed, and the tables stay as they were.
\<close>

theorem InsertPiece_never_stores:
  "post_tbl (snd (InsertPiece p s)) = post_tbl s \<and>
   (fst (InsertPiece p s) = Ok () \<longrightarrow> Posts p = [])"
proof
  show "post_tbl (snd (InsertPiece p s)) = post_tbl s" using InsertPiece_tables [of p s] by auto
  show "fst (InsertPiece p s) = Ok () \<longrightarrow> Posts p = []"
  proof (cases "Posts p")
    case (Cons x xs)
    obtain r1 s1 where d: "db_call s = (r1, s1)" by fastforce
    obtain r2 s2 where f: "forM (Posts p) tx_Exec_8_args s1 = (r2, s2)" by fastforce
    with Cons have "r2 \<noteq> Ok ()"
      by (auto simp: tx_Exec_8_args_def bind_def fail_def db_call_def split: list.splits if_splits)
    with d f show ?thesis by (cases r1; cases r2) (auto simp: InsertPiece_def)
  qed simp
qed

text \<open>C40: A database with more than a thousand posts has no collection: when \<open>append\<close> allocates exactly what
  the first hash needs, \<open>CreateCollection\<close> panics at the second piece.
\<close>

theorem CreateCollection_panics:
  assumes "crypto_ok C" "text_affinity_ok q" "pdb_reach q s" "pfaults s = []"
    "1000 < length (post_tbl s)" "length (post_tbl s) < 2 ^ 62"
  shows "fst (CreateCollection C [[]] PieceSize s) = Panic"
proof -
  from pdb_reach_inv [OF assms(3,2)] have s: "pinv q s" .
  let ?n = "length (post_tbl s)" and ?p = "\<lambda>k. \<lparr>Piece_Id = of_nat k, Posts = [], hashed = piece_text (piece_rows s k)\<rparr>"
  have q: "QueryPiece (of_nat k) False s = (Ok (?p k), s)" if "k < 2" for k
    using QueryPiece_rows [OF s assms(4), of k False] that by (simp add: PieceSize_def)
  obtain m where m: "ceil_div ?n PieceSize = Suc (Suc m)"
  proof -
    have "2 \<le> ceil_div ?n PieceSize" using assms(5) by (simp add: ceil_div_def PieceSize_def)
    then show ?thesis using that by (metis add_2_eq_Suc le_Suc_ex)
  qed
  have u: "[0..<Suc (Suc m)] = 0 # 1 # [2..<Suc (Suc m)]"
    by (simp add: upt_conv_Cons numeral_2_eq_2 del: upt_Suc)
  obtain c where c: "Collection_Add C [] (?p 0) NewCollection = Ok c" "Collection_Add C [] (?p 1) c = Panic"
    using second_piece [OF assms(1), of "?p 0" "?p 1" "[]" "[]"] by auto
  have n: "PostCount_db s = (Ok (of_nat ?n), s)" "unat (of_nat ?n :: uint64) = ?n"
    using max_Id [OF s] assms(4,6) by (simp_all add: PostCount_db_def bind_def attempt_def unat_of_nat)
  have "create_loop C [[]] [0..<ceil_div ?n PieceSize] NewCollection s = (Panic, s)"
    unfolding m u create_loop.simps using q [of 0] q [of 1] c by (simp add: bind_def lift_res_def)
  with n show ?thesis by (simp add: CreateCollection_def bind_def)
qed

section \<open>Instances\<close>

text \<open>A database whose columns give back what was written, filled with posts of different info hashes.\<close>

definition demo_psqlite :: psqlite where
  "demo_psqlite = \<lparr>text_affinity = (\<lambda>x. x), title_match = (\<lambda>ix m. Ok (map fst (filter (\<lambda>d. snd d = m) ix))),
     sql_like = (\<lambda>p t. p = t)\<rparr>"

definition numbered_post :: "nat \<Rightarrow> post" where
  "numbered_post n = (demo_post 0)\<lparr>InfoHash := replicate n CHR ''a''\<rparr>"

primrec filled :: "nat \<Rightarrow> pstore" where
  "filled 0 = empty_pstore"
| "filled (Suc n) = snd (InsertPost demo_psqlite (numbered_post n) (filled n))"

lemma demo_psqlite_ok: "text_affinity_ok demo_psqlite"
  by (simp add: text_affinity_ok_def demo_psqlite_def)

lemma filled_reach: "pdb_reach demo_psqlite (filled n)"
proof (induction n)
  case 0
  from pdb_reach.start [of demo_psqlite "[]"] show ?case by (simp add: empty_pstore_def)
qed (simp add: pdb_reach.step [OF _ pdb_step.insert_post])

lemma filled_eq:
  "post_tbl (filled n) = map (\<lambda>i. (numbered_post i)\<lparr>Id := int (Suc i)\<rparr>) [0..<n] \<and> pfaults (filled n) = []"
proof (induction n)
  case (Suc n)
  from max_Id [OF pdb_reach_inv [OF filled_reach demo_psqlite_ok], of n] Suc show ?case
    by (auto simp: InsertPost_def sql_insert_post_def bind_def Let_def list_ex_iff demo_psqlite_def
        numbered_post_def comp_def)
qed (simp add: empty_pstore_def)

lemma filled_simps [simp]: "length (post_tbl (filled n)) = n" "pfaults (filled n) = []"
  using filled_eq [of n] by simp_all

lemma filled_wire_ok: "n < 2 ^ 62 \<Longrightarrow> list_all wire_ok (post_tbl (filled n))"
  by (auto simp: filled_eq list_all_iff wire_ok_def numbered_post_def demo_post_def empty_post_def int_range_def)

theorem post_db_reachable_witness: "map Id (post_tbl (filled 2)) = [1, 2] \<and> PostCount_db (filled 2) = (Ok 2, filled 2)"
proof -
  have "[Suc 0..<Suc 2] = [1, 2]" by (simp add: upt_rec)
  with post_db_reachable [OF demo_psqlite_ok filled_reach, of 2] show ?thesis by simp
qed

theorem piece_transfer_witness:
  "\<exists>ps p. QueryPiecePosts 0 1 (filled 2) = (Ok ps, filled 2) \<and>
     QueryPiece 0 False (filled 2) = (Ok p, filled 2) \<and>
     hashed (read_pieces 1 (NewErrorReader (send_posts ps)) ! 0) = hashed p"
  using piece_transfer [OF demo_psqlite_ok filled_reach [of 2], of 0 1 0] filled_wire_ok [of 2]
  by (simp add: PieceSize_def)

theorem mirror_copies_witness:
  "\<exists>ps m. QueryPiecePosts 0 1 (filled 2) = (Ok ps, filled 2) \<and>
    InsertPieces demo_psqlite (map Some (read_pieces 1 (NewErrorReader (send_posts ps))) @ [None]) True empty_pstore = (Ok (), m) \<and>
    post_tbl m = post_tbl (filled 2)"
  using mirror_copies [OF demo_psqlite_ok filled_reach [of 2], of 1] filled_wire_ok [of 2]
  by (fastforce simp: PieceSize_def)

theorem InsertPost_then_QueryPostId_witness:
  "\<exists>s'. InsertPost demo_psqlite (numbered_post 2) (filled 2) = (Ok 3, s') \<and>
     QueryPostId 3 s' = (Ok ((numbered_post 2)\<lparr>Id := 3\<rparr>), s')"
proof -
  have "text_affinity demo_psqlite (InfoHash (numbered_post 2)) \<notin> InfoHash ` set (post_tbl (filled 2))"
    by (auto simp: filled_eq demo_psqlite_def numbered_post_def)
  from InsertPost_then_QueryPostId [OF demo_psqlite_ok filled_reach _ _ this] show ?thesis
    by (simp add: demo_psqlite_def numbered_post_def demo_post_def empty_post_def)
qed

theorem InsertPieces_hides_error_witness:
  "\<exists>s'. InsertPieces demo_psqlite [Some (piece_of [demo_post 1]), None] True (empty_pstore\<lparr>pfaults := [False, False, True]\<rparr>) = (Ok (), s') \<and>
     post_tbl s' = []"
  using InsertPieces_hides_error [of "empty_pstore\<lparr>pfaults := [False, False, True]\<rparr>" "piece_of [demo_post 1]" demo_psqlite]
  by (simp add: piece_of_def empty_pstore_def)

theorem InsertPiece_never_stores_witness:
  "fst (InsertPiece (piece_of [demo_post 1]) empty_pstore) \<noteq> Ok ()"
  using InsertPiece_never_stores [of "piece_of [demo_post 1]" empty_pstore] by (simp add: piece_of_def)

theorem CreateCollection_panics_witness:
  "fst (CreateCollection demo_crypto [[]] PieceSize (filled 1001)) = Panic"
  by (rule CreateCollection_panics [OF demo_crypto_ok demo_psqlite_ok filled_reach]) simp_all

section \<open>Suggestions\<close>

lemma ScanWords_concat:
  assumes "list_all (\<lambda>w. w \<noteq> [] \<and> list_all (\<lambda>c. \<not> is_space c) w) ws"
  shows "ScanWords [] (concat (map (\<lambda>w. w @ '' '') ws)) = ws"
proof -
  have step: "ScanWords acc (w @ '' '' @ rest) = (acc @ w) # ScanWords [] rest" if "list_all (\<lambda>c. \<not> is_space c) w" "acc @ w \<noteq> []" for acc w rest
    using that by (induction w arbitrary: acc) (auto simp: is_space_def)
  show ?thesis using assms step [of _ "[]"] by (induction ws) simp_all
qed

lemma ScanWords_words: "list_all (\<lambda>c. \<not> is_space c) acc \<Longrightarrow> list_all (\<lambda>w. w \<noteq> [] \<and> list_all (\<lambda>c. \<not> is_space c) w) (ScanWords acc t)"
  by (induction acc t rule: ScanWords.induct) auto

lemma ScanWords_length: "length (concat (map (\<lambda>w. w @ '' '') (ScanWords acc t))) \<le> Suc (length acc + length t)"
  by (induction acc t rule: ScanWords.induct) auto

lemma Sanitise_words: "foldl (\<lambda>buffer w. if IsAlnumWord w then buffer @ w @ '' '' else buffer) acc ws = acc @ concat (map (\<lambda>w. w @ '' '') (filter IsAlnumWord ws))"
  by (induction ws arbitrary: acc) auto

text \<open>What \<open>SanitiseForAuto\<close> gives is already presentable: it keeps the words of letters and digits, in order.\<close>

lemma SanitiseForAuto_idem:
  assumes "list_all (\<lambda>c. (of_char c :: nat) < 128) t" "length t < 65535"
  shows "SanitiseForAuto beyond (SanitiseForAuto beyond t) = SanitiseForAuto beyond t"
proof -
  let ?ws = "filter IsAlnumWord (ScanWords [] t)"
  have s: "SanitiseForAuto beyond t = concat (map (\<lambda>w. w @ '' '') ?ws)"
    using assms by (simp add: SanitiseForAuto_def Sanitise_words)
  have "length (concat (map (\<lambda>w. w @ '' '') (filter P ws))) \<le> length (concat (map (\<lambda>w. w @ '' '') ws))" for P and ws :: "string list"
    by (induction ws) auto
  from le_trans [OF this [of IsAlnumWord] ScanWords_length [of "[]" t]] assms(2)
  have l: "length (concat (map (\<lambda>w. w @ '' '') ?ws)) < 65536" by simp
  have a: "list_all (\<lambda>c. (of_char c :: nat) < 128) (concat (map (\<lambda>w. w @ '' '') ?ws))"
    by (auto simp: list_all_iff IsAlnumWord_def Let_def)
  have "ScanWords [] (concat (map (\<lambda>w. w @ '' '') ?ws)) = ?ws"
    by (rule ScanWords_concat) (use ScanWords_words [of "[]" t] in \<open>auto simp: list_all_iff\<close>)
  with a l show ?thesis unfolding s by (simp add: SanitiseForAuto_def Sanitise_words)
qed

end
