(* ===== verification/Limiter.thy ===== *)
theory Limiter
  imports Zif_Prelude
begin

text \<open>
  The rate limiter of \<^verbatim>\<open>util/limiter.go\<close> as a state machine: the clock, the goroutine that moves ticks
  into the throttle channel, the callers of \<open>Wait\<close> and the caller of \<open>Stop\<close> take turns in any order.

  The ticker's channel holds at most one tick and drops the rest, as \<^verbatim>\<open>time.Ticker\<close> does. A tick is
  handled in one step with the \<open>select\<close> that follows it. Two counters that the program does not have
  record how often the clock fired and how many waiters were let through.
\<close>

section \<open>State\<close>

datatype stopper = Idle | Sending_quit | Stopped

record limiter =
  burst :: nat
  Throttle :: "int list"
  Throttle_closed :: bool
  ticker_running :: bool
  ticker_C :: "int option"
  worker :: bool
  stop_call :: stopper
  fired :: nat
  passed :: nat

definition NewLimiter :: "int \<Rightarrow> nat \<Rightarrow> bool \<Rightarrow> limiter" where
  "NewLimiter now b fill =
     \<lparr>burst = b, Throttle = (if fill then replicate b now else []), Throttle_closed = False,
      ticker_running = True, ticker_C = None, worker = True, stop_call = Idle, fired = 0, passed = 0\<rparr>"

section \<open>Steps\<close>

text \<open>
  Of the \<open>select\<close>, the cases whose channel is ready may be chosen, and the default only when none is.
  \<open>Stop\<close> stops the ticker and then sends into the unbuffered quit channel; the send and the
  goroutine's receive happen together, and closing the throttle follows.
\<close>

inductive lim_step :: "limiter \<Rightarrow> limiter \<Rightarrow> bool" where
  fire: "ticker_running l \<Longrightarrow>
     lim_step l (l\<lparr>ticker_C := (case ticker_C l of None \<Rightarrow> Some t | Some u \<Rightarrow> Some u), fired := Suc (fired l)\<rparr>)"
| refill: "worker l \<Longrightarrow> ticker_C l = Some t \<Longrightarrow> length (Throttle l) < burst l \<Longrightarrow>
     lim_step l (l\<lparr>ticker_C := None, Throttle := Throttle l @ [t]\<rparr>)"
| drop: "worker l \<Longrightarrow> ticker_C l = Some t \<Longrightarrow> length (Throttle l) \<ge> burst l \<Longrightarrow> stop_call l \<noteq> Sending_quit \<Longrightarrow>
     lim_step l (l\<lparr>ticker_C := None\<rparr>)"
| quit: "worker l \<Longrightarrow> ticker_C l = Some t \<Longrightarrow> stop_call l = Sending_quit \<Longrightarrow>
     lim_step l (l\<lparr>ticker_C := None, worker := False, stop_call := Stopped, Throttle_closed := True\<rparr>)"
| wait: "Throttle l = t # ts \<Longrightarrow> lim_step l (l\<lparr>Throttle := ts, passed := Suc (passed l)\<rparr>)"
| wait_closed: "Throttle l = [] \<Longrightarrow> Throttle_closed l \<Longrightarrow> lim_step l (l\<lparr>passed := Suc (passed l)\<rparr>)"
| stop: "stop_call l = Idle \<Longrightarrow>
     lim_step l (l\<lparr>ticker_running := False, stop_call := Sending_quit\<rparr>)"

inductive_cases lim_stepE: "lim_step l l'"

inductive lim_reach :: "limiter \<Rightarrow> limiter \<Rightarrow> bool" where
  refl: "lim_reach l l"
| step: "lim_reach l l' \<Longrightarrow> lim_step l' l'' \<Longrightarrow> lim_reach l l''"

record peer_limiter =
  queryLimiter :: limiter
  announceLimiter :: limiter

definition PeerLimiter_Setup :: "int \<Rightarrow> peer_limiter" where
  "PeerLimiter_Setup now =
     \<lparr>queryLimiter = NewLimiter now 3 True, announceLimiter = NewLimiter now 3 True\<rparr>"

section \<open>Invariant\<close>

definition lim_inv :: "nat \<Rightarrow> nat \<Rightarrow> limiter \<Rightarrow> bool" where
  "lim_inv b n l \<longleftrightarrow>
     burst l = b \<and> length (Throttle l) \<le> b \<and> (worker l \<longleftrightarrow> \<not> Throttle_closed l) \<and>
     (Throttle_closed l \<longleftrightarrow> stop_call l = Stopped) \<and> (ticker_running l \<longleftrightarrow> stop_call l = Idle) \<and>
     (\<not> Throttle_closed l \<longrightarrow>
       passed l + length (Throttle l) + (if ticker_C l = None then 0 else 1) \<le> n + fired l)"

lemma lim_step_inv: "lim_step l l' \<Longrightarrow> lim_inv b n l \<Longrightarrow> lim_inv b n l'"
  by (erule lim_stepE) (auto simp: lim_inv_def split: option.splits)

lemma lim_reach_run: "lim_reach l l' \<Longrightarrow> rtranclp lim_step l l'"
  by (induction rule: lim_reach.induct) (auto intro: rtranclp.rtrancl_into_rtrancl)

interpretation lim_sys: invariant_system "lim_inv b n" lim_step "\<lambda>l'. \<exists>l. lim_inv b n l \<and> lim_reach l l'" "lim_inv b n" for b n
  by unfold_locales (auto intro: lim_reach_run lim_step_inv)

text \<open>A call of \<open>Stop\<close> that waits for the goroutine while no tick is pending.\<close>

definition stuck :: "limiter \<Rightarrow> bool" where
  "stuck l \<longleftrightarrow> \<not> ticker_running l \<and> ticker_C l = None \<and> stop_call l = Sending_quit \<and> worker l"

interpretation lim_stuck: invariant_system stuck lim_step "\<lambda>l'. \<exists>l. stuck l \<and> lim_reach l l'" stuck
  by unfold_locales (auto intro: lim_reach_run simp: stuck_def elim!: lim_stepE)

lemma NewLimiter_inv: "lim_inv b (if fill then b else 0) (NewLimiter now b fill)"
  by (simp add: lim_inv_def NewLimiter_def)

section \<open>Properties\<close>

text \<open>C20: In every state a limiter reaches, however its goroutine and its callers are interleaved, the bucket holds
  at most \<open>burst\<close> tokens, and until it is stopped the number of \<open>Wait\<close> calls that returned is at most
  the initial fill plus the number of ticks of the clock.\<close>

theorem limiter_bounds:
  assumes "lim_reach (NewLimiter now b fill) l"
  shows "length (Throttle l) \<le> b \<and>
    (stop_call l \<noteq> Stopped \<longrightarrow> passed l \<le> (if fill then b else 0) + fired l)"
  using lim_sys.run_inv [OF lim_reach_run [OF assms] NewLimiter_inv] by (auto simp: lim_inv_def split: if_splits)


text \<open>With a tick pending the goroutine can take the quit, so that \<open>Stop\<close> can return.\<close>

lemma limiter_Stop_returns:
  assumes "worker l" "ticker_C l = Some t" "stop_call l = Sending_quit"
  shows "\<exists>l'. lim_step l l' \<and> stop_call l' = Stopped \<and> Throttle_closed l'"
  using lim_step.quit [OF assms] by fastforce

theorem limiter_bounds_witness:
  "\<exists>l. lim_reach (NewLimiter 0 1 True) l \<and> passed l = 1 \<and> Throttle l = [] \<and> passed l \<le> 1 + fired l"
proof -
  let ?l = "(NewLimiter 0 1 True)\<lparr>Throttle := [], passed := 1\<rparr>"
  have "lim_step (NewLimiter 0 1 True) ?l"
    using lim_step.wait [of "NewLimiter 0 1 True" 0 "[]"] by (simp add: NewLimiter_def)
  then have r: "lim_reach (NewLimiter 0 1 True) ?l" by (rule lim_reach.step [OF lim_reach.refl])
  from limiter_bounds [OF r] r show ?thesis by (intro exI [of _ ?l]) (simp add: NewLimiter_def)
qed


end
