(* ===== verification/Protocol.thy ===== *)
theory Protocol
  imports NetDB Post_Store
begin

text \<open>
  Messages and the client side of the protocol: \<^verbatim>\<open>proto/message.go\<close>, \<^verbatim>\<open>proto/messages.go\<close>,
  \<^verbatim>\<open>proto/protocolinfo.go\<close>, \<^verbatim>\<open>proto/capabilities.go\<close> and \<^verbatim>\<open>proto/client.go\<close>.

  The content of a message is a msgpack document. A document is represented by the value it was
  encoded from (\<open>wire\<close>), or by raw bytes when another program made it. Decoding is a parameter
  (\<open>msgpack\<close>) with the law that a document of the expected type gives its value back; what
  a decoder does with any other document is left open. Unexported fields are not encoded.

  A connection is seen from one side: \<open>inbox\<close> is what the other side will have sent by the time each
  read happens (an error for bytes that are no message), \<open>outbox\<close> what was written (\<open>streamed\<close> for
  the compressed posts that are not messages), and \<open>wfaults\<close>
  the script of write failures. Reading past the end of the inbox is the end of the stream, and a
  closed connection neither reads nor writes.
\<close>

section \<open>Documents\<close>

record search_query =
  SQ_Query :: string
  SQ_Page :: int

record request_piece =
  RP_Address :: string
  RP_Id :: int
  RP_Length :: int

datatype wire =
    WEntry "entry option"
  | WEntries "entry option list"
  | WAddress address
  | WBytes bytes
  | WString string
  | WInt int
  | WCaps "string list"
  | WPosts "post option list"
  | WCollection mcollection
  | WPiece request_piece
  | WSearch search_query
  | WRaw bytes

text \<open>
  \<open>dec_caps\<close> and \<open>dec_array\<close> are the values a decoder leaves in its target when the caller ignores
  the error; \<open>wire_bytes\<close> is the encoding of a document. A reader sees the first
  \<open>MaxMessageContentSize\<close> bytes of a content, so that a longer document ends early.
\<close>

record msgpack =
  dec_entry :: "wire \<Rightarrow> entry res"
  dec_entries :: "wire \<Rightarrow> entry option list res"
  dec_address :: "wire \<Rightarrow> address res"
  dec_posts :: "wire \<Rightarrow> post option list res"
  dec_int :: "wire \<Rightarrow> int res"
  dec_search :: "wire \<Rightarrow> search_query res"
  dec_piece :: "wire \<Rightarrow> request_piece res"
  dec_coll :: "wire \<Rightarrow> mcollection res"
  dec_caps :: "wire \<Rightarrow> string list"
  dec_array :: "nat \<Rightarrow> wire \<Rightarrow> bytes"
  wire_bytes :: "wire \<Rightarrow> bytes"

definition MaxEntrySize :: nat where "MaxEntrySize = 1024 * 1024 * 4"
definition MaxMessageContentSize :: nat where "MaxMessageContentSize = MaxEntrySize"

definition too_big :: "msgpack \<Rightarrow> wire \<Rightarrow> bool" where
  "too_big M w \<longleftrightarrow> length (wire_bytes M w) > MaxMessageContentSize"

definition exported :: "entry \<Rightarrow> entry" where
  "exported e = e\<lparr>distance := empty_address\<rparr>"

definition msgpack_ok :: "msgpack \<Rightarrow> bool" where
  "msgpack_ok M \<longleftrightarrow>
     (\<forall>e. dec_entry M (WEntry (Some e)) = Ok (exported e)) \<and>
     (\<forall>es. dec_entries M (WEntries es) = Ok (map (map_option exported) es)) \<and>
     (\<forall>a. dec_address M (WAddress a) = Ok a) \<and>
     (\<forall>ps. dec_posts M (WPosts ps) = Ok ps) \<and>
     (\<forall>i. dec_int M (WInt i) = Ok i) \<and>
     (\<forall>s. dec_search M (WSearch s) = Ok s) \<and>
     (\<forall>r. dec_piece M (WPiece r) = Ok r) \<and>
     (\<forall>c. dec_coll M (WCollection c) = Ok (c\<lparr>MC_HashList := slice_of (sdata (MC_HashList c))\<rparr>)) \<and>
     (\<forall>c. dec_caps M (WCaps c) = c) \<and>
     (\<forall>b. dec_array M (length b) (WBytes b) = b) \<and>
     (\<forall>n w. length (dec_array M n w) = n)"

text \<open>The libraries a node is linked with; \<open>json_enc\<close> and \<open>json_dec\<close> are \<^verbatim>\<open>encoding/json\<close> on entries.\<close>

record libs =
  CR :: crypto
  SQ :: sqlite
  PQ :: psqlite
  MP :: msgpack
  json_enc :: "entry \<Rightarrow> string"
  json_dec :: "string \<Rightarrow> entry res"

section \<open>Messages\<close>

definition ProtoHeader :: string where "ProtoHeader = ''header''"
definition ProtoCap :: string where "ProtoCap = '':ap''"
definition ProtoOk :: string where "ProtoOk = ''ok''"
definition ProtoNo :: string where "ProtoNo = ''no''"
definition ProtoCookie :: string where "ProtoCookie = ''cookie''"
definition ProtoSig :: string where "ProtoSig = ''sig''"
definition ProtoSearch :: string where "ProtoSearch = ''search''"
definition ProtoRecent :: string where "ProtoRecent = ''recent''"
definition ProtoPopular :: string where "ProtoPopular = ''popular''"
definition ProtoRequestHashList :: string where "ProtoRequestHashList = ''req.hashlist''"
definition ProtoRequestPiece :: string where "ProtoRequestPiece = ''req.piece''"
definition ProtoRequestAddPeer :: string where "ProtoRequestAddPeer = ''req.addpeer''"
definition ProtoPosts :: string where "ProtoPosts = ''posts''"
definition ProtoHashList :: string where "ProtoHashList = ''hashlist''"
definition ProtoDhtEntry :: string where "ProtoDhtEntry = ''dht.entry''"
definition ProtoDhtEntries :: string where "ProtoDhtEntries = ''dht.entries''"
definition ProtoDhtQuery :: string where "ProtoDhtQuery = ''dht.query''"
definition ProtoDhtAnnounce :: string where "ProtoDhtAnnounce = ''dht.announce''"
definition ProtoDhtFindClosest :: string where "ProtoDhtFindClosest = ''dht.findclosest''"

lemmas proto_headers = ProtoHeader_def ProtoCap_def ProtoOk_def ProtoNo_def ProtoCookie_def ProtoSig_def
  ProtoSearch_def ProtoRecent_def ProtoPopular_def ProtoRequestHashList_def ProtoRequestPiece_def
  ProtoRequestAddPeer_def ProtoPosts_def ProtoHashList_def ProtoDhtEntry_def ProtoDhtEntries_def
  ProtoDhtQuery_def ProtoDhtAnnounce_def ProtoDhtFindClosest_def

record message =
  Header :: string
  Content :: "wire option"

text \<open>A message without content, and one after \<open>Write\<close>.\<close>

definition bare :: "string \<Rightarrow> message" where
  "bare h = \<lparr>Header = h, Content = None\<rparr>"

definition Message_Write :: "wire \<Rightarrow> message \<Rightarrow> message" where
  "Message_Write w m = m\<lparr>Content := Some w\<rparr>"

definition Message_Read :: "msgpack \<Rightarrow> (wire \<Rightarrow> 'a res) \<Rightarrow> message \<Rightarrow> 'a res" where
  "Message_Read M dec m =
     (case Content m of
        None \<Rightarrow> Err (ErrNew ''Message has no content'')
      | Some w \<Rightarrow> if too_big M w then Err ErrEOF else dec w)"

definition Message_ReadInt :: "msgpack \<Rightarrow> message \<Rightarrow> int res" where
  "Message_ReadInt M m = Message_Read M (dec_int M) m"

definition Message_Ok :: "message \<Rightarrow> bool" where
  "Message_Ok m \<longleftrightarrow> Header m = ProtoOk"

text \<open>The inner loop over the client's list and the outer one over the server's.\<close>

fun matching_compression :: "string \<Rightarrow> string list \<Rightarrow> string \<Rightarrow> string" where
  "matching_compression i [] c = c"
| "matching_compression i (j # js) c = matching_compression i js (if i = j then i else c)"

fun choose_compression :: "string list \<Rightarrow> string list \<Rightarrow> string \<Rightarrow> string" where
  "choose_compression client [] c = c"
| "choose_compression client (i # is) c =
     (if c \<noteq> [] then c else choose_compression client is (matching_compression i client c))"

definition ChooseCompression :: "string list \<Rightarrow> string list \<Rightarrow> string" where
  "ChooseCompression client server = choose_compression client server []"

section \<open>Connections\<close>

record client =
  inbox :: "message res list"
  outbox :: "message list"
  sent_raw :: "int list"
  streamed :: string
  closed :: bool
  wfaults :: "bool list"

definition NewClient :: "client \<Rightarrow> client res" where
  "NewClient c = Ok c"

definition Client_Close :: "(client, unit) proc" where
  "Client_Close = modify (\<lambda>c. c\<lparr>closed := True\<rparr>)"

definition WriteMessage :: "message \<Rightarrow> (client, unit) proc" where
  "WriteMessage m c =
     (if closed c then (Err ErrEOF, c)
      else case wfaults c of
             [] \<Rightarrow> (Ok (), c\<lparr>outbox := outbox c @ [m]\<rparr>)
           | b # bs \<Rightarrow>
               if b then (Err ErrEOF, c\<lparr>wfaults := bs\<rparr>)
               else (Ok (), c\<lparr>outbox := outbox c @ [m], wfaults := bs\<rparr>))"

text \<open>\<open>binary.Write\<close> of an \<open>int16\<close>, before the first message.\<close>

definition WriteInt16 :: "int \<Rightarrow> (client, unit) proc" where
  "WriteInt16 i c =
     (if closed c then (Err ErrEOF, c)
      else case wfaults c of
             [] \<Rightarrow> (Ok (), c\<lparr>sent_raw := sent_raw c @ [i]\<rparr>)
           | b # bs \<Rightarrow>
               if b then (Err ErrEOF, c\<lparr>wfaults := bs\<rparr>)
               else (Ok (), c\<lparr>sent_raw := sent_raw c @ [i], wfaults := bs\<rparr>))"

text \<open>The text of an error; those of the driver and of the decoders are not told apart.\<close>

fun error_text :: "err \<Rightarrow> string" where
  "error_text (ErrNew s) = s"
| "error_text ErrNoRows = ''sql: no rows in result set''"
| "error_text ErrEOF = ''EOF''"
| "error_text (AddressResolutionError a) = ''Failed to resolve address, address may not exist or is not reachable''"
| "error_text PeerUnreachable = ''Peer could not be reached''"
| "error_text PeerDisconnected = ''Peer has disconnected''"
| "error_text RecursionLimit = ''Recursion limit reached, peer cannot be resolved''"
| "error_text _ = ''error''"

definition WriteErr :: "string \<Rightarrow> (client, unit) proc" where
  "WriteErr toSend = WriteMessage (Message_Write (WString toSend) (bare ProtoNo))"

definition ReadMessage :: "(client, message) proc" where
  "ReadMessage c =
     (if closed c then (Err ErrEOF, c)
      else case inbox c of
             [] \<Rightarrow> (Err ErrEOF, c)
           | r # rs \<Rightarrow> (r, c\<lparr>inbox := rs\<rparr>))"

text \<open>A call whose error is ignored.\<close>

definition ignore :: "('s, 'a) proc \<Rightarrow> ('s, unit) proc" where
  "ignore m = bind (attempt m) (\<lambda>_. ret ())"

lemma preserves_ignore [proc_intros]: "preserves I m \<Longrightarrow> preserves I (ignore m)"
  unfolding ignore_def by (intro proc_intros)

text \<open>A deferred call: it runs whatever the outcome of the body is, panics included.\<close>

definition deferred :: "('s, 'a) proc \<Rightarrow> ('s, unit) proc \<Rightarrow> ('s, 'a) proc" where
  "deferred m d s = (case m s of (r, s1) \<Rightarrow> (r, snd (d s1)))"

lemma preserves_deferred [proc_intros]:
  "preserves I m \<Longrightarrow> preserves I d \<Longrightarrow> preserves I (deferred m d)"
  by (auto simp: preserves_def deferred_def split: prod.splits)

section \<open>Requests\<close>

definition SendStruct :: "wire \<Rightarrow> (client, unit) proc" where
  "SendStruct e = ignore (WriteMessage (Message_Write e (bare ProtoDhtEntry)))"

definition Client_Announce :: "entry \<Rightarrow> (client, unit) proc" where
  "Client_Announce e =
     bind (WriteMessage (Message_Write (WEntry (Some e)) (bare ProtoDhtAnnounce))) (\<lambda>_.
     bind ReadMessage (\<lambda>reply.
       if \<not> Message_Ok reply then fail (ErrNew ''Peer did not respond with ok'') else ret ()))"

definition Client_FindClosest :: "msgpack \<Rightarrow> address \<Rightarrow> (client, entry option list) proc" where
  "Client_FindClosest M addr =
     bind (WriteMessage (Message_Write (WAddress addr) (bare ProtoDhtFindClosest))) (\<lambda>_.
     bind ReadMessage (\<lambda>closest. lift_res (Message_Read M (dec_entries M) closest)))"

definition Client_Query :: "crypto \<Rightarrow> msgpack \<Rightarrow> address \<Rightarrow> (client, entry) proc" where
  "Client_Query C M addr =
     bind (WriteMessage (Message_Write (WAddress addr) (bare ProtoDhtQuery))) (\<lambda>_.
     bind ReadMessage (\<lambda>er.
       if Header er = ProtoNo then fail (ErrNew ''Peer returned no'')
       else
         bind (lift_res (Message_Read M (dec_entry M) er)) (\<lambda>entry.
         bind (lift_res (Entry_Verify C (Some entry))) (\<lambda>_. ret entry))))"

text \<open>The loop of \<open>Bootstrap\<close>: a nil entry is dereferenced before it is compared with nil.\<close>

fun bootstrap_loop :: "crypto \<Rightarrow> sqlite \<Rightarrow> address \<Rightarrow> entry option list \<Rightarrow> (netdb, unit) proc" where
  "bootstrap_loop C q addr [] = ret ()"
| "bootstrap_loop C q addr (None # is) = panic"
| "bootstrap_loop C q addr (Some i # is) =
     (if Address_Equals (Address i) addr then bootstrap_loop C q addr is
      else
        bind (attempt (lift_res (Entry_Verify C (Some i)))) (\<lambda>v.
          case v of
            Inl err \<Rightarrow> bootstrap_loop C q addr is
          | Inr _ \<Rightarrow> bind (DHT_Insert C q i) (\<lambda>_. bootstrap_loop C q addr is)))"

definition Client_Bootstrap :: "crypto \<Rightarrow> sqlite \<Rightarrow> msgpack \<Rightarrow> address \<Rightarrow> (client \<times> netdb, unit) proc" where
  "Client_Bootstrap C q M addr =
     deferred
       (bind (zoom fst apfst (Client_FindClosest M addr)) (\<lambda>peers.
        zoom snd apsnd (bootstrap_loop C q addr peers)))
       (zoom fst apfst Client_Close)"

definition Client_Search :: "msgpack \<Rightarrow> string \<Rightarrow> int \<Rightarrow> (client, post option list) proc" where
  "Client_Search M search page =
     bind (ignore (WriteMessage
       (Message_Write (WSearch \<lparr>SQ_Query = search, SQ_Page = page\<rparr>) (bare ProtoSearch)))) (\<lambda>_.
     bind ReadMessage (\<lambda>recv. lift_res (Message_Read M (dec_posts M) recv)))"

definition Client_Recent :: "msgpack \<Rightarrow> int \<Rightarrow> (client, post option list) proc" where
  "Client_Recent M page =
     bind (WriteMessage (Message_Write (WInt page) (bare ProtoRecent))) (\<lambda>_.
     bind ReadMessage (\<lambda>posts_msg. lift_res (Message_Read M (dec_posts M) posts_msg)))"

definition Client_Popular :: "msgpack \<Rightarrow> int \<Rightarrow> (client, post option list) proc" where
  "Client_Popular M page =
     bind (WriteMessage (Message_Write (WInt page) (bare ProtoPopular))) (\<lambda>_.
     bind ReadMessage (\<lambda>posts_msg. lift_res (Message_Read M (dec_posts M) posts_msg)))"

definition Client_Collection :: "crypto \<Rightarrow> msgpack \<Rightarrow> address \<Rightarrow> entry \<Rightarrow> (client, mcollection) proc" where
  "Client_Collection C M addr entry =
     bind (WriteMessage (Message_Write (WAddress addr) (bare ProtoRequestHashList))) (\<lambda>_.
     bind ReadMessage (\<lambda>hl.
     bind (lift_res (Message_Read M (dec_coll M) hl)) (\<lambda>mhl.
     bind (lift_res (MessageCollection_Verify C mhl (CollectionHash entry))) (\<lambda>_. ret mhl))))"

text \<open>
  \<open>Pieces\<close>: the request, and then the pieces read from the stream. The stream is what the gzip reader
  delivers, an error when the connection does not start with a gzip header. The result is nil, or
  what is sent into the channel before it is closed.
\<close>

definition Client_Pieces :: "address \<Rightarrow> int \<Rightarrow> int \<Rightarrow> string res \<Rightarrow> (client, piece list option) proc" where
  "Client_Pieces addr i len stream =
     bind (attempt (WriteMessage (Message_Write
       (WPiece \<lparr>RP_Address = Address_StringOr addr [], RP_Id = i, RP_Length = len\<rparr>) (bare ProtoRequestPiece)))) (\<lambda>r.
       case r of
         Inl err \<Rightarrow> ret None
       | Inr _ \<Rightarrow>
           ret (Some (case stream of
                  Ok s \<Rightarrow> read_pieces (nat len) (NewErrorReader s)
                | _ \<Rightarrow> [])))"

definition Client_RequestAddPeer :: "address \<Rightarrow> (client, unit) proc" where
  "Client_RequestAddPeer addr =
     bind (WriteMessage (Message_Write (WAddress addr) (bare ProtoRequestAddPeer))) (\<lambda>_.
     bind ReadMessage (\<lambda>rep.
       if \<not> Message_Ok rep then fail (ErrNew ''Peer add request failed'') else ret ()))"

end
