(* ===== verification/Handshake.thy ===== *)
theory Handshake
  imports Protocol
begin

text \<open>
  The handshake of \<^verbatim>\<open>proto/handshake.go\<close> and the connection state of a peer, \<^verbatim>\<open>proto/streammanager.go\<close>.
  Each side proves with a signature of a random cookie that it holds the private key of the entry
  it presents. The cookie is drawn by the argument \<open>read\<close>, the failures of the multiplexer
  (yamux) are arguments.
\<close>

section \<open>Receiving\<close>

text \<open>\<open>check\<close> closes the connection on an error; in the first three uses a refusal is written afterwards.\<close>

definition check :: "(client, 'a) proc \<Rightarrow> (client, 'a) proc" where
  "check m =
     bind (attempt m) (\<lambda>r.
       case r of
         Inl e \<Rightarrow> bind Client_Close (\<lambda>_. fail e)
       | Inr x \<Rightarrow> ret x)"

definition check_no :: "(client, 'a) proc \<Rightarrow> (client, 'a) proc" where
  "check_no m =
     bind (attempt m) (\<lambda>r.
       case r of
         Inl e \<Rightarrow> bind Client_Close (\<lambda>_. bind (ignore (WriteMessage (bare ProtoNo))) (\<lambda>_. fail e))
       | Inr x \<Rightarrow> ret x)"

definition read_caps :: "msgpack \<Rightarrow> message \<Rightarrow> string list" where
  "read_caps M m = (case Content m of None \<Rightarrow> [] | Some w \<Rightarrow> dec_caps M w)"

definition read_array :: "msgpack \<Rightarrow> nat \<Rightarrow> message \<Rightarrow> bytes" where
  "read_array M n m = (case Content m of None \<Rightarrow> replicate n 0 | Some w \<Rightarrow> dec_array M n w)"

definition handshake_recieve :: "crypto \<Rightarrow> msgpack \<Rightarrow> (nat \<Rightarrow> bytes res) \<Rightarrow> (client, entry \<times> string list) proc" where
  "handshake_recieve C M read =
     bind (check_no ReadMessage) (\<lambda>header.
     bind (check_no (lift_res (Message_Read M (dec_entry M) header))) (\<lambda>entry.
     bind (check_no (lift_res (Entry_Verify C (Some entry)))) (\<lambda>_.
     bind (check (WriteMessage (bare ProtoOk))) (\<lambda>_.
     bind (check ReadMessage) (\<lambda>peerCapsMsg.
     bind (check (lift_res (CryptoRandBytes read 20))) (\<lambda>cookie.
     bind (check (WriteMessage (Message_Write (WBytes cookie) (bare ProtoCookie)))) (\<lambda>_.
     bind (check ReadMessage) (\<lambda>sig.
     bind (lift_res (ed25519_Verify C (PublicKey entry) cookie (read_array M SignatureSize sig))) (\<lambda>verified.
       if \<not> verified then
         bind (ignore (WriteMessage (bare ProtoNo))) (\<lambda>_.
         bind Client_Close (\<lambda>_. fail (ErrNew ''Signature not verified'')))
       else
         bind (ignore (WriteMessage (bare ProtoOk))) (\<lambda>_.
         ret (entry, read_caps M peerCapsMsg)))))))))))"

section \<open>Sending\<close>

text \<open>\<open>sk\<close> and \<open>caps\<close> are the signer's private key and its capabilities, \<open>data\<close> the entry it presents.\<close>

definition handshake_send :: "crypto \<Rightarrow> msgpack \<Rightarrow> bytes \<Rightarrow> string list \<Rightarrow> entry \<Rightarrow> (client, unit) proc" where
  "handshake_send C M sk caps data =
     bind (WriteMessage (Message_Write (WEntry (Some data)) (bare ProtoHeader))) (\<lambda>_.
     bind ReadMessage (\<lambda>msg.
     if \<not> Message_Ok msg then fail (ErrNew ''Peer refused header'')
     else
       bind (WriteMessage (Message_Write (WCaps caps) (bare ProtoCap))) (\<lambda>_.
       bind ReadMessage (\<lambda>msg.
       bind (lift_res (ed25519_Sign C sk (read_array M 20 msg))) (\<lambda>sig.
       bind (WriteMessage (Message_Write (WBytes sig) (bare ProtoSig))) (\<lambda>_.
       bind ReadMessage (\<lambda>msg.
       if \<not> Message_Ok msg then fail (ErrNew ''Peer refused signature'')
       else ret ())))))))"

text \<open>The accepting side; the signer may be nil.\<close>

definition handshake :: "crypto \<Rightarrow> msgpack \<Rightarrow> (nat \<Rightarrow> bytes res) \<Rightarrow> (bytes \<times> string list) option \<Rightarrow> entry
    \<Rightarrow> (client, entry \<times> string list) proc" where
  "handshake C M read lp data =
     bind (attempt (handshake_recieve C M read)) (\<lambda>r.
       case r of
         Inl err \<Rightarrow> bind (ignore (WriteErr (error_text err))) (\<lambda>_. fail err)
       | Inr (header, caps) \<Rightarrow>
           (case lp of
              None \<Rightarrow>
                bind (ignore (WriteErr ''Nil localpeer'')) (\<lambda>_. fail (ErrNew ''Handshake passed nil LocalPeer''))
            | Some (sk, my_caps) \<Rightarrow>
                bind (ignore (WriteMessage (bare ProtoOk))) (\<lambda>_.
                bind (handshake_send C M sk my_caps data) (\<lambda>_. ret (header, caps)))))"

section \<open>Connections of a peer\<close>

record conn_header =
  CH_Client :: client
  CH_Entry :: entry
  CH_Caps :: "string list"

record stream_manager =
  sm_connection :: "conn_header option"
  sm_server :: bool
  sm_client :: bool
  sm_clients :: "nat list"
  Socks :: bool
  SocksPort :: int
  torDialer :: bool

definition empty_sm :: stream_manager where
  "empty_sm = \<lparr>sm_connection = None, sm_server = False, sm_client = False, sm_clients = [],
     Socks = False, SocksPort = 0, torDialer = False\<rparr>"

definition SetConnection :: "conn_header \<Rightarrow> stream_manager \<Rightarrow> stream_manager" where
  "SetConnection h sm = sm\<lparr>sm_connection := Some h\<rparr>"

definition SM_Setup :: "stream_manager \<Rightarrow> stream_manager" where
  "SM_Setup sm = sm\<lparr>sm_server := False, sm_client := False, sm_clients := []\<rparr>"

text \<open>The connecting side: the error of \<open>handshake_send\<close> is overwritten by that of the read after it.\<close>

definition SM_Handshake :: "crypto \<Rightarrow> msgpack \<Rightarrow> (nat \<Rightarrow> bytes res) \<Rightarrow> bytes \<times> string list \<Rightarrow> entry
    \<Rightarrow> (client, (entry \<times> string list) option) proc" where
  "SM_Handshake C M read lp data =
     bind (ignore (handshake_send C M (fst lp) (snd lp) data)) (\<lambda>_.
     bind (attempt ReadMessage) (\<lambda>r.
       case r of
         Inl err \<Rightarrow> ret None
       | Inr msg \<Rightarrow>
           if \<not> Message_Ok msg
           then fail (ErrNew (case Content msg of None \<Rightarrow> [] | Some w \<Rightarrow> to_string (wire_bytes M w)))
           else bind (handshake_recieve C M read) (\<lambda>hc. ret (Some hc))))"

definition ProtoZif :: int where "ProtoZif = 0x7a66"
definition ProtoVersion :: int where "ProtoVersion = 0"

text \<open>A new connection: the magic numbers, the handshake, and the header to be stored.\<close>

definition handleConnection :: "crypto \<Rightarrow> msgpack \<Rightarrow> (nat \<Rightarrow> bytes res) \<Rightarrow> bytes \<times> string list \<Rightarrow> entry
    \<Rightarrow> (client, entry \<times> string list) proc" where
  "handleConnection C M read lp data =
     bind (WriteInt16 ProtoZif) (\<lambda>_.
     bind (WriteInt16 ProtoVersion) (\<lambda>_.
     bind (SM_Handshake C M read lp data) (\<lambda>r.
       case r of
         None \<Rightarrow> fail (ErrNew ''Failed to handshake, nil entry'')
       | Some hc \<Rightarrow> ret hc)))"

text \<open>
  \<open>OpenSocks\<close> and \<open>OpenTCP\<close>: \<open>dialer\<close> is the outcome of creating the proxy dialer, \<open>dial\<close> that of
  dialling, whose connection the result header keeps.
\<close>

definition store_connection :: "crypto \<Rightarrow> msgpack \<Rightarrow> (nat \<Rightarrow> bytes res) \<Rightarrow> bytes \<times> string list \<Rightarrow> entry
    \<Rightarrow> client res \<Rightarrow> (stream_manager, conn_header) proc" where
  "store_connection C M read lp data dial =
     bind (lift_res dial) (\<lambda>c.
       case handleConnection C M read lp data c of
         (Ok (header, caps), c') \<Rightarrow>
           (let pair = \<lparr>CH_Client = c', CH_Entry = header, CH_Caps = caps\<rparr>
            in bind (modify (SetConnection pair)) (\<lambda>_. ret pair))
       | (Err e, c') \<Rightarrow> fail e
       | (Panic, c') \<Rightarrow> panic)"

definition OpenSocks :: "crypto \<Rightarrow> msgpack \<Rightarrow> (nat \<Rightarrow> bytes res) \<Rightarrow> unit res \<Rightarrow> bytes \<times> string list \<Rightarrow> entry
    \<Rightarrow> client res \<Rightarrow> (stream_manager, conn_header) proc" where
  "OpenSocks C M read dialer lp data dial =
     bind (gets torDialer) (\<lambda>have.
     bind (if have then ret () else bind (lift_res dialer) (\<lambda>_. modify (\<lambda>sm. sm\<lparr>torDialer := True\<rparr>))) (\<lambda>_.
     store_connection C M read lp data dial))"

definition OpenTCP :: "crypto \<Rightarrow> msgpack \<Rightarrow> (nat \<Rightarrow> bytes res) \<Rightarrow> unit res \<Rightarrow> bytes \<times> string list \<Rightarrow> entry
    \<Rightarrow> client res \<Rightarrow> (stream_manager, conn_header) proc" where
  "OpenTCP C M read dialer lp data dial =
     bind (gets (\<lambda>sm. sm)) (\<lambda>sm.
       if Socks sm then OpenSocks C M read dialer lp data dial
       else case sm_connection sm of
              Some h \<Rightarrow> ret h
            | None \<Rightarrow> store_connection C M read lp data dial)"

definition ConnectClient :: "unit res \<Rightarrow> (stream_manager, unit) proc" where
  "ConnectClient yamux =
     bind (gets (\<lambda>sm. sm)) (\<lambda>sm.
       if sm_client sm then ret ()
       else if sm_server sm then fail (ErrNew ''There is already a server connected to that socket'')
       else bind (lift_res yamux) (\<lambda>_. modify (\<lambda>sm. sm\<lparr>sm_client := True\<rparr>)))"

definition ConnectServer :: "unit res \<Rightarrow> (stream_manager, unit) proc" where
  "ConnectServer yamux =
     bind (gets (\<lambda>sm. sm)) (\<lambda>sm.
       if sm_server sm then ret ()
       else if sm_client sm then fail (ErrNew ''There is already a client connected to that socket'')
       else bind (lift_res yamux) (\<lambda>_. modify (\<lambda>sm. sm\<lparr>sm_server := True\<rparr>)))"

definition SM_GetSession :: "stream_manager \<Rightarrow> bool" where
  "SM_GetSession sm = (if sm_server sm then True else if sm_client sm then True else False)"

definition SM_Close :: "stream_manager \<Rightarrow> stream_manager" where
  "SM_Close sm = sm\<lparr>sm_connection := map_option (\<lambda>h. h\<lparr>CH_Client := snd (Client_Close (CH_Client h))\<rparr>) (sm_connection sm)\<rparr>"

text \<open>\<open>stream\<close> and \<open>deadline\<close> are the outcomes of \<open>session.Open\<close> and \<open>SetDeadline\<close>.\<close>

definition SM_OpenStream :: "client res \<Rightarrow> unit res \<Rightarrow> (stream_manager, client) proc" where
  "SM_OpenStream stream deadline =
     bind (gets SM_GetSession) (\<lambda>session.
       if \<not> session then fail (ErrNew ''Cannot open stream, no session'')
       else
         bind (lift_res stream) (\<lambda>c.
         bind (lift_res deadline) (\<lambda>_. ret c)))"

text \<open>Streams are known by their number.\<close>

definition SM_AddStream :: "nat \<Rightarrow> stream_manager \<Rightarrow> stream_manager" where
  "SM_AddStream i sm = sm\<lparr>sm_clients := sm_clients sm @ [i]\<rparr>"

definition SM_GetStream :: "nat \<Rightarrow> stream_manager \<Rightarrow> nat option" where
  "SM_GetStream i sm = find (\<lambda>c. c = i) (sm_clients sm)"

text \<open>
  The loop of \<open>RemoveStream\<close> ranges over the slice as it was at the start, while it deletes in place
  by position: the elements are read from the array that the deletions shift. \<open>buf\<close> is the array,
  \<open>len\<close> the length of the slice; slicing past the capacity, the length of the array, panics.
\<close>

fun remove_loop :: "nat \<Rightarrow> nat list \<Rightarrow> nat list \<Rightarrow> nat \<Rightarrow> (nat list \<times> nat) res" where
  "remove_loop k [] buf len = Ok (buf, len)"
| "remove_loop k (i # is) buf len =
     (if buf ! i \<noteq> k then remove_loop k is buf len
      else if i + 1 > len then Panic
      else
        (let rest = drop (i + 1) (take len buf)
         in remove_loop k is (overwrite i rest buf) (i + length rest)))"

definition SM_RemoveStream :: "nat \<Rightarrow> stream_manager \<Rightarrow> stream_manager res" where
  "SM_RemoveStream k sm =
     res_bind (remove_loop k [0..<length (sm_clients sm)] (sm_clients sm) (length (sm_clients sm)))
       (\<lambda>(buf, len). Ok (sm\<lparr>sm_clients := take len buf\<rparr>))"

end
