(* ===== verification/Handshake_Props.thy ===== *)
theory Handshake_Props
  imports Handshake Instances
begin

text \<open>
  What the handshake guarantees: two honest peers complete it, and whoever completes it has signed
  the fresh cookie with the key of a valid entry. It does not tie the entry's address to the key.
\<close>

section \<open>Running a connection\<close>

text \<open>A connection on which nothing fails and the given messages arrive.\<close>

definition side :: "message list \<Rightarrow> client" where
  "side ms = \<lparr>inbox = map Ok ms, outbox = [], sent_raw = [], streamed = [], closed = False, wfaults = []\<rparr>"

lemma WriteMessage_ok [simp]:
  "\<not> closed c \<Longrightarrow> wfaults c = [] \<Longrightarrow> WriteMessage m c = (Ok (), c\<lparr>outbox := outbox c @ [m]\<rparr>)"
  by (simp add: WriteMessage_def)

lemma ReadMessage_ok [simp]:
  "\<not> closed c \<Longrightarrow> inbox c = r # rs \<Longrightarrow> ReadMessage c = (r, c\<lparr>inbox := rs\<rparr>)"
  by (simp add: ReadMessage_def)

lemma check_run:
  "m c = (Ok x, c') \<Longrightarrow> check m c = (Ok x, c')"
  "m c = (Ok x, c') \<Longrightarrow> check_no m c = (Ok x, c')"
  by (simp_all add: check_def check_no_def bind_def attempt_def ret_def)

lemma ignore_run: "m s = (Ok x, s') \<Longrightarrow> ignore m s = (Ok (), s')"
  by (simp add: ignore_def bind_def attempt_def ret_def)

lemma check_OkE:
  "check m c = (Ok x, c') \<Longrightarrow> m c = (Ok x, c')"
  "check_no m c = (Ok x, c') \<Longrightarrow> m c = (Ok x, c')"
  by (auto simp: check_def check_no_def bind_def attempt_def ret_def fail_def Client_Close_def modify_def ignore_def
      split: res.splits prod.splits)

lemma ReadMessage_OkE:
  assumes "ReadMessage c = (Ok m, c')"
  obtains rs where "inbox c = Ok m # rs" "c' = c\<lparr>inbox := rs\<rparr>" "\<not> closed c"
  using assms by (auto simp: ReadMessage_def split: if_splits list.splits)

lemma WriteMessage_OkE:
  assumes "WriteMessage m c = (Ok u, c')"
  obtains fs where "c' = c\<lparr>outbox := outbox c @ [m], wfaults := fs\<rparr>" "\<not> closed c"
proof (cases "wfaults c")
  case Nil
  with assms have "c' = c\<lparr>outbox := outbox c @ [m], wfaults := []\<rparr>" "\<not> closed c"
    by (cases c; auto simp: WriteMessage_def split: if_splits)+
  then show ?thesis by (rule that)
next
  case (Cons b bs)
  with assms have "c' = c\<lparr>outbox := outbox c @ [m], wfaults := bs\<rparr>" "\<not> closed c"
    by (auto simp: WriteMessage_def split: if_splits)
  then show ?thesis by (rule that)
qed

lemma lift_res_Ok: "lift_res r s = (Ok x, s') \<longleftrightarrow> r = Ok x \<and> s' = s"
  by (auto simp: lift_res_def)

lemma exported_fields [simp]:
  "Address (exported e) = Address e" "PublicKey (exported e) = PublicKey e" "Seeds (exported e) = Seeds e"
  "signed_text (exported e) = signed_text e" "exported (exported e) = exported e"
  by (simp_all add: exported_def signed_text_def)

lemma entry_valid_exported [simp]: "entry_valid C (exported e) = entry_valid C e"
  by (simp add: entry_valid_def exported_def signed_text_def)

section \<open>Two honest peers\<close>

text \<open>What the connecting and the accepting side write.\<close>

definition client_says :: "crypto \<Rightarrow> bytes \<Rightarrow> string list \<Rightarrow> entry \<Rightarrow> bytes \<Rightarrow> bytes \<Rightarrow> message list" where
  "client_says C sk caps e cookie my_cookie =
     [Message_Write (WEntry (Some e)) (bare ProtoHeader), Message_Write (WCaps caps) (bare ProtoCap),
      Message_Write (WBytes (ed_sign C sk cookie)) (bare ProtoSig),
      bare ProtoOk, Message_Write (WBytes my_cookie) (bare ProtoCookie), bare ProtoOk]"

definition server_says :: "crypto \<Rightarrow> bytes \<Rightarrow> string list \<Rightarrow> entry \<Rightarrow> bytes \<Rightarrow> bytes \<Rightarrow> message list" where
  "server_says C sk caps e cookie my_cookie =
     [bare ProtoOk, Message_Write (WBytes my_cookie) (bare ProtoCookie), bare ProtoOk, bare ProtoOk,
      Message_Write (WEntry (Some e)) (bare ProtoHeader), Message_Write (WCaps caps) (bare ProtoCap),
      Message_Write (WBytes (ed_sign C sk cookie)) (bare ProtoSig)]"

lemma read_array_bytes:
  "msgpack_ok M \<Longrightarrow> length b = n \<Longrightarrow> read_array M n (Message_Write (WBytes b) m) = b"
  by (auto simp: read_array_def Message_Write_def msgpack_ok_def)

lemma read_caps_caps: "msgpack_ok M \<Longrightarrow> read_caps M (Message_Write (WCaps c) m) = c"
  by (simp add: read_caps_def Message_Write_def msgpack_ok_def)

lemma Message_Read_entry:
  "msgpack_ok M \<Longrightarrow> \<not> too_big M (WEntry (Some e)) \<Longrightarrow>
   Message_Read M (dec_entry M) (Message_Write (WEntry (Some e)) m) = Ok (exported e)"
  by (simp add: Message_Read_def Message_Write_def msgpack_ok_def)

lemma CryptoRandBytes_20: "CryptoRandBytes (\<lambda>_. Ok b) 20 = Ok b"
  by (simp add: CryptoRandBytes_def)

text \<open>The receiving half on the messages of an honest sender, with whatever follows left unread.\<close>

lemma handshake_recieve_run:
  assumes "crypto_ok C" "msgpack_ok M" "length sk = PrivateKeySize" "PublicKey e = drop 32 sk" "entry_valid C e"
    "\<not> too_big M (WEntry (Some e))" "length cookie = 20"
  shows "handshake_recieve C M (\<lambda>_. Ok cookie)
      \<lparr>inbox = Ok (Message_Write (WEntry (Some e)) (bare ProtoHeader)) # Ok (Message_Write (WCaps caps) (bare ProtoCap)) #
         Ok (Message_Write (WBytes (ed_sign C sk cookie)) (bare ProtoSig)) # rs,
       outbox = out, sent_raw = sr, streamed = st, closed = False, wfaults = []\<rparr> =
    (Ok (exported e, caps),
      \<lparr>inbox = rs, outbox = out @ [bare ProtoOk, Message_Write (WBytes cookie) (bare ProtoCookie), bare ProtoOk],
       sent_raw = sr, streamed = st, closed = False, wfaults = []\<rparr>)"
proof -
  have v: "Entry_Verify C (Some (exported e)) = Ok ()" using assms(5) by (simp add: Entry_Verify_iff)
  have s: "ed25519_Verify C (drop 32 sk) cookie (ed_sign C sk cookie) = Ok True"
    using assms(1,3) by (simp add: ed25519_Verify_def crypto_ok_def PublicKeySize_def PrivateKeySize_def)
  have l: "length (ed_sign C sk cookie) = SignatureSize" using crypto_ok_lengths [OF assms(1)] by simp
  show ?thesis
    unfolding handshake_recieve_def
    using v s assms(4)
    by (simp add: bind_def check_run lift_res_def Message_Read_entry assms(2,6) CryptoRandBytes_20
        read_array_bytes [OF assms(2) l] read_caps_caps [OF assms(2)] ignore_run ret_def)
qed

lemma handshake_send_run:
  assumes "msgpack_ok M" "length sk = PrivateKeySize" "length cookie = 20"
  shows "handshake_send C M sk caps e
      \<lparr>inbox = Ok (bare ProtoOk) # Ok (Message_Write (WBytes cookie) (bare ProtoCookie)) # Ok (bare ProtoOk) # rs,
       outbox = out, sent_raw = sr, streamed = st, closed = False, wfaults = []\<rparr> =
    (Ok (), \<lparr>inbox = rs, outbox = out @ [Message_Write (WEntry (Some e)) (bare ProtoHeader),
        Message_Write (WCaps caps) (bare ProtoCap), Message_Write (WBytes (ed_sign C sk cookie)) (bare ProtoSig)],
       sent_raw = sr, streamed = st, closed = False, wfaults = []\<rparr>)"
  unfolding handshake_send_def
  using assms by (simp add: bind_def Message_Ok_def bare_def read_array_bytes lift_res_def ed25519_Sign_def ret_def)

lemma SM_Handshake_run:
  assumes "crypto_ok C" "msgpack_ok M"
    and "length skA = PrivateKeySize"
    and "length skB = PrivateKeySize" "PublicKey eB = drop 32 skB" "entry_valid C eB" "\<not> too_big M (WEntry (Some eB))"
    and "length cA = 20" "length cB = 20"
  shows "SM_Handshake C M (\<lambda>_. Ok cA) (skA, capsA) eA ((side (server_says C skB capsB eB cA cB))\<lparr>sent_raw := sr\<rparr>) =
      (Ok (Some (exported eB, capsB)), (side [])\<lparr>outbox := client_says C skA capsA eA cB cA, sent_raw := sr\<rparr>)"
  unfolding SM_Handshake_def side_def server_says_def client_says_def
  using handshake_send_run [OF assms(2,3,9)] handshake_recieve_run [OF assms(1,2,4-8)]
  by (simp add: bind_def ignore_run attempt_def Message_Ok_def bare_def ret_def)

lemma handshake_run:
  assumes "crypto_ok C" "msgpack_ok M"
    and "length skA = PrivateKeySize" "PublicKey eA = drop 32 skA" "entry_valid C eA" "\<not> too_big M (WEntry (Some eA))"
    and "length skB = PrivateKeySize" "length cA = 20" "length cB = 20"
  shows "handshake C M (\<lambda>_. Ok cB) (Some (skB, capsB)) eB (side (client_says C skA capsA eA cB cA)) =
      (Ok (exported eA, capsA), (side [])\<lparr>outbox := server_says C skB capsB eB cA cB\<rparr>)"
  unfolding handshake_def side_def server_says_def client_says_def
  using handshake_send_run [OF assms(2,7,8)] handshake_recieve_run [OF assms(1-6,9)]
  by (simp add: bind_def ignore_run attempt_def ret_def)

text \<open>C11: Two honest peers complete the handshake: when each reads exactly what the other writes, both succeed, each
  with the other's entry and capabilities.\<close>

theorem handshake_completes:
  assumes "crypto_ok C" "msgpack_ok M"
    and "length skA = PrivateKeySize" "PublicKey eA = drop 32 skA" "entry_valid C eA" "\<not> too_big M (WEntry (Some eA))"
    and "length skB = PrivateKeySize" "PublicKey eB = drop 32 skB" "entry_valid C eB" "\<not> too_big M (WEntry (Some eB))"
    and "length cA = 20" "length cB = 20"
  shows "SM_Handshake C M (\<lambda>_. Ok cA) (skA, capsA) eA (side (server_says C skB capsB eB cA cB)) =
      (Ok (Some (exported eB, capsB)), (side [])\<lparr>outbox := client_says C skA capsA eA cB cA\<rparr>)
    \<and> handshake C M (\<lambda>_. Ok cB) (Some (skB, capsB)) eB (side (client_says C skA capsA eA cB cA)) =
      (Ok (exported eA, capsA), (side [])\<lparr>outbox := server_says C skB capsB eB cA cB\<rparr>)"
  using SM_Handshake_run [OF assms(1-3,7-12), of capsA eA "[]" capsB] handshake_run [OF assms(1-7,11,12), of capsB eB capsA]
  by (simp add: side_def)

section \<open>What a completed handshake shows\<close>

text \<open>C10: An entry the handshake accepts is valid, and the other side has signed the cookie of this handshake, which was
  sent to it before the signature was read, with the key of that entry.\<close>

theorem handshake_authentic:
  assumes "handshake_recieve C M read c = (Ok (entry, caps), c')"
  shows "entry_valid C entry \<and>
    (\<exists>cookie header peerCaps sig rs. CryptoRandBytes read 20 = Ok cookie \<and>
       inbox c = Ok header # Ok peerCaps # Ok sig # rs \<and>
       take (length (outbox c) + 2) (outbox c') =
         outbox c @ [bare ProtoOk, Message_Write (WBytes cookie) (bare ProtoCookie)] \<and>
       ed_verify C (PublicKey entry) cookie (read_array M SignatureSize sig))"
proof -
  obtain header c1 c2 p c3 cookie c4 sig c5 where
    steps: "ReadMessage c = (Ok header, c1)" "Entry_Verify C (Some entry) = Ok ()"
      "WriteMessage (bare ProtoOk) c1 = (Ok (), c2)" "ReadMessage c2 = (Ok p, c3)"
      "CryptoRandBytes read 20 = Ok cookie"
      "WriteMessage (Message_Write (WBytes cookie) (bare ProtoCookie)) c3 = (Ok (), c4)"
      "ReadMessage c4 = (Ok sig, c5)"
      "ed25519_Verify C (PublicKey entry) cookie (read_array M SignatureSize sig) = Ok True"
      "ignore (WriteMessage (bare ProtoOk)) c5 = (Ok (), c')"
    using assms unfolding handshake_recieve_def
    by (auto elim!: bind_OkE dest!: check_OkE simp: lift_res_Ok ret_def fail_def split: if_splits)
  have out: "\<exists>fs xs. c' = c5\<lparr>outbox := outbox c5 @ xs, wfaults := fs\<rparr>"
    using steps(9) by (cases c5) (auto simp: ignore_def bind_def attempt_def ret_def WriteMessage_def
        split: list.splits if_splits intro: exI [of _ "[]"])
  from steps(1,3,4,6,7) obtain rs fs where
    "inbox c = Ok header # Ok p # Ok sig # rs"
    "outbox c5 = outbox c @ [bare ProtoOk, Message_Write (WBytes cookie) (bare ProtoCookie)]"
    by (auto elim!: ReadMessage_OkE WriteMessage_OkE)
  with out steps(2,5,8) show ?thesis
    by (auto simp: Entry_Verify_iff ed25519_Verify_def split: if_splits)
qed


text \<open>A refused entry is answered with silence: the connection is closed before the refusal is written.\<close>

lemma refusal_not_sent:
  assumes "\<not> closed c" "inbox c = Ok h # rs" "Message_Read M (dec_entry M) h = Err x"
  shows "handshake_recieve C M read c = (Err x, c\<lparr>inbox := rs, closed := True\<rparr>)"
  using assms
  by (simp add: handshake_recieve_def bind_def check_no_def attempt_def lift_res_def ret_def fail_def
      Client_Close_def modify_def ignore_def WriteMessage_def)

section \<open>Streams\<close>

lemma remove_loop_absent:
  "\<forall>i\<in>set js. buf ! i \<noteq> k \<Longrightarrow> remove_loop k (js @ ls) buf len = remove_loop k ls buf len"
  by (induction js) auto

text \<open>\<open>RemoveStream\<close> deletes the stream, as the numbers of streams are different from each other.\<close>

lemma SM_RemoveStream_removes:
  assumes "distinct (sm_clients sm)"
  shows "SM_RemoveStream k sm = Ok (sm\<lparr>sm_clients := remove1 k (sm_clients sm)\<rparr>)"
proof (cases "k \<in> set (sm_clients sm)")
  case False
  then have "\<forall>i\<in>set [0..<length (sm_clients sm)]. sm_clients sm ! i \<noteq> k" by auto
  with remove_loop_absent [OF this, of "[]"] False show ?thesis
    by (simp add: SM_RemoveStream_def remove1_idem)
next
  case True
  then obtain ys zs where x: "sm_clients sm = ys @ k # zs" "k \<notin> set ys" by (metis split_list_first)
  with assms have z: "k \<notin> set zs" by simp
  let ?n = "length ys" and ?x = "ys @ k # zs"
  have u: "[0..<length ?x] = [0..<?n] @ ?n # [Suc ?n..<length ?x]"
    using upt_add_eq_append [of 0 ?n "Suc (length zs)"] by (simp add: upt_conv_Cons del: upt_Suc)
  have a: "\<forall>i\<in>set [0..<?n]. ?x ! i \<noteq> k" using x(2) by (auto simp: nth_append)
  let ?b = "ys @ zs @ drop (?n + length zs) ?x"
  have "?b ! j \<noteq> k" if "j \<in> set [Suc ?n..<length ?x]" for j
  proof (cases "j < ?n + length zs")
    case True
    with that z show ?thesis by (auto simp: nth_append)
  next
    case False
    with that have "j = ?n + length zs" "zs \<noteq> []" by auto
    then have "?b ! j = last zs" by (simp add: nth_append last_conv_nth Suc_diff_le)
    with z \<open>zs \<noteq> []\<close> show ?thesis by auto
  qed
  then have "remove_loop k [Suc ?n..<length ?x] ?b (?n + length zs) = Ok (?b, ?n + length zs)"
    using remove_loop_absent [of "[Suc ?n..<length ?x]" ?b k "[]"] by simp
  then have "remove_loop k [0..<length ?x] ?x (length ?x) = Ok (?b, ?n + length zs)"
    unfolding u remove_loop_absent [OF a] by (simp add: overwrite_def)
  then show ?thesis using x by (simp add: SM_RemoveStream_def remove1_append)
qed

section \<open>Instances\<close>

definition demo_msgpack :: msgpack where
  "demo_msgpack =
     \<lparr>dec_entry = (\<lambda>w. case w of WEntry (Some e) \<Rightarrow> Ok (exported e) | _ \<Rightarrow> Err ErrEOF),
      dec_entries = (\<lambda>w. case w of WEntries es \<Rightarrow> Ok (map (map_option exported) es) | _ \<Rightarrow> Err ErrEOF),
      dec_address = (\<lambda>w. case w of WAddress a \<Rightarrow> Ok a | _ \<Rightarrow> Err ErrEOF),
      dec_posts = (\<lambda>w. case w of WPosts ps \<Rightarrow> Ok ps | _ \<Rightarrow> Err ErrEOF),
      dec_int = (\<lambda>w. case w of WInt i \<Rightarrow> Ok i | _ \<Rightarrow> Err ErrEOF),
      dec_search = (\<lambda>w. case w of WSearch s \<Rightarrow> Ok s | _ \<Rightarrow> Err ErrEOF),
      dec_piece = (\<lambda>w. case w of WPiece r \<Rightarrow> Ok r | _ \<Rightarrow> Err ErrEOF),
      dec_coll = (\<lambda>w. case w of WCollection c \<Rightarrow> Ok (c\<lparr>MC_HashList := slice_of (sdata (MC_HashList c))\<rparr>) | _ \<Rightarrow> Err ErrEOF),
      dec_caps = (\<lambda>w. case w of WCaps c \<Rightarrow> c | _ \<Rightarrow> []),
      dec_array = (\<lambda>n w. case w of WBytes b \<Rightarrow> take n (b @ replicate n 0) | _ \<Rightarrow> replicate n 0),
      wire_bytes = (\<lambda>w. [])\<rparr>"

lemma demo_msgpack_ok: "msgpack_ok demo_msgpack" "\<not> too_big demo_msgpack w"
  by (auto simp: msgpack_ok_def demo_msgpack_def too_big_def split: wire.splits)

lemma demo_entry_key [simp]: "PublicKey (demo_entry b n) = drop 32 demo_sk" "length demo_sk = PrivateKeySize"
  by (simp_all add: demo_entry_def unsigned_entry_def demo_sk_def PrivateKeySize_def)

theorem handshake_completes_witness:
  "\<exists>tA tB. SM_Handshake demo_crypto demo_msgpack (\<lambda>_. Ok (replicate 20 1)) (demo_sk, []) (demo_entry 5 ''a'') (side tB) =
      (Ok (Some (exported (demo_entry 6 ''b''), [''gzip''])), (side [])\<lparr>outbox := tA\<rparr>)
    \<and> handshake demo_crypto demo_msgpack (\<lambda>_. Ok (replicate 20 2)) (Some (demo_sk, [''gzip''])) (demo_entry 6 ''b'') (side tA) =
      (Ok (exported (demo_entry 5 ''a''), []), (side [])\<lparr>outbox := tB\<rparr>)"
  using handshake_completes [OF demo_crypto_ok demo_msgpack_ok(1), of demo_sk "demo_entry 5 ''a''" demo_sk "demo_entry 6 ''b''"
      "replicate 20 1" "replicate 20 2" "[]" "[''gzip'']"] demo_msgpack_ok(2) by fastforce

theorem handshake_authentic_witness:
  "\<exists>c'. handshake_recieve demo_crypto demo_msgpack (\<lambda>_. Ok (replicate 20 1))
       (side [Message_Write (WEntry (Some (demo_entry 5 ''a''))) (bare ProtoHeader), Message_Write (WCaps []) (bare ProtoCap),
          Message_Write (WBytes (ed_sign demo_crypto demo_sk (replicate 20 1))) (bare ProtoSig)]) =
       (Ok (exported (demo_entry 5 ''a''), []), c') \<and> entry_valid demo_crypto (exported (demo_entry 5 ''a''))"
proof -
  have "handshake_recieve demo_crypto demo_msgpack (\<lambda>_. Ok (replicate 20 1))
       (side [Message_Write (WEntry (Some (demo_entry 5 ''a''))) (bare ProtoHeader), Message_Write (WCaps []) (bare ProtoCap),
          Message_Write (WBytes (ed_sign demo_crypto demo_sk (replicate 20 1))) (bare ProtoSig)]) =
       (Ok (exported (demo_entry 5 ''a''), []), side []\<lparr>outbox :=
          [bare ProtoOk, Message_Write (WBytes (replicate 20 1)) (bare ProtoCookie), bare ProtoOk]\<rparr>)"
    using handshake_recieve_run [OF demo_crypto_ok demo_msgpack_ok(1), of demo_sk "demo_entry 5 ''a''" "replicate 20 1"]
      demo_msgpack_ok(2) by (simp add: side_def)
  with handshake_authentic [OF this] show ?thesis by blast
qed


end
