(* ===== verification/Node.thy ===== *)
theory Node
  imports Handshake Limiter "HOL-Library.AList"
begin

text \<open>
  The state of a running node and the operations of a connected peer, \<^verbatim>\<open>peer.go\<close>.

  Peers are objects with identity, shared between the maps that know them: they live in a heap and
  are named by their position in it. A concurrent map is an association list with different keys.
  The post databases are files, known by their paths.

  What the surroundings do is in the state as scripts that are consumed from the front: the outcomes of
  pings, of opening streams and of dialling, with what the other side will send on each of them; the
  failures of other calls of the multiplexer; the random bytes; what the external address service
  answers. The clock advances by the script \<open>ticks\<close> whenever it is read. Finished streams are kept in
  \<open>stream_log\<close>, the numbers a mirror reports in \<open>on_piece\<close>. The pointer to the collection may be nil.
\<close>

section \<open>State\<close>

record peer =
  p_address :: address
  p_publicKey :: bytes
  p_streams :: stream_manager
  p_limiter :: bool
  p_entry :: "entry option"
  p_seed :: bool
  p_seedFor :: "entry option"
  p_capabilities :: "string list"
  p_managed :: bool

definition empty_peer :: peer where
  "empty_peer = \<lparr>p_address = empty_address, p_publicKey = [], p_streams = empty_sm, p_limiter = False,
     p_entry = None, p_seed = False, p_seedFor = None, p_capabilities = [], p_managed = False\<rparr>"

record world =
  pings :: "err option list"
  streams :: "client res list"
  piece_streams :: "string res list"
  dials :: "client res list"
  mux_faults :: "bool list"
  rand_reads :: "bytes res list"
  ext_ips :: "string list"
  clock :: int
  ticks :: "nat list"
  map_iter :: "(string \<times> int) list \<Rightarrow> (string \<times> int) list"
  stream_log :: "client list"
  on_piece :: "nat list"
  blocked :: bool

record node =
  lpeer :: peer
  privateKey :: bytes
  lp_Entry :: entry
  ndb :: netdb
  lp_Collection :: "collection option"
  lp_Database :: string
  stores :: "string \<Rightarrow> pstore"
  Databases :: "(string \<times> string) list"
  Collections :: "(string \<times> bytes) list"
  peer_heap :: "peer list"
  peers :: "(string \<times> nat) list"
  peerSeen :: "(string \<times> int) list"
  publicToZif :: "(string \<times> address) list"
  seedManagers :: "(string \<times> bool) list"
  socks :: bool
  socksPort :: int
  maxPeers :: int
  lp_files :: fs
  world :: world

abbreviation on_dht :: "(netdb, 'a) proc \<Rightarrow> (node, 'a) proc" where
  "on_dht \<equiv> zoom ndb ndb_update"

abbreviation on_files :: "(fs, 'a) proc \<Rightarrow> (node, 'a) proc" where
  "on_files \<equiv> zoom lp_files lp_files_update"

abbreviation on_world :: "(world, 'a) proc \<Rightarrow> (node, 'a) proc" where
  "on_world \<equiv> zoom world world_update"

text \<open>The database at a path, and the node's own.\<close>

definition on_store :: "string \<Rightarrow> (pstore, 'a) proc \<Rightarrow> (node, 'a) proc" where
  "on_store path m s = (case m (stores s path) of (r, t) \<Rightarrow> (r, s\<lparr>stores := (stores s)(path := t)\<rparr>))"

definition on_db :: "(pstore, 'a) proc \<Rightarrow> (node, 'a) proc" where
  "on_db m = bind (gets lp_Database) (\<lambda>path. on_store path m)"

section \<open>Surroundings\<close>

definition next_ping :: "(world, unit) proc" where
  "next_ping w =
     (case pings w of
        [] \<Rightarrow> (Ok (), w)
      | r # rs \<Rightarrow> (case r of None \<Rightarrow> Ok () | Some e \<Rightarrow> Err e, w\<lparr>pings := rs\<rparr>))"

definition next_stream :: "(world, client) proc" where
  "next_stream w =
     (case streams w of [] \<Rightarrow> (Err ErrEOF, w) | r # rs \<Rightarrow> (r, w\<lparr>streams := rs\<rparr>))"

definition next_piece_stream :: "(world, string res) proc" where
  "next_piece_stream w =
     (case piece_streams w of [] \<Rightarrow> (Ok (Err ErrEOF), w) | r # rs \<Rightarrow> (Ok r, w\<lparr>piece_streams := rs\<rparr>))"

definition next_dial :: "(world, client res) proc" where
  "next_dial w =
     (case dials w of [] \<Rightarrow> (Ok (Err ErrEOF), w) | r # rs \<Rightarrow> (Ok r, w\<lparr>dials := rs\<rparr>))"

definition mux_call :: "(world, unit res) proc" where
  "mux_call w =
     (case mux_faults w of
        [] \<Rightarrow> (Ok (Ok ()), w)
      | b # bs \<Rightarrow> (Ok (if b then Err ErrEOF else Ok ()), w\<lparr>mux_faults := bs\<rparr>))"

definition next_rand :: "(world, bytes res) proc" where
  "next_rand w =
     (case rand_reads w of [] \<Rightarrow> (Ok (Err ErrEOF), w) | r # rs \<Rightarrow> (Ok r, w\<lparr>rand_reads := rs\<rparr>))"

definition Now :: "(world, int) proc" where
  "Now w =
     (case ticks w of
        [] \<Rightarrow> (Ok (clock w), w)
      | d # ds \<Rightarrow> (Ok (clock w + int d), w\<lparr>clock := clock w + int d, ticks := ds\<rparr>))"

definition Now_Unix :: "(world, int) proc" where
  "Now_Unix = bind Now (\<lambda>t. ret (t div 1000000000))"

text \<open>A call that never returns: its caller does not go on. It is a panic with the flag \<open>blocked\<close> set.\<close>

definition block_forever :: "(world, 'a) proc" where
  "block_forever w = (Panic, w\<lparr>blocked := True\<rparr>)"

text \<open>\<open>ExternalIp\<close> of \<^verbatim>\<open>nat.go\<close>: the body of the reply, the empty string on a failure.\<close>

definition ExternalIp :: "(world, string) proc" where
  "ExternalIp w = (case ext_ips w of [] \<Rightarrow> (Ok [], w) | r # rs \<Rightarrow> (Ok r, w\<lparr>ext_ips := rs\<rparr>))"

section \<open>Signing\<close>

text \<open>\<open>copy(dst, src)\<close>.\<close>

definition copy_into :: "'a list \<Rightarrow> 'a list \<Rightarrow> 'a list" where
  "copy_into dst src = take (length dst) src @ drop (length src) dst"

definition SignEntry :: "crypto \<Rightarrow> (node, unit) proc" where
  "SignEntry C =
     bind (on_world Now_Unix) (\<lambda>now.
     bind (modify (\<lambda>s. s\<lparr>lp_Entry := (lp_Entry s)\<lparr>Updated := word_of_int now\<rparr>\<rparr>)) (\<lambda>_.
     bind (gets (\<lambda>s. (privateKey s, Entry_Bytes_or_nil (lp_Entry s)))) (\<lambda>(sk, data).
     bind (lift_res (ed25519_Sign C sk data)) (\<lambda>sig.
     modify (\<lambda>s. s\<lparr>lp_Entry := (lp_Entry s)\<lparr>Signature := copy_into (Signature (lp_Entry s)) sig\<rparr>\<rparr>)))))"

definition lp_Sign :: "crypto \<Rightarrow> bytes \<Rightarrow> (node, bytes) proc" where
  "lp_Sign C msg = bind (gets privateKey) (\<lambda>sk. lift_res (ed25519_Sign C sk msg))"

section \<open>Peers\<close>

definition the_peer :: "nat \<Rightarrow> node \<Rightarrow> peer" where
  "the_peer p s = peer_heap s ! p"

definition upd_peer :: "nat \<Rightarrow> (peer \<Rightarrow> peer) \<Rightarrow> node \<Rightarrow> node" where
  "upd_peer p f s = s\<lparr>peer_heap := (peer_heap s)[p := f (peer_heap s ! p)]\<rparr>"

definition new_peer :: "peer \<Rightarrow> (node, nat) proc" where
  "new_peer x s = (Ok (length (peer_heap s)), s\<lparr>peer_heap := peer_heap s @ [x]\<rparr>)"

definition peer_key :: "address \<Rightarrow> string" where
  "peer_key a = to_string (Raw a)"

definition UpdateSeen :: "nat \<Rightarrow> (node, unit) proc" where
  "UpdateSeen p =
     bind (gets (the_peer p)) (\<lambda>pr.
       if \<not> p_managed pr then ret ()
       else
         bind (on_world Now) (\<lambda>t.
         modify (\<lambda>s. s\<lparr>peerSeen := AList.update (peer_key (p_address pr)) t (peerSeen s)\<rparr>)))"

text \<open>The scripted outcome covers a closed session, a failed ping and the timeout.\<close>

definition Peer_Ping :: "nat \<Rightarrow> (node, unit) proc" where
  "Peer_Ping p =
     bind (gets (the_peer p)) (\<lambda>pr.
       if \<not> SM_GetSession (p_streams pr) then fail (ErrNew ''No session'')
       else on_world next_ping)"

definition Peer_OpenStream :: "nat \<Rightarrow> (node, client) proc" where
  "Peer_OpenStream p =
     bind (Peer_Ping p) (\<lambda>_.
     bind (UpdateSeen p) (\<lambda>_.
     bind (gets (the_peer p)) (\<lambda>pr.
       if \<not> SM_GetSession (p_streams pr) then fail (ErrNew ''Cannot open stream, no session'')
       else
         bind (on_world next_stream) (\<lambda>c.
         bind (on_world mux_call) (\<lambda>deadline.
         bind (lift_res deadline) (\<lambda>_. ret c))))))"

text \<open>Opening a stream, a conversation on it, and the deferred close.\<close>

definition with_stream :: "nat \<Rightarrow> (client, 'a) proc \<Rightarrow> (node, 'a) proc" where
  "with_stream p body =
     bind (Peer_OpenStream p) (\<lambda>c s.
       case deferred body Client_Close c of
         (r, c') \<Rightarrow> (r, s\<lparr>world := (world s)\<lparr>stream_log := stream_log (world s) @ [c']\<rparr>\<rparr>))"

definition Peer_Announce :: "libs \<Rightarrow> nat \<Rightarrow> (node, unit) proc" where
  "Peer_Announce L p =
     bind (Peer_Ping p) (\<lambda>_.
     bind (gets (\<lambda>s. PublicAddress (lp_Entry s))) (\<lambda>pa.
     bind (if pa = [] then
             bind (on_world ExternalIp) (\<lambda>ip.
             modify (\<lambda>s. s\<lparr>lp_Entry := (lp_Entry s)\<lparr>PublicAddress := ip\<rparr>\<rparr>))
           else ret ()) (\<lambda>_.
     bind (SignEntry (CR L)) (\<lambda>_.
     bind (gets lp_Entry) (\<lambda>e.
     with_stream p (Client_Announce e))))))"

text \<open>\<open>Connect\<close>: the dialler, the connection and the random cookie come from the surroundings.\<close>

definition Peer_Connect :: "libs \<Rightarrow> nat \<Rightarrow> string \<Rightarrow> (node, unit) proc" where
  "Peer_Connect L p addr =
     bind (on_world mux_call) (\<lambda>dialer.
     bind (on_world next_dial) (\<lambda>dial.
     bind (on_world next_rand) (\<lambda>rand.
     bind (gets (\<lambda>s. ((privateKey s, p_capabilities (lpeer s)), lp_Entry s))) (\<lambda>(lp, data).
     bind (zoom (\<lambda>s. p_streams (the_peer p s)) (\<lambda>f. upd_peer p (\<lambda>pr. pr\<lparr>p_streams := f (p_streams pr)\<rparr>))
             (OpenTCP (CR L) (MP L) (\<lambda>_. rand) dialer lp data dial)) (\<lambda>pair.
     bind (modify (upd_peer p (\<lambda>pr. pr\<lparr>p_capabilities := CH_Caps pair, p_publicKey := PublicKey (CH_Entry pair),
             p_address := Address (CH_Entry pair), p_limiter := True\<rparr>))) (\<lambda>_.
     ignore (on_dht (DHT_Insert (CR L) (SQ L) (CH_Entry pair)))))))))"

definition Peer_SetTCP :: "nat \<Rightarrow> conn_header \<Rightarrow> (node, unit) proc" where
  "Peer_SetTCP p header =
     modify (upd_peer p (\<lambda>pr. pr\<lparr>p_streams := SetConnection header (p_streams pr),
       p_publicKey := PublicKey (CH_Entry header), p_address := Address (CH_Entry header), p_limiter := True\<rparr>))"

definition Peer_ConnectServer :: "nat \<Rightarrow> (node, unit) proc" where
  "Peer_ConnectServer p =
     bind (on_world mux_call) (\<lambda>yamux.
     zoom (\<lambda>s. p_streams (the_peer p s)) (\<lambda>f. upd_peer p (\<lambda>pr. pr\<lparr>p_streams := f (p_streams pr)\<rparr>)) (ConnectServer yamux))"

definition Peer_ConnectClient :: "nat \<Rightarrow> (node, unit) proc" where
  "Peer_ConnectClient p =
     bind (on_world mux_call) (\<lambda>yamux.
     zoom (\<lambda>s. p_streams (the_peer p s)) (\<lambda>f. upd_peer p (\<lambda>pr. pr\<lparr>p_streams := f (p_streams pr)\<rparr>)) (ConnectClient yamux))"

definition Peer_Terminate :: "nat \<Rightarrow> (node, unit) proc" where
  "Peer_Terminate p = modify (upd_peer p (\<lambda>pr. pr\<lparr>p_streams := SM_Close (p_streams pr)\<rparr>))"

definition Peer_CloseStreams :: "nat \<Rightarrow> (node, unit) proc" where
  "Peer_CloseStreams p = modify (upd_peer p (\<lambda>pr. pr\<lparr>p_streams := SM_Close (p_streams pr)\<rparr>))"

definition Peer_AddStream :: "nat \<Rightarrow> nat \<Rightarrow> (node, unit) proc" where
  "Peer_AddStream p i = modify (upd_peer p (\<lambda>pr. pr\<lparr>p_streams := SM_AddStream i (p_streams pr)\<rparr>))"

definition Peer_SetCapabilities :: "nat \<Rightarrow> string list \<Rightarrow> (node, unit) proc" where
  "Peer_SetCapabilities p caps = modify (upd_peer p (\<lambda>pr. pr\<lparr>p_capabilities := caps\<rparr>))"

definition Peer_Query :: "libs \<Rightarrow> nat \<Rightarrow> address \<Rightarrow> (node, entry) proc" where
  "Peer_Query L p addr =
     bind (Peer_Ping p) (\<lambda>_. with_stream p (Client_Query (CR L) (MP L) addr))"

definition Peer_FindClosest :: "libs \<Rightarrow> nat \<Rightarrow> address \<Rightarrow> (node, entry option list) proc" where
  "Peer_FindClosest L p addr =
     bind (Peer_Ping p) (\<lambda>_. with_stream p (Client_FindClosest (MP L) addr))"

definition Peer_GetEntry :: "libs \<Rightarrow> nat \<Rightarrow> (node, entry) proc" where
  "Peer_GetEntry L p =
     bind (Peer_Ping p) (\<lambda>_.
     bind (gets (\<lambda>s. p_address (the_peer p s))) (\<lambda>addr.
     bind (Peer_Query L p addr) (\<lambda>entry.
       if \<not> Address_Equals (Address entry) addr then fail (ErrNew ''Failed to fetch entry'')
       else bind (modify (upd_peer p (\<lambda>pr. pr\<lparr>p_entry := Some entry\<rparr>))) (\<lambda>_. ret entry))))"

definition Peer_Entry :: "libs \<Rightarrow> nat \<Rightarrow> (node, entry) proc" where
  "Peer_Entry L p =
     bind (gets (\<lambda>s. p_entry (the_peer p s))) (\<lambda>eo.
       case eo of
         Some e \<Rightarrow> ret e
       | None \<Rightarrow> Peer_GetEntry L p)"

definition Peer_Bootstrap :: "libs \<Rightarrow> nat \<Rightarrow> (node, unit) proc" where
  "Peer_Bootstrap L p =
     bind (Peer_Ping p) (\<lambda>_.
     bind (Peer_OpenStream p) (\<lambda>c s.
       case Client_Bootstrap (CR L) (SQ L) (MP L) (DHT_Address (ndb s)) (c, ndb s) of
         (r, c', d) \<Rightarrow>
           (r, s\<lparr>ndb := d, world := (world s)\<lparr>stream_log := stream_log (world s) @ [snd (Client_Close c')]\<rparr>\<rparr>)))"

definition Peer_Search :: "libs \<Rightarrow> nat \<Rightarrow> string \<Rightarrow> int \<Rightarrow> (node, post option list \<times> string) proc" where
  "Peer_Search L p search page =
     bind (Peer_Ping p) (\<lambda>_.
     bind (with_stream p (Client_Search (MP L) search page)) (\<lambda>posts.
     bind (gets (\<lambda>s. Address_StringOr (p_address (the_peer p s)) [])) (\<lambda>source. ret (posts, source))))"

definition Peer_Recent :: "libs \<Rightarrow> nat \<Rightarrow> int \<Rightarrow> (node, post option list) proc" where
  "Peer_Recent L p page = bind (Peer_Ping p) (\<lambda>_. with_stream p (Client_Recent (MP L) page))"

definition Peer_Popular :: "libs \<Rightarrow> nat \<Rightarrow> int \<Rightarrow> (node, post option list) proc" where
  "Peer_Popular L p page = bind (Peer_Ping p) (\<lambda>_. with_stream p (Client_Popular (MP L) page))"

end
