(* ===== verification/Peer_Manager.thy ===== *)
theory Peer_Manager
  imports Node
begin

text \<open>
  The peer manager, \<^verbatim>\<open>peermanager.go\<close>, with the operations of \<^verbatim>\<open>localpeer.go\<close> it calls (\<open>SaveEntry\<close>,
  \<open>QueryEntry\<close>, \<open>AddEntry\<close>, \<open>AddSeeding\<close>) and the creation of seed managers. The goroutines it starts
  for a peer are separate operations: one heartbeat, one announcement.

  A seed manager is known by the address it tracks; the map says whether its goroutine still
  receives from the \<open>Close\<close> channel.
\<close>

section \<open>The local peer's entry\<close>

definition lp_Address :: "node \<Rightarrow> address" where
  "lp_Address s = p_address (lpeer s)"

definition SaveEntry :: "libs \<Rightarrow> (node, unit) proc" where
  "SaveEntry L =
     bind (SignEntry (CR L)) (\<lambda>_.
     bind (gets lp_Entry) (\<lambda>e.
     bind (on_dht (DHT_Insert (CR L) (SQ L) e)) (\<lambda>_.
     on_files (WriteFile ''./data/entry.json'' (to_bytes (json_enc L e))))))"

definition LoadEntry :: "libs \<Rightarrow> (node, unit) proc" where
  "LoadEntry L =
     bind (on_files (ReadFile ''./data/entry.json'')) (\<lambda>dat.
     bind (lift_res (json_dec L (to_string dat))) (\<lambda>entry.
     modify (\<lambda>s. s\<lparr>lp_Entry := entry\<rparr>)))"

definition QueryEntry :: "libs \<Rightarrow> address \<Rightarrow> (node, entry) proc" where
  "QueryEntry L addr =
     bind (gets lp_Address) (\<lambda>me.
       if Address_Equals addr me then gets lp_Entry
       else
         bind (on_dht (DHT_Query (SQ L) addr)) (\<lambda>kv.
           case kv of
             None \<Rightarrow> fail (ErrNew ''No entry with address'')
           | Some e \<Rightarrow> ret e))"

definition AddEntry :: "libs \<Rightarrow> entry \<Rightarrow> (node, unit) proc" where
  "AddEntry L e = bind (on_dht (DHT_Insert (CR L) (SQ L) e)) (\<lambda>_. ret ())"

definition AddSeeding :: "libs \<Rightarrow> entry \<Rightarrow> (node, unit) proc" where
  "AddSeeding L e =
     bind (gets lp_Address) (\<lambda>me.
     bind (modify (\<lambda>s. s\<lparr>lp_Entry := (lp_Entry s)\<lparr>Seeding := Seeding (lp_Entry s) @ [Raw (Address e)]\<rparr>\<rparr>)) (\<lambda>_.
     bind (SignEntry (CR L)) (\<lambda>_.
     bind (AddEntry L (e\<lparr>Seeds := Seeds e @ [Raw me]\<rparr>)) (\<lambda>_.
     SaveEntry L))))"

section \<open>The maps of peers\<close>

definition PM_Count :: "node \<Rightarrow> nat" where
  "PM_Count s = length (peers s)"

definition PM_Peers :: "node \<Rightarrow> (string \<times> nat) list" where
  "PM_Peers s = peers s"

definition PM_GetPeer :: "address \<Rightarrow> node \<Rightarrow> nat option" where
  "PM_GetPeer addr s = map_of (peers s) (peer_key addr)"

text \<open>
  The send on \<open>Close\<close> is received once, by the goroutine of the seed manager, which then ends; the
  seed manager stays in the map.
\<close>

definition PM_HandleCloseConnection :: "address \<Rightarrow> (node, unit) proc" where
  "PM_HandleCloseConnection addr =
     bind (modify (\<lambda>s. s\<lparr>peers := AList.delete (peer_key addr) (peers s),
       peerSeen := AList.delete (peer_key addr) (peerSeen s)\<rparr>)) (\<lambda>_.
     bind (gets (\<lambda>s. map_of (seedManagers s) (peer_key addr))) (\<lambda>sm.
       case sm of
         None \<Rightarrow> ret ()
       | Some True \<Rightarrow> modify (\<lambda>s. s\<lparr>seedManagers := AList.update (peer_key addr) False (seedManagers s)\<rparr>)
       | Some False \<Rightarrow> on_world block_forever))"

text \<open>The search for the least recently seen peer, over the entries in iteration order; \<open>oldestValue\<close> never changes.\<close>

definition oldest_key :: "int \<Rightarrow> (string \<times> int) list \<Rightarrow> string" where
  "oldest_key oldestValue seen =
     foldl (\<lambda>oldestKey (k, t). if t < oldestValue then k else oldestKey) [] seen"

text \<open>
  The eviction loop; the first argument bounds its rounds. As long as every peer is stored under the key of
  its own address, a round that goes on removes one, so that a round for each peer and one more are enough.
\<close>

fun evict :: "nat \<Rightarrow> (node, unit) proc" where
  "evict 0 = ret ()"
| "evict (Suc n) =
     bind (gets (\<lambda>s. int (PM_Count s) > maxPeers s)) (\<lambda>full.
       if \<not> full then ret ()
       else
         bind (on_world Now) (\<lambda>oldestValue.
         bind (gets (\<lambda>s. oldest_key oldestValue (map_iter (world s) (peerSeen s)))) (\<lambda>oldestKey.
         bind (gets (\<lambda>s. map_of (peers s) oldestKey)) (\<lambda>po.
           case po of
             None \<Rightarrow> ret ()
           | Some p \<Rightarrow>
               bind (Peer_Terminate p) (\<lambda>_.
               bind (gets (\<lambda>s. p_address (the_peer p s))) (\<lambda>a.
               bind (PM_HandleCloseConnection a) (\<lambda>_. evict n)))))))"

definition PM_SetPeer :: "libs \<Rightarrow> nat \<Rightarrow> (node, unit) proc" where
  "PM_SetPeer L p =
     bind (gets (\<lambda>s. p_address (the_peer p s))) (\<lambda>addr.
     bind (gets (\<lambda>s. map_of (peers s) (peer_key addr) \<noteq> None)) (\<lambda>has.
       if has then ret ()
       else
         bind (attempt (Peer_Entry L p)) (\<lambda>r.
           case r of
             Inl err \<Rightarrow> ret ()
           | Inr e \<Rightarrow>
               bind (modify (\<lambda>s. s\<lparr>publicToZif := AList.update (PublicAddress e) addr (publicToZif s)\<rparr>)) (\<lambda>_.
               bind (modify (upd_peer p (\<lambda>pr. pr\<lparr>p_managed := True\<rparr>))) (\<lambda>_.
               bind (modify (\<lambda>s. s\<lparr>peers := AList.update (peer_key addr) p (peers s)\<rparr>)) (\<lambda>_.
               bind (on_world Now) (\<lambda>t.
               bind (modify (\<lambda>s. s\<lparr>peerSeen := AList.update (peer_key addr) t (peerSeen s)\<rparr>)) (\<lambda>_.
               bind (gets PM_Count) (\<lambda>n. evict (Suc n))))))))))"

definition PM_ConnectPeerDirect :: "libs \<Rightarrow> string \<Rightarrow> (node, nat) proc" where
  "PM_ConnectPeerDirect L addr =
     bind (gets (\<lambda>s. case map_of (publicToZif s) addr of
             None \<Rightarrow> None
           | Some zifAddr \<Rightarrow> PM_GetPeer zifAddr s)) (\<lambda>known.
       case known of
         Some p \<Rightarrow> ret p
       | None \<Rightarrow>
           bind (gets (\<lambda>s. (socks s, socksPort s))) (\<lambda>(sk, port).
           bind (new_peer (if sk then empty_peer\<lparr>p_streams := empty_sm\<lparr>Socks := True, SocksPort := port\<rparr>\<rparr> else empty_peer)) (\<lambda>p.
           bind (attempt (Peer_Connect L p addr)) (\<lambda>r.
             case r of
               Inl err \<Rightarrow> fail PeerUnreachable
             | Inr _ \<Rightarrow>
                 bind (ignore (Peer_ConnectClient p)) (\<lambda>_.
                 bind (PM_SetPeer L p) (\<lambda>_. ret p))))))"

section \<open>Resolving addresses\<close>

text \<open>
  One step: ask a peer, and if it answers without an entry, the peers it names. The number of steps
  left is shared by all of them through a pointer: it is the first part of the state here. The
  interface value \<open>peer.Query\<close> returns is never nil when there is no error, which is why the answer is
  \<open>Some\<close>. A nil entry is dereferenced. The argument \<open>n\<close> bounds the nesting; it is never smaller
  than the number of steps left.
\<close>

abbreviation at_node :: "(node, 'a) proc \<Rightarrow> (int \<times> node, 'a) proc" where
  "at_node \<equiv> zoom snd apsnd"

definition query_result :: "libs \<Rightarrow> nat \<Rightarrow> address \<Rightarrow> (node, entry option) proc" where
  "query_result L p addr = bind (Peer_Query L p addr) (\<lambda>e. ret (Some e))"

fun try_closest :: "('e \<Rightarrow> ('s, entry option) proc) \<Rightarrow> 'e list \<Rightarrow> ('s, entry option) proc" where
  "try_closest step [] = fail (ErrNew ''No entries could be found'')"
| "try_closest step (i # is) =
     bind (step i) (\<lambda>result.
       case result of
         Some e \<Rightarrow> ret (Some e)
       | None \<Rightarrow> try_closest step is)"

fun resolveStep :: "libs \<Rightarrow> nat \<Rightarrow> address \<Rightarrow> entry option \<Rightarrow> (int \<times> node, entry option) proc" where
  "resolveStep L 0 addr eo = fail RecursionLimit"
| "resolveStep L (Suc n) addr eo =
     bind (gets fst) (\<lambda>depth.
       if depth = 0 then fail RecursionLimit
       else
         bind (modify (apfst (\<lambda>d. d - 1))) (\<lambda>_.
           case eo of
             None \<Rightarrow> panic
           | Some e \<Rightarrow>
               bind (at_node (gets (PM_GetPeer (Address e)))) (\<lambda>known.
               bind (case known of
                       Some p \<Rightarrow> ret p
                     | None \<Rightarrow> at_node (PM_ConnectPeerDirect L (PublicAddress e @ '':'' @ Itoa (Port e)))) (\<lambda>p.
               bind (at_node (query_result L p addr)) (\<lambda>kv.
                 case kv of
                   Some entry \<Rightarrow> ret (Some entry)
                 | None \<Rightarrow>
                     bind (at_node (Peer_FindClosest L p addr)) (\<lambda>closest.
                     try_closest (resolveStep L n addr) closest))))))"

fun resolve_loop :: "libs \<Rightarrow> address \<Rightarrow> entry option list \<Rightarrow> (int \<times> node, entry) proc" where
  "resolve_loop L addr [] = fail (ErrNew ''Address could not be resolved'')"
| "resolve_loop L addr (i # is) =
     bind (attempt (resolveStep L 6 addr i)) (\<lambda>r.
       case r of
         Inl err \<Rightarrow> if err = RecursionLimit then fail err else resolve_loop L addr is
       | Inr None \<Rightarrow> resolve_loop L addr is
       | Inr (Some entry) \<Rightarrow>
           if Address_Equals (Address entry) addr
           then bind (ignore (at_node (on_dht (DHT_Insert (CR L) (SQ L) entry)))) (\<lambda>_. ret entry)
           else resolve_loop L addr is)"

text \<open>The search over the network, with six steps.\<close>

definition resolve_closest :: "libs \<Rightarrow> address \<Rightarrow> (node, entry) proc" where
  "resolve_closest L addr =
     bind (on_dht (DHT_FindClosest (SQ L) addr)) (\<lambda>closest s.
       case resolve_loop L addr closest (6, s) of (r, _, s') \<Rightarrow> (r, s'))"

definition Resolve :: "libs \<Rightarrow> address \<Rightarrow> (node, entry) proc" where
  "Resolve L addr =
     bind (gets lp_Address) (\<lambda>me.
       if Address_Equals addr me then gets lp_Entry
       else
         bind (attempt (on_dht (DHT_Query (SQ L) addr))) (\<lambda>r.
           case r of
             Inl err \<Rightarrow> if err = ErrNoRows then resolve_closest L addr else fail err
           | Inr (Some kv) \<Rightarrow> ret kv
           | Inr None \<Rightarrow> resolve_closest L addr))"

text \<open>
  \<open>ConnectPeer\<close> returns the entry also when the connection failed: its outcome is an error, or the entry
  with the error of connecting or the peer. Most callers use only the latter.
\<close>

definition PM_ConnectPeer_entry :: "libs \<Rightarrow> address \<Rightarrow> (node, entry \<times> (err + nat)) proc" where
  "PM_ConnectPeer_entry L addr =
     bind (Resolve L addr) (\<lambda>entry.
     bind (gets lp_Address) (\<lambda>me.
       if Address_Equals (Address entry) me then fail (ErrNew ''Cannot connect to self'')
       else
         bind (gets (PM_GetPeer (Address entry))) (\<lambda>known.
           case known of
             Some p \<Rightarrow> ret (entry, Inr p)
           | None \<Rightarrow>
               bind (attempt (PM_ConnectPeerDirect L (PublicAddress entry @ '':'' @ Itoa (Port entry)))) (\<lambda>r.
               ret (entry, r)))))"

definition PM_ConnectPeer :: "libs \<Rightarrow> address \<Rightarrow> (node, nat \<times> entry) proc" where
  "PM_ConnectPeer L addr =
     bind (PM_ConnectPeer_entry L addr) (\<lambda>(entry, r).
       case r of
         Inl err \<Rightarrow> fail err
       | Inr p \<Rightarrow> ret (p, entry))"

section \<open>Goroutines of a peer\<close>

text \<open>One round of \<open>heartbeatPeer\<close>; the result says whether the goroutine goes on. Its deferred call runs when it ends.\<close>

definition heartbeat_round :: "nat \<Rightarrow> (node, bool) proc" where
  "heartbeat_round p =
     bind (gets (\<lambda>s. p_address (the_peer p s))) (\<lambda>a.
     bind (gets (\<lambda>s. map_of (peers s) (peer_key a) = None)) (\<lambda>gone.
       if gone then bind (PM_HandleCloseConnection a) (\<lambda>_. ret False)
       else
         bind (attempt (Peer_Ping p)) (\<lambda>r.
           case r of
             Inl err \<Rightarrow>
               bind (PM_HandleCloseConnection a) (\<lambda>_.
               bind (PM_HandleCloseConnection a) (\<lambda>_. ret False))
           | Inr _ \<Rightarrow> ret True)))"

definition announce_round :: "libs \<Rightarrow> nat \<Rightarrow> (node, unit) proc" where
  "announce_round L p =
     ignore
       (bind (gets (\<lambda>s. map_of (peers s) (peer_key (p_address (the_peer p s))) = None)) (\<lambda>gone.
         if gone then fail PeerDisconnected else Peer_Announce L p))"

section \<open>Seed managers\<close>

definition NewSeedManager :: "libs \<Rightarrow> address \<Rightarrow> (node, entry) proc" where
  "NewSeedManager L track = QueryEntry L track"

definition AddSeedManager :: "libs \<Rightarrow> address \<Rightarrow> (node, unit) proc" where
  "AddSeedManager L addr =
     bind (gets (\<lambda>s. map_of (seedManagers s) (peer_key addr) \<noteq> None)) (\<lambda>has.
       if has then ret ()
       else
         bind (NewSeedManager L addr) (\<lambda>_.
         modify (\<lambda>s. s\<lparr>seedManagers := AList.update (peer_key addr) True (seedManagers s)\<rparr>)))"

fun load_seeds_loop :: "libs \<Rightarrow> nat \<Rightarrow> bytes \<Rightarrow> (node, unit) proc" where
  "load_seeds_loop L 0 file = ret ()"
| "load_seeds_loop L (Suc n) file =
     bind (ignore (AddSeedManager L (peer_address (take 20 file)))) (\<lambda>_.
     load_seeds_loop L n (drop 20 file))"

definition LoadSeeds :: "libs \<Rightarrow> (node, unit) proc" where
  "LoadSeeds L =
     bind (on_files (ReadFile ''./data/seeding.dat'')) (\<lambda>file.
     load_seeds_loop L (length file div 20) file)"

section \<open>Registering as a seed\<close>

text \<open>\<open>RequestAddPeer\<close> of \<^verbatim>\<open>peer.go\<close>, which calls back into the manager.\<close>

definition Peer_RequestAddPeer :: "libs \<Rightarrow> nat \<Rightarrow> entry \<Rightarrow> (node, unit) proc" where
  "Peer_RequestAddPeer L p e =
     bind (Peer_Ping p) (\<lambda>_.
     bind (with_stream p (Client_RequestAddPeer (Address e))) (\<lambda>_.
     bind (gets (\<lambda>s. p_managed (the_peer p s))) (\<lambda>managed.
       if \<not> managed then panic
       else
         bind (AddSeedManager L (Address e)) (\<lambda>_.
           if list_ex (\<lambda>i. Address_Equals (peer_address i) (Address e)) (Seeds e) then ret ()
           else AddSeeding L e))))"

end
