(* ===== verification/Local_Peer.thy ===== *)
theory Local_Peer
  imports Peer_Manager
begin

text \<open>
  The local peer, \<^verbatim>\<open>localpeer.go\<close>: its key, its posts, exploring the network (with \<^verbatim>\<open>jobs/explore.go\<close>)
  and looking for its own seeds. Periodic work is one operation per round. What arrives on a channel
  is an argument, what is sent into one is part of the result.
\<close>

section \<open>Keys\<close>

text \<open>\<open>fresh\<close> is the private key the generator made, which ends with the public key.\<close>

definition GenerateKey :: "bytes res \<Rightarrow> (node, unit) proc" where
  "GenerateKey fresh =
     (case fresh of
        Ok sk \<Rightarrow> modify (\<lambda>s. s\<lparr>privateKey := sk, lpeer := (lpeer s)\<lparr>p_publicKey := drop 32 sk\<rparr>\<rparr>)
      | _ \<Rightarrow> panic)"

definition WriteKey :: "(node, unit) proc" where
  "WriteKey =
     bind (gets privateKey) (\<lambda>sk.
       if length sk = 0 then fail (ErrNew ''LocalPeer does not have a private key, please generate'')
       else on_files (WriteFile ''./data/identity.dat'' sk))"

text \<open>\<open>Public\<close> copies from the 32nd byte on, which panics on a shorter key, into 32 bytes.\<close>

definition ReadKey :: "(node, unit) proc" where
  "ReadKey =
     bind (on_files (ReadFile ''./data/identity.dat'')) (\<lambda>pk.
     bind (modify (\<lambda>s. s\<lparr>privateKey := pk\<rparr>)) (\<lambda>_.
       if length pk < 32 then panic
       else modify (\<lambda>s. s\<lparr>lpeer := (lpeer s)\<lparr>p_publicKey := copy_into (replicate PublicKeySize 0) (drop 32 pk)\<rparr>\<rparr>)))"

text \<open>\<open>SetupLocalPeer\<close> of \<^verbatim>\<open>cmd/zifd\<close> up to \<open>Setup\<close>.\<close>

definition setup_key :: "bytes res \<Rightarrow> (node, unit) proc" where
  "setup_key fresh =
     bind (attempt ReadKey) (\<lambda>r.
       case r of
         Inr _ \<Rightarrow> ret ()
       | Inl _ \<Rightarrow> bind (GenerateKey fresh) (\<lambda>_. ignore WriteKey))"

text \<open>
  The walk over the data directory. The submatch of \<^verbatim>\<open>data/(\w+)/.+\<close> in a path: the word between \<open>data/\<close> and a
  slash, at the first place where something follows. The walk names files without the leading \<open>./\<close> that
  the other functions write; databases and files are known by the longer name.
\<close>

definition is_word :: "char \<Rightarrow> bool" where
  "is_word c \<longleftrightarrow> (let n = of_char c :: nat in
     (48 \<le> n \<and> n \<le> 57) \<or> (65 \<le> n \<and> n \<le> 90) \<or> (97 \<le> n \<and> n \<le> 122) \<or> n = 95)"

definition match_here :: "string \<Rightarrow> string option" where
  "match_here p =
     (let w = takeWhile is_word (drop 5 p); rest = drop (5 + length w) p
      in if take 5 p = ''data/'' \<and> w \<noteq> [] \<and> length rest > 1 \<and> hd rest = CHR ''/'' \<and> rest ! 1 \<noteq> CHR 0x0A
         then Some w else None)"

fun FindStringSubmatch :: "string \<Rightarrow> string option" where
  "FindStringSubmatch [] = None"
| "FindStringSubmatch (c # cs) =
     (case match_here (c # cs) of Some w \<Rightarrow> Some w | None \<Rightarrow> FindStringSubmatch cs)"

definition walk_handler :: "string \<Rightarrow> string \<Rightarrow> (node, unit) proc" where
  "walk_handler path name =
     (let addr = FindStringSubmatch path; file = ''./'' @ path in
      if path \<noteq> ''data/posts.db'' \<and> name = ''posts.db'' then
        bind (on_store file Connect) (\<lambda>_.
          case addr of
            None \<Rightarrow> ret ()
          | Some a \<Rightarrow> modify (\<lambda>s. s\<lparr>Databases := AList.update a file (Databases s)\<rparr>))
      else if path \<noteq> ''data/collection.dat'' \<and> name = ''collection.dat'' then
        bind (on_files (ReadFile file)) (\<lambda>dat.
          case addr of
            None \<Rightarrow> panic
          | Some a \<Rightarrow> modify (\<lambda>s. s\<lparr>Collections := AList.update a dat (Collections s)\<rparr>))
      else ret ())"

text \<open>
  \<open>Setup\<close>. \<open>db\<close> and \<open>tables\<close> are the contents of the database file and the table file, \<open>visited\<close> the paths
  and names of the files the walk visits, in its order; it ends at the first error, which is ignored.
\<close>

definition Setup :: "libs \<Rightarrow> store \<Rightarrow> (string \<Rightarrow> address list list option) \<Rightarrow> (string \<times> string) list
    \<Rightarrow> (node, unit) proc" where
  "Setup L db tables visited =
     bind (modify (\<lambda>s. s\<lparr>lp_Entry := empty_entry\<lparr>Signature := replicate SignatureSize 0\<rparr>, Databases := [], Collections := [],
       peers := [], publicToZif := [], seedManagers := [], peerSeen := [],
       lpeer := (lpeer s)\<lparr>p_address := snd (Address_Generate (CR L) (p_publicKey (lpeer s)) (p_address (lpeer s)))\<rparr>\<rparr>)) (\<lambda>_.
     bind (gets lp_Address) (\<lambda>me.
     bind (lift_res (NewDHT (CR L) (SQ L) me db tables)) (\<lambda>d.
     bind (modify (\<lambda>s. s\<lparr>ndb := d\<rparr>)) (\<lambda>_.
     bind (on_dht (LoadTable ''./data/table.dat'')) (\<lambda>_.
     bind (attempt (on_files (LoadCollection ''./data/collection.dat''))) (\<lambda>r.
     bind (modify (\<lambda>s. s\<lparr>lp_Collection := Some (case r of Inl _ \<Rightarrow> NewCollection | Inr c \<Rightarrow> c)\<rparr>)) (\<lambda>_.
     bind (ignore (forM visited (\<lambda>(path, name). walk_handler path name))) (\<lambda>_.
     modify (\<lambda>s. s\<lparr>lpeer := (lpeer s)\<lparr>p_capabilities := p_capabilities (lpeer s) @ [''gzip'', ''none'']\<rparr>\<rparr>)))))))))"

definition lp_Close :: "(node, unit) proc" where
  "lp_Close =
     bind (modify (\<lambda>s. s\<lparr>lpeer := (lpeer s)\<lparr>p_streams := SM_Close (p_streams (lpeer s))\<rparr>\<rparr>)) (\<lambda>_.
     on_dht (SaveTable ''./data/table.dat''))"

section \<open>Posts\<close>

definition the_collection :: "(node, collection) proc" where
  "the_collection = bind (gets lp_Collection) (\<lambda>c. case c of None \<Rightarrow> panic | Some c \<Rightarrow> ret c)"

text \<open>
  \<open>AddPost\<close>. When the insertion fails the identifier is \<open>-1\<close>, whose piece number is \<open>-1\<close> as well; the
  error is overwritten by that of \<open>QueryPiece\<close>, and a nil piece is dereferenced. \<open>extra\<close> is the
  capacity \<open>append\<close> adds to the hash list. The floor of the quotient is exact for identifiers that
  floating point represents exactly.
\<close>

definition lp_AddPost :: "libs \<Rightarrow> bytes \<Rightarrow> post \<Rightarrow> bool \<Rightarrow> (node, int) proc" where
  "lp_AddPost L extra p store =
     bind (on_world Now_Unix) (\<lambda>now.
     bind (lift_res (Post_Valid now p)) (\<lambda>_.
     bind (modify (\<lambda>s. s\<lparr>lp_Entry := (lp_Entry s)\<lparr>PostCount := wrap64 (PostCount (lp_Entry s) + 1)\<rparr>\<rparr>)) (\<lambda>_.
     bind (attempt (on_db (InsertPost (PQ L) p))) (\<lambda>inserted.
       let i = (case inserted of Inl _ \<Rightarrow> - 1 | Inr i \<Rightarrow> i);
           pieceIndex = i div int PieceSize
       in
     bind (attempt (on_db (QueryPiece (word_of_int pieceIndex) False))) (\<lambda>queried.
       case queried of
         Inl err \<Rightarrow> panic
       | Inr piece \<Rightarrow>
           bind (the_collection) (\<lambda>c.
           bind (lift_res (Collection_Add (CR L) extra piece c)) (\<lambda>c.
           bind (modify (\<lambda>s. s\<lparr>lp_Collection := Some (Collection_Rehash c)\<rparr>)) (\<lambda>_.
           bind (the_collection) (\<lambda>c.
           bind (ignore (on_files (Collection_Save ''./data/collection.dat'' c))) (\<lambda>_.
           bind (modify (\<lambda>s. s\<lparr>lp_Entry := (lp_Entry s)\<lparr>CollectionHash := Collection_Hash (CR L) c\<rparr>\<rparr>)) (\<lambda>_.
           bind (SignEntry (CR L)) (\<lambda>_.
           bind (SaveEntry L) (\<lambda>_. ret i)))))))))))))"

section \<open>Exploring\<close>

text \<open>\<open>seedExplore\<close>: the entries sent into the channel. The shuffle's draws are the argument \<open>js\<close>; the error of the second search is ignored.\<close>

definition seedExplore :: "libs \<Rightarrow> nat list \<Rightarrow> (node, entry list) proc" where
  "seedExplore L js =
     bind (gets lp_Address) (\<lambda>me.
     bind (on_dht (DHT_FindClosest (SQ L) me)) (\<lambda>closest.
     bind (on_world next_rand) (\<lambda>rand.
       case RandomAddress (CR L) rand of
         Ok addr \<Rightarrow>
           bind (attempt (on_dht (DHT_FindClosest (SQ L) addr))) (\<lambda>r.
             let all = ShuffleEntries js (closest @ (case r of Inl _ \<Rightarrow> [] | Inr xs \<Rightarrow> xs)) in
             if all = [] then fail (ErrNew ''Failed to seed bootstrap, bootstrap first'')
             else
               ret (filter (\<lambda>i. \<not> Address_Equals (Address i) me)
                 (concat (map (\<lambda>i. case i of None \<Rightarrow> [] | Some e \<Rightarrow> [e]) (take 3 all)))))
       | _ \<Rightarrow> panic)))"

text \<open>
  \<open>explorePeer\<close>: the entries sent into the channel. The result of a failed connection is a nil
  \<open>*Peer\<close> inside the interface, for which the type assertion succeeds, so that the error is returned.
  A nil entry among the answers is dereferenced.
\<close>

fun not_me :: "address \<Rightarrow> entry option list \<Rightarrow> entry list res" where
  "not_me me [] = Ok []"
| "not_me me (None # is) = Panic"
| "not_me me (Some i # is) =
     res_bind (not_me me is) (\<lambda>r. Ok (if Address_Equals (Address i) me then r else i # r))"

definition explorePeer :: "libs \<Rightarrow> address \<Rightarrow> (node, entry list) proc" where
  "explorePeer L addr =
     bind (gets lp_Address) (\<lambda>me.
     bind (PM_ConnectPeer L addr) (\<lambda>(p, _).
     bind (on_world next_rand) (\<lambda>rand.
     bind (lift_res (RandomAddress (CR L) rand)) (\<lambda>randAddr.
     bind (Peer_FindClosest L p randAddr) (\<lambda>closest.
     bind (lift_res (not_me me closest)) (\<lambda>found.
     bind (attempt (Peer_FindClosest L p me)) (\<lambda>r.
       case r of
         Inl err \<Rightarrow> ret found
       | Inr closestToMe \<Rightarrow>
           bind (lift_res (not_me me closestToMe)) (\<lambda>more. ret (found @ more)))))))))"

text \<open>One tick: the entry taken from the channel, whether the channel is empty then, and what is sent to both channels.\<close>

definition exploreTick :: "libs \<Rightarrow> entry \<Rightarrow> bool \<Rightarrow> nat list \<Rightarrow> (node, entry list \<times> entry list) proc" where
  "exploreTick L i empty_in js =
     bind (gets lp_Address) (\<lambda>me.
       if Address_Equals (Address i) me then ret ([], [])
       else
         bind (attempt (explorePeer L (Address i))) (\<lambda>r.
           let found = (case r of Inl _ \<Rightarrow> [] | Inr xs \<Rightarrow> xs) in
           if empty_in then
             bind (attempt (seedExplore L js)) (\<lambda>seeded.
               ret (found, case seeded of Inl _ \<Rightarrow> [] | Inr xs \<Rightarrow> xs))
           else ret (found, [])))"

text \<open>
  The consumer of \<open>StartExploring\<close>: what it does with one discovered entry; the result says whether the
  entry is sent back to be explored. The merged list of seeds is built and not stored: the entry
  that is inserted is the received one.
\<close>

definition handle_discovered :: "libs \<Rightarrow> entry \<Rightarrow> (node, bool) proc" where
  "handle_discovered L i =
     bind (attempt (on_dht (DHT_Query (SQ L) (Address i)))) (\<lambda>r.
       case r of
         Inl err \<Rightarrow> ret False
       | Inr current \<Rightarrow>
           bind (gets lp_Address) (\<lambda>me.
             if Address_Equals (Address i) me then ret False
             else case current of
               None \<Rightarrow>
                 bind (attempt (on_dht (DHT_Insert (CR L) (SQ L) i))) (\<lambda>ins.
                   case ins of Inl err \<Rightarrow> ret False | Inr affected \<Rightarrow> ret (affected > 0))
             | Some c \<Rightarrow>
                 if Updated i > Updated c then
                   bind (ignore (on_dht (DHT_Insert (CR L) (SQ L) i))) (\<lambda>_. ret False)
                 else if length (Seeds i) > length (Seeds c) then
                   bind (ignore (on_dht (DHT_Insert (CR L) (SQ L) i))) (\<lambda>_. ret False)
                 else ret False))"

text \<open>\<open>StartExploring\<close> itself seeds the job; its goroutines are the operations above.\<close>

definition StartExploring :: "libs \<Rightarrow> nat list \<Rightarrow> (node, entry list) proc" where
  "StartExploring L js = seedExplore L js"

section \<open>Own seeds\<close>

text \<open>One round of \<open>QuerySelf\<close>; \<open>draw\<close> is the random source of \<open>CryptoRandInt\<close>, \<open>order\<close> the iteration order of the merge.\<close>

definition QuerySelf_round :: "libs \<Rightarrow> (int \<Rightarrow> int option) \<Rightarrow> (bytes list \<Rightarrow> bytes list) \<Rightarrow> (node, unit) proc" where
  "QuerySelf_round L draw order =
     bind (gets (\<lambda>s. (Seeds (lp_Entry s), lp_Address s))) (\<lambda>(seeds, me).
       if length seeds = 0 then ret ()
       else
         (let k = CryptoRandInt draw 0 (int (length seeds)) in
          if k < 0 \<or> k \<ge> int (length seeds) then panic
          else
            (let addr = peer_address (seeds ! nat k) in
             if Address_Equals addr me then ret ()
             else
               bind (attempt (PM_ConnectPeer L addr)) (\<lambda>r.
                 case r of
                   Inl err \<Rightarrow> ret ()
                 | Inr (p, _) \<Rightarrow>
                     bind (attempt (Peer_Query L p me)) (\<lambda>q.
                       case q of
                         Inl err \<Rightarrow> ret ()
                       | Inr entry \<Rightarrow>
                           modify (\<lambda>s.
                             if length (Seeds entry) > length (Seeds (lp_Entry s))
                             then s\<lparr>lp_Entry := (lp_Entry s)\<lparr>Seeds := MergeSeeds order (Seeds (lp_Entry s)) (Seeds entry)\<rparr>\<rparr>
                             else s))))))"

section \<open>Starting\<close>

text \<open>\<open>Listen\<close> of \<^verbatim>\<open>localpeer.go\<close>; the goroutines it starts are operations of their own.\<close>

definition lp_Listen :: "libs \<Rightarrow> (node, unit) proc" where
  "lp_Listen L =
     bind (gets lp_Entry) (\<lambda>e.
     bind (attempt (NewSeedManager L (Address e))) (\<lambda>r.
       case r of
         Inl err \<Rightarrow> panic
       | Inr _ \<Rightarrow> SignEntry (CR L)))"

text \<open>
  \<open>main\<close> of \<^verbatim>\<open>cmd/zifd\<close> after \<open>SetupLocalPeer\<close>. The settings are arguments: the address to bind, whether the tor
  service is enabled and what its creation gives, the proxy, and the path of the database.
\<close>

record settings =
  bind_zif :: string
  tor_service :: "string res option"
  tor_socks :: int
  socks_enabled :: bool
  socks_port :: int
  database_path :: string

text \<open>
  \<open>strings.Split(addr, ":")[1]\<close>, which panics without a colon. The number that comes with an error of \<open>Atoi\<close>
  is used: 0 for a bad numeral, the nearest integer for one out of range.
\<close>

definition Atoi_value :: "string \<Rightarrow> int" where
  "Atoi_value s =
     (case Atoi s of
        Some n \<Rightarrow> n
      | None \<Rightarrow>
          (let neg = (take 1 s = ''-''); ds = (if neg \<or> take 1 s = ''+'' then tl s else s)
           in if Atoi_digits ds = None then 0 else if neg then - (2 ^ 63) else 2 ^ 63 - 1))"

definition port_of :: "string \<Rightarrow> int res" where
  "port_of addr =
     (case dropWhile (\<lambda>c. c \<noteq> CHR '':'') addr of
        [] \<Rightarrow> Panic
      | _ # rest \<Rightarrow> Ok (Atoi_value (takeWhile (\<lambda>c. c \<noteq> CHR '':'') rest)))"

definition SetSocks :: "bool \<Rightarrow> (node, unit) proc" where
  "SetSocks on = modify (\<lambda>s. s\<lparr>socks := on\<rparr>)"

definition SetSocksPort :: "int \<Rightarrow> (node, unit) proc" where
  "SetSocksPort port = modify (\<lambda>s. s\<lparr>socksPort := port\<rparr>)"

definition use_socks :: "int \<Rightarrow> (node, unit) proc" where
  "use_socks port =
     bind (SetSocks True) (\<lambda>_.
     bind (SetSocksPort port) (\<lambda>_.
     modify (\<lambda>s. s\<lparr>lpeer := (lpeer s)\<lparr>p_streams := (p_streams (lpeer s))\<lparr>Socks := True, SocksPort := port\<rparr>\<rparr>\<rparr>)))"

text \<open>
  \<open>SetupZifTorService\<close> of \<^verbatim>\<open>tor.go\<close>: the arguments are the outcomes of the calls of the control library and the
  name \<open>ReadOnion\<close> gives, whose error is dropped. White space is that of ASCII.
\<close>

definition TrimSpace :: "string \<Rightarrow> string" where
  "TrimSpace t = rev (dropWhile is_space (rev (dropWhile is_space t)))"

definition SetupZifTorService :: "unit res \<Rightarrow> unit res \<Rightarrow> unit res \<Rightarrow> string \<Rightarrow> string res" where
  "SetupZifTorService Dial CookieAuthenticate CreateHiddenService onion =
     res_bind Dial (\<lambda>_.
     res_bind CookieAuthenticate (\<lambda>_.
     res_bind CreateHiddenService (\<lambda>_. Ok (TrimSpace onion))))"

definition choose_network :: "settings \<Rightarrow> (node, unit) proc" where
  "choose_network cfg =
     (case tor_service cfg of
        Some (Ok onion) \<Rightarrow>
          bind (modify (\<lambda>s. s\<lparr>lp_Entry := (lp_Entry s)\<lparr>PublicAddress := onion\<rparr>\<rparr>)) (\<lambda>_. use_socks (tor_socks cfg))
      | Some _ \<Rightarrow> panic
      | None \<Rightarrow>
          if socks_enabled cfg then use_socks (socks_port cfg)
          else
            bind (gets (\<lambda>s. PublicAddress (lp_Entry s))) (\<lambda>pa.
              if pa = [] then
                bind (on_world ExternalIp) (\<lambda>ip. modify (\<lambda>s. s\<lparr>lp_Entry := (lp_Entry s)\<lparr>PublicAddress := ip\<rparr>\<rparr>))
              else ret ()))"

definition zifd_main :: "libs \<Rightarrow> settings \<Rightarrow> nat list \<Rightarrow> (node, unit) proc" where
  "zifd_main L cfg js =
     bind (lift_res (port_of (bind_zif cfg))) (\<lambda>port.
     bind (ignore (LoadEntry L)) (\<lambda>_.
     bind (choose_network cfg) (\<lambda>_.
     bind (modify (\<lambda>s. s\<lparr>lp_Entry := Entry_SetLocalPeer ((lp_Entry s)\<lparr>Port := port\<rparr>) (lp_Address s) (p_publicKey (lpeer s))\<rparr>)) (\<lambda>_.
     bind (SignEntry (CR L)) (\<lambda>_.
     bind (ignore (SaveEntry L)) (\<lambda>_.
     bind (attempt (SaveEntry L)) (\<lambda>r.
       case r of
         Inl err \<Rightarrow> panic
       | Inr _ \<Rightarrow>
           bind (modify (\<lambda>s. s\<lparr>lp_Database := database_path cfg\<rparr>)) (\<lambda>_.
           bind (on_db Connect) (\<lambda>_.
           bind (lp_Listen L) (\<lambda>_.
           ignore (StartExploring L js)))))))))))"

end
