(* ===== verification/Handlers.thy ===== *)
theory Handlers
  imports Local_Peer
begin

text \<open>
  The requests a node answers, \<^verbatim>\<open>localpeerhandlers.go\<close>, and the server that routes them, \<^verbatim>\<open>proto/server.go\<close>.
  A handler works on the node and on the stream the request came from.
\<close>

section \<open>Node and stream\<close>

abbreviation on_node :: "(node, 'a) proc \<Rightarrow> (node \<times> client, 'a) proc" where
  "on_node \<equiv> zoom fst apfst"

abbreviation on_cl :: "(client, 'a) proc \<Rightarrow> (node \<times> client, 'a) proc" where
  "on_cl \<equiv> zoom snd apsnd"

abbreviation reads :: "libs \<Rightarrow> (msgpack \<Rightarrow> wire \<Rightarrow> 'a res) \<Rightarrow> message \<Rightarrow> (node \<times> client, 'a) proc" where
  "reads L dec m \<equiv> lift_res (Message_Read (MP L) (dec (MP L)) m)"

section \<open>Handlers\<close>

text \<open>
  In the second branch the error of the reply is assigned to a variable of the branch and lost. When
  there is no entry, a refusal is written and the nil entry after it.
\<close>

definition HandleQuery :: "libs \<Rightarrow> message \<Rightarrow> (node \<times> client, unit) proc" where
  "HandleQuery L m =
     bind (reads L dec_address m) (\<lambda>addr.
     bind (on_node (gets (\<lambda>s. (lp_Address s, lp_Entry s)))) (\<lambda>(me, e).
       if Address_Equals addr me then
         on_cl (WriteMessage (Message_Write (WEntry (Some e)) (bare ProtoDhtQuery)))
       else
         bind (on_node (on_dht (DHT_Query (SQ L) addr))) (\<lambda>kv.
         bind (if kv = None then ignore (on_cl (WriteMessage (bare ProtoNo))) else ret ()) (\<lambda>_.
         ignore (on_cl (WriteMessage (Message_Write (WEntry kv) (bare ProtoDhtQuery))))))))"

definition HandleFindClosest :: "libs \<Rightarrow> message \<Rightarrow> (node \<times> client, unit) proc" where
  "HandleFindClosest L m =
     bind (reads L dec_address m) (\<lambda>addr.
     bind (on_node (on_dht (DHT_FindClosest (SQ L) addr))) (\<lambda>pairs.
     on_cl (WriteMessage (Message_Write (WEntries pairs) (bare ProtoDhtEntries)))))"

definition HandleAnnounce :: "libs \<Rightarrow> message \<Rightarrow> (node \<times> client, unit) proc" where
  "HandleAnnounce L m =
     deferred
       (bind (reads L dec_entry m) (\<lambda>e.
        bind (attempt (on_node (on_dht (DHT_Insert (CR L) (SQ L) e)))) (\<lambda>r.
          if (case r of Inl _ \<Rightarrow> False | Inr affected \<Rightarrow> affected > 0)
          then ignore (on_cl (WriteMessage (bare ProtoOk)))
          else
            bind (ignore (on_cl (WriteMessage (bare ProtoNo)))) (\<lambda>_. fail (ErrNew ''Failed to save entry'')))))
       (on_cl Client_Close)"

definition HandleSearch :: "libs \<Rightarrow> message \<Rightarrow> (node \<times> client, unit) proc" where
  "HandleSearch L m =
     bind (reads L dec_search m) (\<lambda>sq.
     bind (on_node (on_db (db_Search (PQ L) (SQ_Query sq) (SQ_Page sq) 25))) (\<lambda>posts.
     on_cl (WriteMessage (Message_Write (WPosts (map Some posts)) (bare ProtoPosts)))))"

definition HandleRecent :: "libs \<Rightarrow> message \<Rightarrow> (node \<times> client, unit) proc" where
  "HandleRecent L m =
     bind (reads L dec_int m) (\<lambda>page.
     bind (on_node (on_db (QueryRecent page))) (\<lambda>recent.
     on_cl (WriteMessage (Message_Write (WPosts (map Some recent)) (bare ProtoPosts)))))"

definition HandlePopular :: "libs \<Rightarrow> message \<Rightarrow> (node \<times> client, unit) proc" where
  "HandlePopular L m =
     bind (reads L dec_int m) (\<lambda>page.
     bind (on_node (on_db (QueryPopular page))) (\<lambda>recent.
     on_cl (WriteMessage (Message_Write (WPosts (map Some recent)) (bare ProtoPosts)))))"

definition hash_list_message :: "bytes \<Rightarrow> mcollection" where
  "hash_list_message hl =
     \<lparr>MC_Hash = [], MC_HashList = slice_of hl, MC_Size = int (length hl div 32), MC_Signature = []\<rparr>"

definition hash_list_of :: "address \<Rightarrow> entry option \<Rightarrow> (node, bytes) proc" where
  "hash_list_of addr entry =
     bind (gets lp_Address) (\<lambda>me.
       if Address_Equals addr me then bind the_collection (\<lambda>c. ret (sdata (HashList c)))
       else if entry \<noteq> None then on_files (ReadFile (''./data/'' @ Address_StringOr addr ''err'' @ ''/collection.dat''))
       else fail (ErrNew ''Cannot return collection hash list''))"

definition HandleHashList :: "libs \<Rightarrow> message \<Rightarrow> (node \<times> client, unit) proc" where
  "HandleHashList L m =
     bind (reads L dec_address m) (\<lambda>addr.
     bind (attempt (on_node (on_dht (DHT_Query (SQ L) addr)))) (\<lambda>r.
     bind (case r of
             Inl err \<Rightarrow> if err = ErrNoRows then ret None else fail err
           | Inr entry \<Rightarrow> ret entry) (\<lambda>entry.
     bind (on_node (hash_list_of addr entry)) (\<lambda>hashList.
     ignore (on_cl (WriteMessage (Message_Write (WCollection (hash_list_message hashList)) (bare ProtoHashList))))))))"

text \<open>The posts go through the compressor straight to the stream.\<close>

definition HandlePiece :: "libs \<Rightarrow> message \<Rightarrow> (node \<times> client, unit) proc" where
  "HandlePiece L m =
     bind (reads L dec_piece m) (\<lambda>mrp.
     bind (on_node (gets (\<lambda>s. (Address_StringOr (lp_Address s) [], lp_Database s, map_of (Databases s) (RP_Address mrp))))) (\<lambda>(me, own, other).
     bind (if RP_Address mrp = me then ret own
           else case other of
             Some path \<Rightarrow> ret path
           | None \<Rightarrow> fail (ErrNew ''Piece not found'')) (\<lambda>path.
     bind (on_node (on_store path (QueryPiecePosts (RP_Id mrp) (RP_Length mrp)))) (\<lambda>posts.
     on_cl (modify (\<lambda>c. c\<lparr>streamed := streamed c @ send_posts posts\<rparr>))))))"

text \<open>\<open>from\<close> is the address of the peer that sent the request.\<close>

definition HandleAddPeer :: "libs \<Rightarrow> address \<Rightarrow> message \<Rightarrow> (node \<times> client, unit) proc" where
  "HandleAddPeer L from m =
     bind (reads L dec_address m) (\<lambda>addr.
     bind (on_node (gets lp_Address)) (\<lambda>me.
     bind (if Address_Equals addr me then
             bind (on_node (modify (\<lambda>s.
               if list_ex (\<lambda>i. Address_Equals from (peer_address i)) (Seeds (lp_Entry s)) then s
               else s\<lparr>lp_Entry := (lp_Entry s)\<lparr>Seeds := Seeds (lp_Entry s) @ [Address_Bytes from]\<rparr>\<rparr>))) (\<lambda>_.
             on_node (SaveEntry L))
           else
             bind (on_node (on_dht (DHT_Query (SQ L) addr))) (\<lambda>eo.
               case eo of
                 None \<Rightarrow> fail (ErrNew ''Cannot add peer, do not have entry'')
               | Some e \<Rightarrow>
                   ignore (on_node (on_dht (DHT_Insert (CR L) (SQ L) (e\<lparr>Seeds := Seeds e @ [Address_Bytes from]\<rparr>)))))) (\<lambda>_.
     ignore (on_cl (WriteMessage (bare ProtoOk))))))"

definition HandleHandshake :: "libs \<Rightarrow> conn_header \<Rightarrow> (node, nat) proc" where
  "HandleHandshake L header =
     bind (new_peer empty_peer) (\<lambda>p.
     bind (Peer_SetTCP p header) (\<lambda>_.
     bind (Peer_ConnectServer p) (\<lambda>_.
     bind (PM_SetPeer L p) (\<lambda>_.
     bind (Peer_Entry L p) (\<lambda>entry.
     bind (ignore (on_dht (DHT_Insert (CR L) (SQ L) entry))) (\<lambda>_. ret p))))))"

section \<open>The server\<close>

text \<open>The errors of the handlers are logged; the stream is closed in any case.\<close>

definition RouteMessage :: "libs \<Rightarrow> address \<Rightarrow> message \<Rightarrow> (node \<times> client, unit) proc" where
  "RouteMessage L from m =
     deferred
       (ignore
         (if Header m = ProtoDhtAnnounce then HandleAnnounce L m
          else if Header m = ProtoDhtQuery then HandleQuery L m
          else if Header m = ProtoDhtFindClosest then HandleFindClosest L m
          else if Header m = ProtoSearch then HandleSearch L m
          else if Header m = ProtoRecent then HandleRecent L m
          else if Header m = ProtoPopular then HandlePopular L m
          else if Header m = ProtoRequestHashList then HandleHashList L m
          else if Header m = ProtoRequestPiece then HandlePiece L m
          else if Header m = ProtoRequestAddPeer then HandleAddPeer L from m
          else ret ()))
       (on_cl Client_Close)"

text \<open>The loop over the messages of a stream, for at most \<open>n\<close> of them.\<close>

fun HandleStream :: "libs \<Rightarrow> address \<Rightarrow> nat \<Rightarrow> (node \<times> client, unit) proc" where
  "HandleStream L from 0 = ret ()"
| "HandleStream L from (Suc n) =
     bind (attempt (on_cl ReadMessage)) (\<lambda>r.
       case r of
         Inl err \<Rightarrow> ret ()
       | Inr m \<Rightarrow> bind (RouteMessage L from m) (\<lambda>_. HandleStream L from n))"

text \<open>Every message closes its stream, so that a bound of one message is enough and any greater one gives the same result.\<close>

lemma RouteMessage_closes: "closed (snd (snd (RouteMessage L from m s)))"
  by (simp add: RouteMessage_def deferred_def zoom_def Client_Close_def modify_def split: prod.splits)

lemma HandleStream_closed: "closed (snd s) \<Longrightarrow> HandleStream L from n s = (Ok (), s)"
  by (cases n; cases s) (simp_all add: bind_def attempt_def zoom_def ReadMessage_def ret_def)

lemma HandleStream_enough: "HandleStream L from (Suc n) = HandleStream L from (Suc 0)"
proof
  fix s
  have "bind (RouteMessage L from m) (\<lambda>_. HandleStream L from k) t = RouteMessage L from m t" for m k t
    using RouteMessage_closes [of L "from" m t]
    by (auto simp: bind_def HandleStream_closed split: prod.splits res.splits simp del: HandleStream.simps)
  then show "HandleStream L from (Suc n) s = HandleStream L from (Suc 0) s"
    unfolding HandleStream.simps(2)
    by (auto simp: bind_def [of "attempt _"] simp del: HandleStream.simps split: prod.splits res.splits sum.splits)
qed

text \<open>
  \<open>Handshake\<close>: a connection accepted by \<open>Listen\<close>. The capabilities that are set are those of the local
  peer. The result is the peer whose streams are then served, if there is one.
\<close>

definition Server_Handshake :: "libs \<Rightarrow> (node \<times> client, nat option) proc" where
  "Server_Handshake L =
     bind (on_node (on_world next_rand)) (\<lambda>rand.
     bind (on_node (gets (\<lambda>s. ((privateKey s, p_capabilities (lpeer s)), lp_Entry s)))) (\<lambda>(lp, data).
     bind (attempt (on_cl (handshake (CR L) (MP L) (\<lambda>_. rand) (Some lp) data))) (\<lambda>r.
       case r of
         Inl err \<Rightarrow> ret None
       | Inr (header, caps) \<Rightarrow>
           bind (on_cl (gets (\<lambda>c. c))) (\<lambda>c.
           bind (attempt (on_node (HandleHandshake L \<lparr>CH_Client = c, CH_Entry = header, CH_Caps = caps\<rparr>))) (\<lambda>h.
             case h of
               Inl err \<Rightarrow> ret None
             | Inr p \<Rightarrow>
                 bind (on_node (modify (\<lambda>s. s\<lparr>lpeer := (lpeer s)\<lparr>p_capabilities := caps\<rparr>\<rparr>))) (\<lambda>_.
                 bind (on_node (PM_SetPeer L p)) (\<lambda>_. ret (Some p))))))))"

text \<open>
  \<open>binary.Read\<close> of an \<open>int16\<close>, from the numbers the other side has written before its first message. When the
  connection ends before, the error is ignored and the variable keeps its initial value.
\<close>

fun ReadInt16 :: "int list \<Rightarrow> int \<times> int list" where
  "ReadInt16 [] = (0, [])"
| "ReadInt16 (i # is) = (i, is)"

text \<open>
  One round of \<open>Listen\<close>: the outcome of \<open>Accept\<close>, a connection with the numbers that were written on it. The result is the
  connection and the peer when the connection is handed to the handshake; a connection that is refused is left
  as it is, neither answered nor closed.
\<close>

definition Listen_round :: "libs \<Rightarrow> (int list \<times> client) res \<Rightarrow> (node, (client \<times> nat option) option) proc" where
  "Listen_round L accepted =
     (case accepted of
        Ok (written, c) \<Rightarrow>
          (let (zif, written) = ReadInt16 written in
           if zif \<noteq> ProtoZif then ret None
           else
             (let (version, written) = ReadInt16 written in
              if version \<noteq> ProtoVersion then ret None
              else (\<lambda>s. case Server_Handshake L (s, c) of
                           (Ok p, s', c') \<Rightarrow> (Ok (Some (c', p)), s')
                         | (Err e, s', c') \<Rightarrow> (Err e, s')
                         | (Panic, s', c') \<Rightarrow> (Panic, s'))))
      | _ \<Rightarrow> ret None)"

text \<open>One round of \<open>ListenStream\<close>: the accepted stream with its number, or the end of the session; the result says whether it goes on.\<close>

definition ListenStream_round :: "libs \<Rightarrow> nat \<Rightarrow> (nat \<times> client) option \<Rightarrow> (node, bool) proc" where
  "ListenStream_round L p accepted =
     (case accepted of
        None \<Rightarrow>
          bind (gets (\<lambda>s. p_address (the_peer p s))) (\<lambda>a.
          bind (PM_HandleCloseConnection a) (\<lambda>_. ret False))
      | Some (i, c) \<Rightarrow>
          bind (on_world mux_call) (\<lambda>deadline.
            case deadline of
              Ok _ \<Rightarrow>
                bind (Peer_AddStream p i) (\<lambda>_.
                bind (UpdateSeen p) (\<lambda>_.
                bind (gets (\<lambda>s. p_address (the_peer p s))) (\<lambda>a s.
                  case HandleStream L a (Suc (length (inbox c))) (s, c) of
                    (Ok _, s', c') \<Rightarrow> (Ok True, s'\<lparr>world := (world s')\<lparr>stream_log := stream_log (world s') @ [c']\<rparr>\<rparr>)
                  | (Err e, s', c') \<Rightarrow> (Err e, s')
                  | (Panic, s', c') \<Rightarrow> (Panic, s'))))
            | _ \<Rightarrow>
                bind (gets (\<lambda>s. p_address (the_peer p s))) (\<lambda>a.
                bind (PM_HandleCloseConnection a) (\<lambda>_. ret False))))"

end
