(* ===== verification/Mirroring.thy ===== *)
theory Mirroring
  imports Handlers
begin

text \<open>
  Copying another peer's posts (\<open>Mirror\<close> of \<^verbatim>\<open>peer.go\<close>), keeping lists of seeds (\<^verbatim>\<open>seedmanager.go\<close>) and the
  map of the network (\<^verbatim>\<open>netmap.go\<close>).
\<close>

section \<open>Mirror\<close>

text \<open>
  The loop over the received pieces: the hash of piece \<open>i\<close> is compared with the \<open>i\<close>-th entry of the hash
  list; slicing beyond its capacity panics. The result is the accepted pieces and whether
  all were.
\<close>

fun check_pieces :: "crypto \<Rightarrow> byte slice \<Rightarrow> nat \<Rightarrow> piece list \<Rightarrow> (piece list \<times> bool) res" where
  "check_pieces C hl i [] = Ok ([], True)"
| "check_pieces C hl i (p # ps) =
     (if 32 * i + 32 > scap hl then Panic
      else if take 32 (drop (32 * i) (sbuf hl)) \<noteq> Piece_Hash C p then Ok ([], False)
      else res_bind (check_pieces C hl (Suc i) ps) (\<lambda>(acc, ok). Ok (p # acc, ok)))"

text \<open>
  The goroutine that inserts the pieces is run when the loop has ended. When \<open>Mirror\<close> returns early it
  waits for a piece for ever, and of what it inserted only the finished transactions are stored.
\<close>

definition insert_unfinished :: "psqlite \<Rightarrow> piece list \<Rightarrow> (pstore, unit) proc" where
  "insert_unfinished q ps s =
     (case db_call s of
        (Ok _, s1) \<Rightarrow>
          (case insert_pieces_loop q 0 (map Some ps) s1 s1 of
             (TxOpen snap, s2) \<Rightarrow> (Ok (), snap\<lparr>pfaults := pfaults s2\<rparr>)
           | (_, s2) \<Rightarrow> (Ok (), s2))
      | (_, s1) \<Rightarrow> (Ok (), s1))"

definition mirror_entry :: "libs \<Rightarrow> nat \<Rightarrow> (node, entry) proc" where
  "mirror_entry L p =
     bind (gets (the_peer p)) (\<lambda>pr.
       if p_seed pr then
         (case p_seedFor pr of
            None \<Rightarrow> panic
          | Some e \<Rightarrow> Peer_Query L p (Address e))
       else bind (Peer_GetEntry L p) (\<lambda>_. Peer_Entry L p))"

definition since_piece :: "uint64 \<Rightarrow> nat" where
  "since_piece n = (let currentStore = ceil_div (unat n) PieceSize in if currentStore \<noteq> 0 then currentStore - 1 else 0)"

definition Peer_Mirror :: "libs \<Rightarrow> nat \<Rightarrow> string \<Rightarrow> (node, unit) proc" where
  "Peer_Mirror L p path =
     bind (Peer_Ping p) (\<lambda>_.
     bind (mirror_entry L p) (\<lambda>entry.
     bind (gets (\<lambda>s. p_managed (the_peer p s))) (\<lambda>managed.
     bind (if managed then ignore (AddEntry L entry) else panic) (\<lambda>_.
     bind (with_stream p (Client_Collection (CR L) (MP L) (Address entry) entry)) (\<lambda>mcol.
     bind (on_files (Collection_Save (''./data/'' @ Address_StringOr (Address entry) ''err'' @ ''/collection.dat'')
             (NewCollection\<lparr>HashList := MC_HashList mcol\<rparr>))) (\<lambda>_.
     bind (on_store path PostCount_db) (\<lambda>count.
       if sint count = PostCount entry then ret ()
       else
         bind (on_store path PostCount_db) (\<lambda>count.
         bind (on_world next_piece_stream) (\<lambda>stream.
         bind (with_stream p (Client_Pieces (Address entry) (int (since_piece count)) (MC_Size mcol) stream)) (\<lambda>chan.
           case chan of
             None \<Rightarrow> on_world block_forever
           | Some pieces \<Rightarrow>
               bind (lift_res (check_pieces (CR L) (MC_HashList mcol) 0 pieces)) (\<lambda>(accepted, ok).
               bind (on_world (modify (\<lambda>w. w\<lparr>on_piece := [0..<length accepted]\<rparr>))) (\<lambda>_.
                 if \<not> ok then
                   bind (on_store path (insert_unfinished (PQ L) accepted)) (\<lambda>_. fail (ErrNew ''Piece hash mismatch''))
                 else
                   bind (attempt (Peer_RequestAddPeer L p entry)) (\<lambda>r.
                   bind (modify (upd_peer p (\<lambda>pr. pr\<lparr>p_seed := False, p_seedFor := None\<rparr>))) (\<lambda>_.
                   bind (ignore (on_store path (InsertPieces (PQ L) (map Some accepted @ [None]) True))) (\<lambda>_.
                     case r of Inl err \<Rightarrow> fail err | Inr _ \<Rightarrow> ret ())))))))))))))))"

section \<open>Seed managers\<close>

text \<open>
  Removing an element from \<open>result\<close> while the loop ranges over it: the array and the length of the slice.
  On an error of \<open>Resolve\<close> the removal is done twice; slicing beyond the length panics.
\<close>

definition drop_at :: "nat \<Rightarrow> 'a list \<times> nat \<Rightarrow> ('a list \<times> nat) res" where
  "drop_at n bl =
     (case bl of (buf, len) \<Rightarrow>
        if n + 1 > len then Panic
        else (let rest = drop (n + 1) (take len buf) in Ok (overwrite n rest buf, n + length rest)))"

definition truncate_or_drop :: "nat \<Rightarrow> 'a list \<times> nat \<Rightarrow> ('a list \<times> nat) res" where
  "truncate_or_drop n bl =
     (if int n \<ge> int (snd bl) - 1 then Ok (fst bl, n) else drop_at n bl)"

fun link_back_loop :: "libs \<Rightarrow> address \<Rightarrow> nat list \<Rightarrow> bytes list \<times> nat \<Rightarrow> (node, bytes list \<times> nat) proc" where
  "link_back_loop L track [] bl = ret bl"
| "link_back_loop L track (n # ns) bl =
     bind (attempt (Resolve L (peer_address (fst bl ! n)))) (\<lambda>r.
       case r of
         Inl err \<Rightarrow>
           bind (lift_res (res_bind (truncate_or_drop n bl) (drop_at n))) (link_back_loop L track ns)
       | Inr entry \<Rightarrow>
           if Raw track \<in> set (Seeding entry) then link_back_loop L track ns bl
           else bind (lift_res (truncate_or_drop n bl)) (link_back_loop L track ns))"

text \<open>
  The loop of \<open>find\<close> over the seeds of the entry. For the local peer the entry is the node's own, so
  that new seeds are added to it; \<open>entry\<close> is the seed manager's entry.
\<close>

definition add_seeds :: "libs \<Rightarrow> address \<Rightarrow> entry \<Rightarrow> bytes list \<Rightarrow> (node, entry) proc" where
  "add_seeds L track entry result =
     (let e = entry\<lparr>Seeds := Seeds entry @ result\<rparr> in
      bind (gets lp_Address) (\<lambda>me.
      bind (if Address_Equals track me then modify (\<lambda>s. s\<lparr>lp_Entry := e\<rparr>) else ret ()) (\<lambda>_.
      bind (ignore (on_dht (DHT_Insert (CR L) (SQ L) e))) (\<lambda>_. ret e))))"

fun find_loop :: "libs \<Rightarrow> address \<Rightarrow> bytes list \<Rightarrow> entry \<Rightarrow> (node, entry) proc" where
  "find_loop L track [] entry = ret entry"
| "find_loop L track (i # is) entry =
     bind (gets lp_Address) (\<lambda>me.
       if Address_Equals (peer_address i) me then find_loop L track is entry
       else
         bind (attempt (PM_ConnectPeer L (peer_address i))) (\<lambda>r.
           case r of
             Inl err \<Rightarrow> find_loop L track is entry
           | Inr (p, _) \<Rightarrow>
               bind (attempt (Peer_Query L p (Address entry))) (\<lambda>q.
                 case q of
                   Inl err \<Rightarrow> find_loop L track is entry
                 | Inr qResult \<Rightarrow>
                     (let result = SliceDiff (Seeds entry) (Seeds qResult) in
                      bind (link_back_loop L track [0..<length result] (result, length result)) (\<lambda>(buf, len).
                        if len > 0 then
                          bind (add_seeds L track entry (take len buf)) (\<lambda>e. find_loop L track is e)
                        else find_loop L track is entry)))))"

definition find_seeds :: "libs \<Rightarrow> address \<Rightarrow> (node, unit) proc" where
  "find_seeds L track =
     bind (attempt (QueryEntry L track)) (\<lambda>r.
       case r of
         Inl err \<Rightarrow> ret ()
       | Inr entry \<Rightarrow> bind (find_loop L track (Seeds entry) entry) (\<lambda>_. ret ()))"

section \<open>Map of the network\<close>

record map_node =
  MN_Address :: string
  MN_Name :: string

record map_link =
  ML_Source :: string
  ML_Target :: string

text \<open>
  The state of the recursion: the network database and the two sets that all calls share. A call
  ends when the node or the link was seen; an address without an entry is a nil pointer. The
  argument \<open>n\<close> bounds the depth; \<open>None\<close> is a call that would go deeper.
\<close>

record netmap =
  nm_db :: netdb
  currentNodes :: "string list"
  currentLinks :: "string list"

fun seeding_loop :: "(entry \<Rightarrow> (netmap, (map_node list \<times> map_link list) option) proc) \<Rightarrow> sqlite \<Rightarrow> entry \<Rightarrow> bytes list
    \<Rightarrow> map_node list \<Rightarrow> map_link list \<Rightarrow> (netmap, (map_node list \<times> map_link list) option) proc" where
  "seeding_loop rec q entry [] nodes links = ret (Some (nodes, links))"
| "seeding_loop rec q entry (i # is) nodes links =
     bind (attempt (zoom nm_db nm_db_update (DHT_Query q (peer_address i)))) (\<lambda>r.
       case r of
         Inl err \<Rightarrow> seeding_loop rec q entry is nodes links
       | Inr None \<Rightarrow> panic
       | Inr (Some e) \<Rightarrow>
           (let lk = peer_key (Address e) @ peer_key (Address entry) in
            bind (gets (\<lambda>s. (lk \<in> set (currentLinks s), peer_key (Address e) \<in> set (currentNodes s)))) (\<lambda>(has_link, has_node).
              if has_link then seeding_loop rec q entry is nodes links
              else
                (let links = links @ [\<lparr>ML_Source = Address_StringOr (Address e) [], ML_Target = Address_StringOr (Address entry) []\<rparr>] in
                 bind (modify (\<lambda>s. s\<lparr>currentLinks := lk # currentLinks s\<rparr>)) (\<lambda>_.
                   if has_node then seeding_loop rec q entry is nodes links
                   else
                     (let nodes = nodes @ [\<lparr>MN_Address = Address_StringOr (Address e) [], MN_Name = Name e\<rparr>] in
                      bind (modify (\<lambda>s. s\<lparr>currentNodes := peer_key (Address e) # currentNodes s\<rparr>)) (\<lambda>_.
                      bind (rec e) (\<lambda>nl.
                        case nl of
                          None \<Rightarrow> ret None
                        | Some (n, l) \<Rightarrow> seeding_loop rec q entry is (nodes @ n) (links @ l)))))))))"

fun CreateNetMap :: "nat \<Rightarrow> sqlite \<Rightarrow> entry \<Rightarrow> (netmap, (map_node list \<times> map_link list) option) proc" where
  "CreateNetMap 0 q entry = ret None"
| "CreateNetMap (Suc n) q entry =
     bind (gets (\<lambda>s. if peer_key (Address entry) \<in> set (currentNodes s) then []
         else [\<lparr>MN_Address = Address_StringOr (Address entry) [], MN_Name = Name entry\<rparr>])) (\<lambda>nodes.
     seeding_loop (CreateNetMap n q) q entry (Seeding entry) nodes [])"

end
