(* ===== verification/Commands.thy ===== *)
theory Commands
  imports Mirroring
begin

text \<open>
  The commands that control a node, \<^verbatim>\<open>commandserver.go\<close>, with their results from \<^verbatim>\<open>commands.go\<close>. Of the
  profiling commands the model has the files they create. A result value that a failed call leaves
  nil is \<open>VNil\<close>. Keys are compared after lower-casing the ASCII letters, which agrees with
  \<open>strings.ToLower\<close> on the keys that are matched.
\<close>

section \<open>Results\<close>

datatype cmd_value =
    VNil
  | VPing
  | VPosts "post option list"
  | VSearch "post option list" string
  | VAddresses "address list"
  | VEntry entry
  | VEntries "entry list"
  | VStr string
  | VStrings "string list"
  | VInt int
  | VMap "map_node list" "map_link list"

record command_result =
  IsOK :: bool
  Result :: cmd_value
  Error :: "err option"

record cserver =
  cs_node :: node
  MirrorProgress :: "(string \<times> int) list"

abbreviation at_lp :: "(node, 'a) proc \<Rightarrow> (cserver, 'a) proc" where
  "at_lp \<equiv> zoom cs_node cs_node_update"

definition cmd_ok :: "cmd_value \<Rightarrow> command_result" where
  "cmd_ok v = \<lparr>IsOK = True, Result = v, Error = None\<rparr>"

definition cmd_err :: "err \<Rightarrow> command_result" where
  "cmd_err e = \<lparr>IsOK = False, Result = VNil, Error = Some e\<rparr>"

text \<open>\<open>CommandResult{err == nil, value, err}\<close>, and \<open>CommandResult{false, nil, err}\<close> for an error on the way.\<close>

definition outcome :: "(cserver, cmd_value) proc \<Rightarrow> (cserver, command_result) proc" where
  "outcome m =
     bind (attempt m) (\<lambda>r. ret (case r of Inl e \<Rightarrow> cmd_err e | Inr v \<Rightarrow> cmd_ok v))"

text \<open>What \<open>WriteJSON\<close> encodes: the status, and the value or the error text.\<close>

datatype reply = ReplyOk | ReplyValue cmd_value | ReplyErr string

definition WriteJSON :: "command_result \<Rightarrow> reply" where
  "WriteJSON cr =
     (if IsOK cr then (if Result cr = VNil then ReplyOk else ReplyValue (Result cr))
      else ReplyErr (case Error cr of
             None \<Rightarrow> ''Something bad happened, but we don't know what, which makes the fact much worse.''
           | Some e \<Rightarrow> error_text e))"

section \<open>Peers\<close>

text \<open>The connected peer, or a new connection.\<close>

definition get_or_connect :: "libs \<Rightarrow> address \<Rightarrow> (node, nat) proc" where
  "get_or_connect L addr =
     bind (gets (PM_GetPeer addr)) (\<lambda>known.
       case known of
         Some p \<Rightarrow> ret p
       | None \<Rightarrow> bind (PM_ConnectPeer L addr) (\<lambda>(p, _). ret p))"

definition cs_Ping :: "libs \<Rightarrow> string \<Rightarrow> (cserver, command_result) proc" where
  "cs_Ping L a =
     outcome (at_lp
       (bind (lift_res (DecodeAddress a)) (\<lambda>addr.
        bind (PM_ConnectPeer L addr) (\<lambda>(p, _).
        bind (Peer_Ping p) (\<lambda>_. ret VPing)))))"

definition cs_Announce :: "libs \<Rightarrow> string \<Rightarrow> (cserver, command_result) proc" where
  "cs_Announce L a =
     outcome (at_lp
       (bind (lift_res (DecodeAddress a)) (\<lambda>addr.
        bind (get_or_connect L addr) (\<lambda>p.
        bind (Peer_Announce L p) (\<lambda>_. ret VNil)))))"

definition cs_RSearch :: "libs \<Rightarrow> string \<Rightarrow> string \<Rightarrow> int \<Rightarrow> (cserver, command_result) proc" where
  "cs_RSearch L a query page =
     outcome (at_lp
       (bind (lift_res (DecodeAddress a)) (\<lambda>addr.
        bind (get_or_connect L addr) (\<lambda>p.
        bind (Peer_Search L p query page) (\<lambda>(posts, source). ret (VSearch posts source))))))"

definition cs_PeerSearch :: "libs \<Rightarrow> string \<Rightarrow> string \<Rightarrow> int \<Rightarrow> (cserver, command_result) proc" where
  "cs_PeerSearch L a query page =
     bind (at_lp (gets (\<lambda>s. map_of (Databases s) a))) (\<lambda>db.
       case db of
         None \<Rightarrow> cs_RSearch L a query page
       | Some path \<Rightarrow>
           outcome (at_lp
             (bind (on_store path (sp_Search (PQ L) a query page)) (\<lambda>r.
              ret (VSearch (map Some (SR_Posts r)) (SR_Source r))))))"

definition cs_EntrySearch :: "libs \<Rightarrow> string \<Rightarrow> string \<Rightarrow> int \<Rightarrow> (cserver, command_result) proc" where
  "cs_EntrySearch L name desc page =
     outcome (at_lp
       (bind (on_dht (DHT_SearchEntries (SQ L) name desc page)) (\<lambda>addresses.
        ret (VAddresses (map (\<lambda>i. snd (Address_String i)) addresses)))))"

definition cs_PeerRecent :: "libs \<Rightarrow> string \<Rightarrow> int \<Rightarrow> (cserver, command_result) proc" where
  "cs_PeerRecent L a page =
     outcome (at_lp
       (bind (gets lp_Address) (\<lambda>me.
          if a = Address_StringOr me [] then
            bind (on_db (QueryRecent page)) (\<lambda>posts. ret (VPosts (map Some posts)))
          else
            bind (lift_res (DecodeAddress a)) (\<lambda>addr.
            bind (get_or_connect L addr) (\<lambda>p.
            bind (Peer_Recent L p page) (\<lambda>posts. ret (VPosts posts)))))))"

definition cs_PeerPopular :: "libs \<Rightarrow> string \<Rightarrow> int \<Rightarrow> (cserver, command_result) proc" where
  "cs_PeerPopular L a page =
     outcome (at_lp
       (bind (gets lp_Address) (\<lambda>me.
          if a = Address_StringOr me [] then
            bind (on_db (QueryPopular page)) (\<lambda>posts. ret (VPosts (map Some posts)))
          else
            bind (lift_res (DecodeAddress a)) (\<lambda>addr.
            bind (get_or_connect L addr) (\<lambda>p.
            bind (Peer_Popular L p page) (\<lambda>posts. ret (VPosts posts)))))))"

text \<open>
  The loop over the seeds when a peer cannot be reached: it goes on after a success, and a failure
  afterwards loses the peer that was connected.
\<close>

fun try_seeds :: "libs \<Rightarrow> entry \<Rightarrow> bytes list \<Rightarrow> nat option \<Rightarrow> (node, nat option) proc" where
  "try_seeds L entry [] peer = ret peer"
| "try_seeds L entry (i # is) peer =
     bind (gets lp_Address) (\<lambda>me.
       if Address_Equals (peer_address i) me then try_seeds L entry is peer
       else
         bind (attempt (PM_ConnectPeer L (peer_address i))) (\<lambda>r.
           case r of
             Inl err \<Rightarrow> try_seeds L entry is None
           | Inr (p, _) \<Rightarrow>
               bind (modify (upd_peer p (\<lambda>pr. pr\<lparr>p_seed := True, p_seedFor := Some entry\<rparr>))) (\<lambda>_.
               try_seeds L entry is (Some p))))"

text \<open>The peer to mirror from; \<open>js\<close> are the draws of the shuffle.\<close>

definition mirror_source :: "libs \<Rightarrow> nat list \<Rightarrow> address \<Rightarrow> (node, nat) proc" where
  "mirror_source L js addr =
     bind (gets (PM_GetPeer addr)) (\<lambda>known.
       case known of
         Some p \<Rightarrow> ret p
       | None \<Rightarrow>
           bind (PM_ConnectPeer_entry L addr) (\<lambda>(entry, r).
             case r of
               Inr p \<Rightarrow> ret p
             | Inl err \<Rightarrow>
                 if err = PeerUnreachable then
                   (if length (Seeds entry) = 0 then fail err
                    else
                      bind (try_seeds L entry (ShuffleBytes js (Seeds entry)) None) (\<lambda>po.
                        case po of None \<Rightarrow> fail PeerUnreachable | Some p \<Rightarrow> ret p))
                 else fail err))"

text \<open>The database is registered under the address of the peer it comes from. The progress is the number of the last piece.\<close>

definition cs_Mirror :: "libs \<Rightarrow> nat list \<Rightarrow> string \<Rightarrow> (cserver, command_result) proc" where
  "cs_Mirror L js a =
     outcome
       (bind (lift_res (DecodeAddress a)) (\<lambda>addr.
        bind (at_lp (Resolve L addr)) (\<lambda>mirroring.
        bind (at_lp (mirror_source L js addr)) (\<lambda>p.
        bind (at_lp (gets (\<lambda>s. Address_StringOr (p_address (the_peer p s)) []))) (\<lambda>source.
          let path = ''./data/'' @ Address_StringOr (Address mirroring) [] @ ''/posts.db'' in
        bind (at_lp (ignore (on_store path Connect))) (\<lambda>_.
        bind (at_lp (modify (\<lambda>s. s\<lparr>Databases := AList.update source path (Databases s)\<rparr>))) (\<lambda>_.
        bind (at_lp (on_world (modify (\<lambda>w. w\<lparr>on_piece := []\<rparr>)))) (\<lambda>_.
        bind (deferred (at_lp (Peer_Mirror L p path)) (modify (\<lambda>s. case on_piece (world (cs_node s)) of
            [] \<Rightarrow> s
          | ns \<Rightarrow> s\<lparr>MirrorProgress := AList.update a (int (last ns)) (MirrorProgress s)\<rparr>))) (\<lambda>_. ret VNil)))))))))"

definition GetMirrorProgress :: "string \<Rightarrow> (cserver, command_result) proc" where
  "GetMirrorProgress a =
     bind (gets (\<lambda>s. map_of (MirrorProgress s) a)) (\<lambda>r.
       ret (case r of
              None \<Rightarrow> cmd_err (ErrNew ''Mirror not in progress'')
            | Some progress \<Rightarrow> cmd_ok (VInt progress)))"

definition cs_PeerIndex :: "string \<Rightarrow> int \<Rightarrow> (cserver, command_result) proc" where
  "cs_PeerIndex a since =
     outcome (at_lp
       (bind (gets (\<lambda>s. map_of (Databases s) a)) (\<lambda>db.
          case db of
            None \<Rightarrow> fail (ErrNew ''Peer database not loaded.'')
          | Some path \<Rightarrow> bind (on_store path (GenerateFts since)) (\<lambda>_. ret VNil))))"

section \<open>The local peer\<close>

definition cs_AddPost :: "libs \<Rightarrow> bytes \<Rightarrow> post \<Rightarrow> bool \<Rightarrow> (cserver, command_result) proc" where
  "cs_AddPost L extra p index =
     outcome (at_lp
       (bind (lp_AddPost L extra p False) (\<lambda>i.
        bind (if index then ignore (on_db (GenerateFts (i - 1))) else ret ()) (\<lambda>_. ret (VInt i)))))"

definition cs_SelfIndex :: "int \<Rightarrow> (cserver, command_result) proc" where
  "cs_SelfIndex since = outcome (at_lp (bind (on_db (GenerateFts since)) (\<lambda>_. ret VNil)))"

text \<open>\<open>entry.Address.String()\<close> stores the printed address in the entry; for the node's own address that is its own entry.\<close>

definition cs_Resolve :: "libs \<Rightarrow> string \<Rightarrow> (cserver, command_result) proc" where
  "cs_Resolve L a =
     outcome (at_lp
       (bind (lift_res (DecodeAddress a)) (\<lambda>addr.
        bind (Resolve L addr) (\<lambda>entry.
          let e = entry\<lparr>Address := snd (Address_String (Address entry))\<rparr> in
        bind (modify (\<lambda>s. if Address_Equals addr (lp_Address s) then s\<lparr>lp_Entry := e\<rparr> else s)) (\<lambda>_.
        ret (VEntry e))))))"

text \<open>\<open>strings.Split(address, \":\")\<close>: the host, and the port or the default.\<close>

definition host_port :: "string \<Rightarrow> string" where
  "host_port a =
     (let host = takeWhile (\<lambda>c. c \<noteq> CHR '':'') a;
          rest = dropWhile (\<lambda>c. c \<noteq> CHR '':'') a
      in host @ '':'' @ (if rest = [] then ''5050'' else takeWhile (\<lambda>c. c \<noteq> CHR '':'') (tl rest)))"

definition cs_Bootstrap :: "libs \<Rightarrow> string \<Rightarrow> (cserver, command_result) proc" where
  "cs_Bootstrap L a =
     outcome (at_lp
       (bind (PM_ConnectPeerDirect L (host_port a)) (\<lambda>p.
        bind (Peer_Bootstrap L p) (\<lambda>_. ret VNil))))"

definition cs_SelfSuggest :: "libs \<Rightarrow> (string \<Rightarrow> string) \<Rightarrow> string \<Rightarrow> (cserver, command_result) proc" where
  "cs_SelfSuggest L beyond query =
     outcome (at_lp (bind (on_db (sp_Suggest (PQ L) beyond query)) (\<lambda>cs. ret (VStrings cs))))"

definition cs_SelfSearch :: "libs \<Rightarrow> string \<Rightarrow> int \<Rightarrow> (cserver, command_result) proc" where
  "cs_SelfSearch L query page =
     outcome (at_lp
       (bind (gets (\<lambda>s. Address_StringOr (lp_Address s) [])) (\<lambda>me.
        bind (on_db (sp_Search (PQ L) me query page)) (\<lambda>r.
        ret (VSearch (map Some (SR_Posts r)) (SR_Source r))))))"

definition cs_SelfRecent :: "int \<Rightarrow> (cserver, command_result) proc" where
  "cs_SelfRecent page = outcome (at_lp (bind (on_db (QueryRecent page)) (\<lambda>ps. ret (VPosts (map Some ps)))))"

definition cs_SelfPopular :: "int \<Rightarrow> (cserver, command_result) proc" where
  "cs_SelfPopular page = outcome (at_lp (bind (on_db (QueryPopular page)) (\<lambda>ps. ret (VPosts (map Some ps)))))"

definition cs_AddMeta :: "libs \<Rightarrow> int \<Rightarrow> string \<Rightarrow> (cserver, command_result) proc" where
  "cs_AddMeta L pid value = outcome (at_lp (bind (on_db (AddMeta (PQ L) pid value)) (\<lambda>_. ret VNil)))"

definition SaveCollection :: "(cserver, command_result) proc" where
  "SaveCollection =
     at_lp (bind the_collection (\<lambda>c.
            bind (ignore (on_files (Collection_Save ''./data/collection.dat'' c))) (\<lambda>_. ret (cmd_ok VNil))))"

text \<open>On an error the collection becomes nil.\<close>

definition RebuildCollection :: "libs \<Rightarrow> bytes list \<Rightarrow> (cserver, command_result) proc" where
  "RebuildCollection L ex =
     outcome (at_lp
       (bind (attempt (on_db (CreateCollection (CR L) ex PieceSize))) (\<lambda>r.
        bind (modify (\<lambda>s. s\<lparr>lp_Collection := (case r of Inl _ \<Rightarrow> None | Inr c \<Rightarrow> Some c)\<rparr>)) (\<lambda>_.
          case r of Inl err \<Rightarrow> fail err | Inr _ \<Rightarrow> ret VNil))))"

text \<open>The peers in the iteration order of the map, given by \<open>order\<close>.\<close>

definition cs_Peers :: "libs \<Rightarrow> ((string \<times> nat) list \<Rightarrow> (string \<times> nat) list) \<Rightarrow> (cserver, command_result) proc" where
  "cs_Peers L order =
     outcome (at_lp
       (bind (gets lp_Entry) (\<lambda>own.
        bind (gets (\<lambda>s. order (PM_Peers s))) (\<lambda>ps.
        bind (mapM (\<lambda>(_, p). Peer_Entry L p) ps) (\<lambda>es. ret (VEntries (own # es)))))))"

text \<open>The first three errors are returned with the status of a success.\<close>

definition cs_RequestAddPeer :: "libs \<Rightarrow> string \<Rightarrow> (cserver, command_result) proc" where
  "cs_RequestAddPeer L peer =
     at_lp
       (bind (attempt
          (bind (lift_res (DecodeAddress peer)) (\<lambda>addr.
           bind (PM_ConnectPeer L addr) (\<lambda>(p, _).
           bind (QueryEntry L addr) (\<lambda>entry. ret (p, entry)))))) (\<lambda>r.
          case r of
            Inl err \<Rightarrow> ret \<lparr>IsOK = True, Result = VNil, Error = Some err\<rparr>
          | Inr (p, entry) \<Rightarrow>
              bind (attempt (Peer_RequestAddPeer L p entry)) (\<lambda>q.
                ret (case q of Inl e \<Rightarrow> cmd_err e | Inr _ \<Rightarrow> cmd_ok VNil))))"

definition ToLower :: "string \<Rightarrow> string" where
  "ToLower = map (\<lambda>c. let n = of_char c :: nat in if 65 \<le> n \<and> n \<le> 90 then char_of (n + 32) else c)"

definition LocalSet :: "libs \<Rightarrow> string \<Rightarrow> string \<Rightarrow> (cserver, command_result) proc" where
  "LocalSet L key value =
     outcome (at_lp
       (bind (if ToLower key = ''name'' then modify (\<lambda>s. s\<lparr>lp_Entry := (lp_Entry s)\<lparr>Name := value\<rparr>\<rparr>)
              else if ToLower key = ''desc'' then modify (\<lambda>s. s\<lparr>lp_Entry := (lp_Entry s)\<lparr>Desc := value\<rparr>\<rparr>)
              else if ToLower key = ''public'' then modify (\<lambda>s. s\<lparr>lp_Entry := (lp_Entry s)\<lparr>PublicAddress := value\<rparr>\<rparr>)
              else fail (ErrNew ''Unknown key'')) (\<lambda>_.
        bind (SignEntry (CR L)) (\<lambda>_.
        bind (SaveEntry L) (\<lambda>_. ret VNil)))))"

definition LocalGet :: "libs \<Rightarrow> string \<Rightarrow> (cserver, command_result) proc" where
  "LocalGet L key =
     outcome (at_lp
       (bind (gets lp_Entry) (\<lambda>e.
          if ToLower key = ''name'' then ret (VStr (Name e))
          else if ToLower key = ''desc'' then ret (VStr (Desc e))
          else if ToLower key = ''public'' then ret (VStr (PublicAddress e))
          else if ToLower key = ''zif'' then
            bind (modify (\<lambda>s. s\<lparr>lp_Entry := e\<lparr>Address := snd (Address_String (Address e))\<rparr>\<rparr>)) (\<lambda>_.
            ret (VStr (Address_StringOr (Address e) [])))
          else if ToLower key = ''postcount'' then ret (VStr (Itoa (PostCount e)))
          else if ToLower key = ''entry'' then ret (VStr (json_enc L e))
          else fail (ErrNew ''Unknown key''))))"

definition cs_Explore :: "libs \<Rightarrow> nat list \<Rightarrow> (cserver, command_result) proc" where
  "cs_Explore L js = outcome (at_lp (bind (StartExploring L js) (\<lambda>_. ret VNil)))"

definition AddressEncode :: "bytes \<Rightarrow> (cserver, command_result) proc" where
  "AddressEncode raw =
     outcome (bind (lift_res (fst (Address_String (peer_address raw)))) (\<lambda>decoded. ret (VStr decoded)))"

text \<open>Profiles. \<open>started\<close> is the outcome of starting the profiler, \<open>dump\<close> what writing the heap profile puts in the file.\<close>

definition os_Create :: "string \<Rightarrow> (fs, unit) proc" where
  "os_Create path = WriteFile path []"

definition StartCpuProfile :: "unit res \<Rightarrow> string \<Rightarrow> (cserver, command_result) proc" where
  "StartCpuProfile started path =
     outcome (bind (at_lp (on_files (os_Create path))) (\<lambda>_. bind (lift_res started) (\<lambda>_. ret VNil)))"

definition StopCpuProfile :: "(cserver, command_result) proc" where
  "StopCpuProfile = ret (cmd_ok VNil)"

definition cs_MemProfile :: "bytes res \<Rightarrow> string \<Rightarrow> (cserver, command_result) proc" where
  "cs_MemProfile dump path =
     outcome (at_lp (on_files
       (bind (os_Create path) (\<lambda>_.
        bind (lift_res dump) (\<lambda>d.
        bind (modify (\<lambda>s. s\<lparr>files := (files s)(path \<mapsto> d)\<rparr>)) (\<lambda>_. ret VNil))))))"

definition SetSeedLeech :: "uint64 \<Rightarrow> uint64 \<Rightarrow> uint64 \<Rightarrow> (cserver, command_result) proc" where
  "SetSeedLeech i seeders leechers =
     outcome (at_lp
       (bind (on_db (SetLeechers i leechers)) (\<lambda>_.
        bind (on_db (SetSeeders i seeders)) (\<lambda>_. ret VNil))))"

text \<open>The error of \<open>QueryEntry\<close> is not looked at, and the nil entry it comes with is dereferenced. \<open>depth\<close> bounds the recursion.\<close>

definition cs_NetMap :: "libs \<Rightarrow> nat \<Rightarrow> string \<Rightarrow> (cserver, command_result) proc" where
  "cs_NetMap L depth a =
     outcome (at_lp
       (bind (lift_res (DecodeAddress a)) (\<lambda>addr.
        bind (attempt (QueryEntry L addr)) (\<lambda>r.
          case r of
            Inl err \<Rightarrow> panic
          | Inr entry \<Rightarrow> (\<lambda>s.
              case CreateNetMap depth (SQ L) entry \<lparr>nm_db = ndb s, currentNodes = [], currentLinks = []\<rparr> of
                (Ok (Some (nodes, links)), t) \<Rightarrow> (Ok (VMap nodes links), s\<lparr>ndb := nm_db t\<rparr>)
              | (Ok None, t) \<Rightarrow> (Panic, s\<lparr>ndb := nm_db t\<rparr>)
              | (Err e, t) \<Rightarrow> (Err e, s\<lparr>ndb := nm_db t\<rparr>)
              | (Panic, t) \<Rightarrow> (Panic, s\<lparr>ndb := nm_db t\<rparr>))))))"

end
