(* ===== verification/Http_Server.thy ===== *)
theory Http_Server
  imports Commands
begin

text \<open>
  The HTTP interface of a node, \<^verbatim>\<open>httpserver.go\<close>: each handler takes the variables of the route and the form
  values from the request, converts numbers and runs one command. Missing values are empty strings.
  The outcomes of decoding JSON and base64 are arguments; the text of a failed number conversion
  is abbreviated. \<open>ListenHttp\<close> is the server: the table of routes and the choice of the handler for a request.
\<close>

record request =
  route_vars :: "string \<Rightarrow> string"
  form :: "string \<Rightarrow> string"

record response =
  status :: nat
  body :: reply

text \<open>What is written to the client: a response of a command, the text of the index page, or an answer of the router.\<close>

datatype http_reply = Json response | Plain nat string | Unrouted | Moved

definition write_http_response :: "command_result \<Rightarrow> response" where
  "write_http_response cr = \<lparr>status = (if IsOK cr then 200 else 500), body = WriteJSON cr\<rparr>"

definition respond :: "(cserver, command_result) proc \<Rightarrow> (cserver, response) proc" where
  "respond m = bind m (\<lambda>cr. ret (write_http_response cr))"

text \<open>\<open>strconv.Atoi\<close> with the early return on an error.\<close>

definition with_int :: "string \<Rightarrow> (int \<Rightarrow> (cserver, response) proc) \<Rightarrow> (cserver, response) proc" where
  "with_int t f =
     (case Atoi t of
        None \<Rightarrow> ret (write_http_response (cmd_err (ErrNew ''strconv.Atoi'')))
      | Some i \<Rightarrow> f i)"

section \<open>Peers\<close>

definition hs_Ping :: "libs \<Rightarrow> request \<Rightarrow> (cserver, response) proc" where
  "hs_Ping L r = respond (cs_Ping L (route_vars r ''address''))"

definition hs_Announce :: "libs \<Rightarrow> request \<Rightarrow> (cserver, response) proc" where
  "hs_Announce L r = respond (cs_Announce L (route_vars r ''address''))"

definition hs_PeerRSearch :: "libs \<Rightarrow> request \<Rightarrow> (cserver, response) proc" where
  "hs_PeerRSearch L r =
     with_int (form r ''page'') (\<lambda>pagei. respond (cs_RSearch L (route_vars r ''address'') (form r ''query'') pagei))"

definition hs_PeerSearch :: "libs \<Rightarrow> request \<Rightarrow> (cserver, response) proc" where
  "hs_PeerSearch L r =
     with_int (form r ''page'') (\<lambda>pagei. respond (cs_PeerSearch L (route_vars r ''address'') (form r ''query'') pagei))"

definition hs_Recent :: "libs \<Rightarrow> request \<Rightarrow> (cserver, response) proc" where
  "hs_Recent L r =
     with_int (route_vars r ''page'') (\<lambda>pagei. respond (cs_PeerRecent L (route_vars r ''address'') pagei))"

definition hs_Popular :: "libs \<Rightarrow> request \<Rightarrow> (cserver, response) proc" where
  "hs_Popular L r =
     with_int (route_vars r ''page'') (\<lambda>pagei. respond (cs_PeerPopular L (route_vars r ''address'') pagei))"

definition hs_Mirror :: "libs \<Rightarrow> nat list \<Rightarrow> request \<Rightarrow> (cserver, response) proc" where
  "hs_Mirror L js r = respond (cs_Mirror L js (route_vars r ''address''))"

definition hs_MirrorProgress :: "request \<Rightarrow> (cserver, response) proc" where
  "hs_MirrorProgress r = respond (GetMirrorProgress (route_vars r ''address''))"

definition hs_PeerFtsIndex :: "request \<Rightarrow> (cserver, response) proc" where
  "hs_PeerFtsIndex r =
     with_int (route_vars r ''since'') (\<lambda>sincei. respond (cs_PeerIndex (route_vars r ''address'') sincei))"

section \<open>The local peer\<close>

text \<open>\<open>post\<close> is the outcome of decoding the form value \<open>data\<close>.\<close>

definition hs_AddPost :: "libs \<Rightarrow> bytes \<Rightarrow> post res \<Rightarrow> request \<Rightarrow> (cserver, response) proc" where
  "hs_AddPost L extra post r =
     (let index = (form r ''index'' = ''true'') in
      case post of
        Ok p \<Rightarrow> respond (cs_AddPost L extra p index)
      | Err e \<Rightarrow> ret (write_http_response (cmd_err e))
      | Panic \<Rightarrow> panic)"

definition hs_FtsIndex :: "request \<Rightarrow> (cserver, response) proc" where
  "hs_FtsIndex r = with_int (route_vars r ''since'') (\<lambda>since. respond (cs_SelfIndex since))"

definition hs_Resolve :: "libs \<Rightarrow> request \<Rightarrow> (cserver, response) proc" where
  "hs_Resolve L r = respond (cs_Resolve L (route_vars r ''address''))"

definition hs_Bootstrap :: "libs \<Rightarrow> request \<Rightarrow> (cserver, response) proc" where
  "hs_Bootstrap L r = respond (cs_Bootstrap L (route_vars r ''address''))"

definition hs_SelfSearch :: "libs \<Rightarrow> request \<Rightarrow> (cserver, response) proc" where
  "hs_SelfSearch L r =
     with_int (form r ''page'') (\<lambda>pagei. respond (cs_SelfSearch L (form r ''query'') pagei))"

definition hs_SelfSuggest :: "libs \<Rightarrow> (string \<Rightarrow> string) \<Rightarrow> request \<Rightarrow> (cserver, response) proc" where
  "hs_SelfSuggest L beyond r = respond (cs_SelfSuggest L beyond (form r ''query''))"

definition hs_SelfRecent :: "request \<Rightarrow> (cserver, response) proc" where
  "hs_SelfRecent r = with_int (route_vars r ''page'') (\<lambda>page. respond (cs_SelfRecent page))"

definition hs_SelfPopular :: "request \<Rightarrow> (cserver, response) proc" where
  "hs_SelfPopular r = with_int (route_vars r ''page'') (\<lambda>page. respond (cs_SelfPopular page))"

definition hs_AddMeta :: "libs \<Rightarrow> request \<Rightarrow> (cserver, response) proc" where
  "hs_AddMeta L r =
     with_int (route_vars r ''pid'') (\<lambda>pid. respond (cs_AddMeta L pid (form r ''meta'')))"

definition hs_SaveCollection :: "request \<Rightarrow> (cserver, response) proc" where
  "hs_SaveCollection r = respond SaveCollection"

definition hs_RebuildCollection :: "libs \<Rightarrow> bytes list \<Rightarrow> request \<Rightarrow> (cserver, response) proc" where
  "hs_RebuildCollection L ex r = respond (RebuildCollection L ex)"

definition hs_Peers :: "libs \<Rightarrow> ((string \<times> nat) list \<Rightarrow> (string \<times> nat) list) \<Rightarrow> request \<Rightarrow> (cserver, response) proc" where
  "hs_Peers L order r = respond (cs_Peers L order)"

text \<open>The remote peer of the route is passed on, but the command does not use it.\<close>

definition hs_RequestAddPeer :: "libs \<Rightarrow> request \<Rightarrow> (cserver, response) proc" where
  "hs_RequestAddPeer L r = respond (cs_RequestAddPeer L (route_vars r ''peer''))"

definition hs_SelfSet :: "libs \<Rightarrow> request \<Rightarrow> (cserver, response) proc" where
  "hs_SelfSet L r = respond (LocalSet L (route_vars r ''key'') (form r ''value''))"

definition hs_SelfGet :: "libs \<Rightarrow> request \<Rightarrow> (cserver, response) proc" where
  "hs_SelfGet L r = respond (LocalGet L (route_vars r ''key''))"

definition hs_SelfExplore :: "libs \<Rightarrow> nat list \<Rightarrow> request \<Rightarrow> (cserver, response) proc" where
  "hs_SelfExplore L js r = respond (cs_Explore L js)"

text \<open>\<open>decoded\<close> is the outcome of decoding the form value \<open>raw\<close>.\<close>

definition hs_AddressEncode :: "bytes res \<Rightarrow> request \<Rightarrow> (cserver, response) proc" where
  "hs_AddressEncode decoded r =
     (case decoded of
        Ok raw \<Rightarrow> respond (AddressEncode raw)
      | Err e \<Rightarrow> ret (write_http_response (cmd_err e))
      | Panic \<Rightarrow> panic)"

text \<open>Any other value of \<open>do\<close> leaves the result at its zero value, a failure without an error.\<close>

definition hs_CpuProfile :: "unit res \<Rightarrow> request \<Rightarrow> (cserver, response) proc" where
  "hs_CpuProfile started r =
     respond (if form r ''do'' = ''start'' then StartCpuProfile started (form r ''path'')
              else if form r ''do'' = ''stop'' then StopCpuProfile
              else ret \<lparr>IsOK = False, Result = VNil, Error = None\<rparr>)"

definition hs_MemProfile :: "bytes res \<Rightarrow> request \<Rightarrow> (cserver, response) proc" where
  "hs_MemProfile dump r = respond (cs_MemProfile dump (form r ''path''))"

definition hs_SetSeedLeech :: "request \<Rightarrow> (cserver, response) proc" where
  "hs_SetSeedLeech r =
     with_int (form r ''id'') (\<lambda>id_s.
     with_int (form r ''seed'') (\<lambda>seed_s.
     with_int (form r ''leech'') (\<lambda>leech_s.
     respond (SetSeedLeech (word_of_int id_s) (word_of_int seed_s) (word_of_int leech_s)))))"

definition hs_SearchEntry :: "libs \<Rightarrow> request \<Rightarrow> (cserver, response) proc" where
  "hs_SearchEntry L r =
     with_int (form r ''page'') (\<lambda>pagei. respond (cs_EntrySearch L (form r ''name'') (form r ''desc'') pagei))"

definition hs_NetMap :: "libs \<Rightarrow> nat \<Rightarrow> request \<Rightarrow> (cserver, response) proc" where
  "hs_NetMap L depth r =
     bind (gets (\<lambda>s. Address_StringOr (Address (lp_Entry (cs_node s))) [])) (\<lambda>a. respond (cs_NetMap L depth a))"

definition IndexHandler :: "request \<Rightarrow> (cserver, http_reply) proc" where
  "IndexHandler r = ret (Plain 200 ''Zif'')"

section \<open>Routing\<close>

text \<open>
  What the handlers take from outside the request: outcomes of decoding, choices of the runtime and of the
  random source, and the bound on the recursion of the network map.
\<close>

record http_inputs =
  hi_draws :: "nat list"
  hi_spare :: bytes
  hi_spares :: "bytes list"
  hi_post :: "post res"
  hi_words :: "string \<Rightarrow> string"
  hi_order :: "(string \<times> nat) list \<Rightarrow> (string \<times> nat) list"
  hi_raw :: "bytes res"
  hi_started :: "unit res"
  hi_dump :: "bytes res"
  hi_depth :: nat

definition json :: "(request \<Rightarrow> (cserver, response) proc) \<Rightarrow> request \<Rightarrow> (cserver, http_reply) proc" where
  "json h r = bind (h r) (\<lambda>x. ret (Json x))"

text \<open>The routes in the order they are registered; the flag marks those restricted to the method \<open>POST\<close>.\<close>

definition routes :: "libs \<Rightarrow> http_inputs \<Rightarrow> (string \<times> bool \<times> (request \<Rightarrow> (cserver, http_reply) proc)) list" where
  "routes L i = [
     (''/'', False, IndexHandler),
     (''/peer/{address}/ping/'', False, json (hs_Ping L)),
     (''/peer/{address}/announce/'', False, json (hs_Announce L)),
     (''/peer/{address}/rsearch/'', True, json (hs_PeerRSearch L)),
     (''/peer/{address}/search/'', True, json (hs_PeerSearch L)),
     (''/peer/{address}/recent/{page}/'', False, json (hs_Recent L)),
     (''/peer/{address}/popular/{page}/'', False, json (hs_Popular L)),
     (''/peer/{address}/mirror/'', False, json (hs_Mirror L (hi_draws i))),
     (''/peer/{address}/mirrorprogress/'', False, json hs_MirrorProgress),
     (''/peer/{address}/index/{since}/'', False, json hs_PeerFtsIndex),
     (''/self/addpost/'', True, json (hs_AddPost L (hi_spare i) (hi_post i))),
     (''/self/index/{since}/'', False, json hs_FtsIndex),
     (''/self/resolve/{address}/'', False, json (hs_Resolve L)),
     (''/self/bootstrap/{address}/'', False, json (hs_Bootstrap L)),
     (''/self/search/'', True, json (hs_SelfSearch L)),
     (''/self/suggest/'', True, json (hs_SelfSuggest L (hi_words i))),
     (''/self/recent/{page}/'', False, json hs_SelfRecent),
     (''/self/popular/{page}/'', False, json hs_SelfPopular),
     (''/self/addmeta/{pid}/'', True, json (hs_AddMeta L)),
     (''/self/savecollection/'', False, json hs_SaveCollection),
     (''/self/rebuildcollection/'', False, json (hs_RebuildCollection L (hi_spares i))),
     (''/self/peers/'', False, json (hs_Peers L (hi_order i))),
     (''/self/requestaddpeer/{remote}/{peer}/'', False, json (hs_RequestAddPeer L)),
     (''/self/set/{key}/'', True, json (hs_SelfSet L)),
     (''/self/get/{key}/'', False, json (hs_SelfGet L)),
     (''/self/explore/'', False, json (hs_SelfExplore L (hi_draws i))),
     (''/self/encode/'', True, json (hs_AddressEncode (hi_raw i))),
     (''/self/searchentry/'', True, json (hs_SearchEntry L)),
     (''/self/profile/cpu/'', True, json (hs_CpuProfile (hi_started i))),
     (''/self/profile/mem/'', True, json (hs_MemProfile (hi_dump i))),
     (''/self/seedleech/'', True, json hs_SetSeedLeech),
     (''/self/map/'', False, json (hs_NetMap L (hi_depth i)))]"

text \<open>
  The router takes the first route that matches path and method. How a template matches a path is the router
  package's: \<open>mx template path\<close> gives the variables, or says that the path has to be corrected first (cleaned, or
  completed by its final slash), which is answered with a redirect, or does not match.
\<close>

datatype mux_match = No_match | Redirected | Vars "string \<Rightarrow> string"

primrec dispatch :: "(string \<Rightarrow> string \<Rightarrow> mux_match) \<Rightarrow> string \<Rightarrow> string \<Rightarrow> (string \<Rightarrow> string) \<Rightarrow>
    (string \<times> bool \<times> (request \<Rightarrow> (cserver, http_reply) proc)) list \<Rightarrow> (cserver, http_reply) proc" where
  "dispatch mx meth path fm [] = ret Unrouted"
| "dispatch mx meth path fm (x # xs) =
     (case x of (template, post_only, h) \<Rightarrow>
        if post_only \<and> meth \<noteq> ''POST'' then dispatch mx meth path fm xs
        else case mx template path of
               No_match \<Rightarrow> dispatch mx meth path fm xs
             | Redirected \<Rightarrow> ret Moved
             | Vars vs \<Rightarrow> h \<lparr>route_vars = vs, form = fm\<rparr>)"

definition ListenHttp :: "libs \<Rightarrow> http_inputs \<Rightarrow> (string \<Rightarrow> string \<Rightarrow> mux_match) \<Rightarrow> string \<Rightarrow> string \<Rightarrow> (string \<Rightarrow> string) \<Rightarrow>
    (cserver, http_reply) proc" where
  "ListenHttp L i mx meth path fm = dispatch mx meth path fm (routes L i)"

text \<open>Whatever is true of every registered handler and of the answers of the router is true of the server.\<close>

lemma dispatch_all:
  assumes "\<And>t p h r. (t, p, h) \<in> set rs \<Longrightarrow> Q (h r)" "Q (ret Unrouted)" "Q (ret Moved)"
  shows "Q (dispatch mx meth path fm rs)"
  using assms(1)
proof (induction rs)
  case (Cons x rs)
  obtain t p h where x: "x = (t, p, h)" by (cases x) auto
  have "Q (dispatch mx meth path fm rs)" by (rule Cons.IH) (use Cons.prems in auto)
  moreover have "Q (h r)" for r by (rule Cons.prems [of t p]) (simp add: x)
  ultimately show ?case using assms(3) by (simp add: x split: mux_match.splits)
qed (simp add: assms(2))

lemma templates_distinct: "distinct (map fst (routes L i))"
  unfolding routes_def by simp

end
