(* ===== verification/Node_Inv.thy ===== *)
theory Node_Inv
  imports Post_Props NetDB_Props Http_Server
begin

text \<open>
  An invariant of the whole node that every operation keeps, whatever the network sends and whichever
  calls fail: the network database and every post database satisfy theirs, and no map has a key twice.
\<close>

section \<open>Invariant\<close>

definition node_inv :: "libs \<Rightarrow> node \<Rightarrow> bool" where
  "node_inv L s \<longleftrightarrow>
     ndb_inv (ndb s) \<and> (\<forall>path. pinv (PQ L) (stores s path)) \<and>
     distinct (map fst (peers s)) \<and> distinct (map fst (peerSeen s)) \<and>
     distinct (map fst (publicToZif s)) \<and> distinct (map fst (seedManagers s)) \<and> distinct (map fst (Databases s))"

lemma node_inv_frame [simp]:
  "node_inv L (s\<lparr>lpeer := a\<rparr>) = node_inv L s" "node_inv L (s\<lparr>privateKey := b\<rparr>) = node_inv L s"
  "node_inv L (s\<lparr>lp_Entry := c\<rparr>) = node_inv L s" "node_inv L (s\<lparr>lp_Collection := d\<rparr>) = node_inv L s"
  "node_inv L (s\<lparr>peer_heap := e\<rparr>) = node_inv L s" "node_inv L (s\<lparr>lp_files := f\<rparr>) = node_inv L s"
  "node_inv L (s\<lparr>Collections := cs\<rparr>) = node_inv L s" "node_inv L (s\<lparr>socks := so\<rparr>) = node_inv L s"
  "node_inv L (s\<lparr>socksPort := sp\<rparr>) = node_inv L s" "node_inv L (s\<lparr>lp_Database := db\<rparr>) = node_inv L s"
  "node_inv L (s\<lparr>world := w\<rparr>) = node_inv L s" "node_inv L (upd_peer p g s) = node_inv L s"
  by (simp_all add: node_inv_def upd_peer_def)

lemma node_inv_maps:
  assumes "node_inv L s"
  shows "node_inv L (s\<lparr>peers := AList.update k1 v1 (peers s)\<rparr>)"
    "node_inv L (s\<lparr>peerSeen := AList.update k2 v2 (peerSeen s)\<rparr>)"
    "node_inv L (s\<lparr>publicToZif := AList.update k3 v3 (publicToZif s)\<rparr>)"
    "node_inv L (s\<lparr>seedManagers := AList.update k4 v4 (seedManagers s)\<rparr>)"
    "node_inv L (s\<lparr>Databases := AList.update k5 v5 (Databases s)\<rparr>)"
    "node_inv L (s\<lparr>peers := AList.delete k6 (peers s), peerSeen := AList.delete k7 (peerSeen s)\<rparr>)"
  using assms by (simp_all add: node_inv_def distinct_update distinct_delete)

lemma on_dht_inv [proc_intros]: "preserves ndb_inv m \<Longrightarrow> preserves (node_inv L) (on_dht m)"
  by (rule preserves_zoom [where J = ndb_inv]) (auto simp: node_inv_def)

lemma on_files_inv [proc_intros]: "preserves (node_inv L) (on_files m)"
  by (auto simp: preserves_def zoom_def split: prod.splits)

lemma on_world_inv [proc_intros]: "preserves (node_inv L) (on_world m)"
  by (auto simp: preserves_def zoom_def split: prod.splits)

lemma on_store_inv [proc_intros]: "preserves (pinv (PQ L)) m \<Longrightarrow> preserves (node_inv L) (on_store path m)"
  by (auto simp: preserves_def on_store_def node_inv_def split: prod.splits) (metis snd_conv)

lemma on_db_inv [proc_intros]: "preserves (pinv (PQ L)) m \<Longrightarrow> preserves (node_inv L) (on_db m)"
  unfolding on_db_def by (intro proc_intros)

lemma modify_entry_inv [proc_intros]: "preserves (node_inv L) (modify (\<lambda>s. s\<lparr>lp_Entry := f s\<rparr>))"
  "preserves (node_inv L) (modify (upd_peer p g))"
  by (simp_all add: preserves_def modify_def)

lemma SignEntry_inv [proc_intros]: "preserves (node_inv L) (SignEntry C)"
  unfolding SignEntry_def by (intro proc_intros)

section \<open>Peers\<close>

lemma Peer_basic_inv [proc_intros]:
  "preserves (node_inv L) (UpdateSeen p)" "preserves (node_inv L) (Peer_Ping p)"
  "preserves (node_inv L) (Peer_Terminate p)" "preserves (node_inv L) (Peer_AddStream p i)"
  unfolding UpdateSeen_def Peer_Ping_def Peer_Terminate_def Peer_AddStream_def
  by (intro proc_intros; simp add: node_inv_maps)+

lemma Peer_OpenStream_inv [proc_intros]: "preserves (node_inv L) (Peer_OpenStream p)"
  unfolding Peer_OpenStream_def by (intro proc_intros)

lemma with_stream_inv [proc_intros]: "preserves (node_inv L) (with_stream p g)"
  unfolding with_stream_def by (intro preserves_bind Peer_OpenStream_inv preservesI) (simp split: prod.splits)

lemma Peer_requests_inv [proc_intros]:
  "preserves (node_inv L) (Peer_Announce L p)" "preserves (node_inv L) (Peer_Query L p a)"
  "preserves (node_inv L) (Peer_FindClosest L p a)" "preserves (node_inv L) (Peer_Recent L p n)"
  "preserves (node_inv L) (Peer_Popular L p n)" "preserves (node_inv L) (Peer_Search L p t n)"
  unfolding Peer_Announce_def Peer_Query_def Peer_FindClosest_def Peer_Recent_def Peer_Popular_def Peer_Search_def
  by (intro proc_intros)+

lemma Peer_GetEntry_inv [proc_intros]: "preserves (node_inv L) (Peer_GetEntry L p)"
  unfolding Peer_GetEntry_def by (intro proc_intros)

lemma Peer_Entry_inv [proc_intros]: "preserves (node_inv L) (Peer_Entry L p)"
  unfolding Peer_Entry_def by (intro proc_intros)

lemma zoom_peer_inv [proc_intros]:
  "preserves (node_inv L) (zoom (\<lambda>s. p_streams (the_peer p s)) (\<lambda>f. upd_peer p (\<lambda>pr. pr\<lparr>p_streams := f (p_streams pr)\<rparr>)) m)"
  by (auto simp: preserves_def zoom_def split: prod.splits)

lemma DHT_ops_inv [proc_intros]:
  "preserves ndb_inv (DHT_Insert C q e)" "preserves ndb_inv (DHT_Query q a)" "preserves ndb_inv (DHT_FindClosest q a)"
  "preserves ndb_inv (DHT_SearchEntries q n d p)"
  unfolding DHT_Insert_def DHT_Query_def DHT_FindClosest_def DHT_SearchEntries_def by (intro proc_intros)+

lemma Peer_connect_inv [proc_intros]:
  "preserves (node_inv L) (Peer_Connect L p a)" "preserves (node_inv L) (Peer_ConnectServer p)"
  "preserves (node_inv L) (Peer_ConnectClient p)" "preserves (node_inv L) (Peer_SetTCP p h)"
  unfolding Peer_Connect_def Peer_ConnectServer_def Peer_ConnectClient_def Peer_SetTCP_def by (intro proc_intros)+

lemma bootstrap_loop_inv [proc_intros]: "preserves ndb_inv (bootstrap_loop C q a es)"
  by (induction C q a es rule: bootstrap_loop.induct) (auto intro!: proc_intros)

lemma Peer_Bootstrap_inv [proc_intros]: "preserves (node_inv L) (Peer_Bootstrap L p)"
  unfolding Peer_Bootstrap_def
proof (intro proc_intros preservesI)
  fix c s assume s: "node_inv L s"
  let ?a = "DHT_Address (ndb s)"
  have b: "preserves (\<lambda>x. ndb_inv (snd x)) (Client_Bootstrap (CR L) (SQ L) (MP L) ?a)"
    unfolding Client_Bootstrap_def
    by (intro proc_intros preserves_zoom [where J = "\<lambda>_. True"] preserves_zoom [where J = ndb_inv])
      (simp_all add: preserves_def bootstrap_loop_inv [unfolded preserves_def])
  obtain r c' d where r: "Client_Bootstrap (CR L) (SQ L) (MP L) ?a (c, ndb s) = (r, c', d)" by (metis prod_cases3)
  with preservesD [OF b _ r] s have "ndb_inv d" by (simp add: node_inv_def)
  with s r show "node_inv L (snd (case Client_Bootstrap (CR L) (SQ L) (MP L) ?a (c, ndb s) of
         (r, c', d) \<Rightarrow>
           (r, s\<lparr>ndb := d, world := (world s)\<lparr>stream_log := stream_log (world s) @ [snd (Client_Close c')]\<rparr>\<rparr>)))"
    by (simp add: node_inv_def)
qed

section \<open>Manager\<close>

lemma DHT_Insert_node_inv [proc_intros]: "preserves (node_inv L) (AddEntry L' e)"
  unfolding AddEntry_def by (intro proc_intros)

lemma SaveEntry_inv [proc_intros]: "preserves (node_inv L) (SaveEntry L')"
  unfolding SaveEntry_def by (intro proc_intros)

lemma QueryEntry_inv [proc_intros]: "preserves (node_inv L) (QueryEntry L' a)" "preserves (node_inv L) (LoadEntry L')"
  unfolding QueryEntry_def LoadEntry_def by (intro proc_intros; simp)+

lemma AddSeeding_inv [proc_intros]: "preserves (node_inv L) (AddSeeding L' e)"
  unfolding AddSeeding_def by (intro proc_intros)

lemma HandleClose_inv [proc_intros]: "preserves (node_inv L) (PM_HandleCloseConnection a)"
  unfolding PM_HandleCloseConnection_def
  by (intro proc_intros) (auto simp: node_inv_maps intro!: proc_intros split: bool.splits)

lemma evict_inv [proc_intros]: "preserves (node_inv L) (evict n)"
proof (induction n)
  case (Suc n)
  show ?case unfolding evict.simps by (intro proc_intros Suc)
qed (simp add: proc_intros)

lemma SetPeer_inv [proc_intros]: "preserves (node_inv L) (PM_SetPeer L p)"
  unfolding PM_SetPeer_def by (intro proc_intros; simp add: node_inv_maps)

lemma new_peer_inv [proc_intros]: "preserves (node_inv L) (new_peer x)"
  by (simp add: preserves_def new_peer_def)

lemma ConnectPeerDirect_inv [proc_intros]: "preserves (node_inv L) (PM_ConnectPeerDirect L a)"
  unfolding PM_ConnectPeerDirect_def by (intro proc_intros)

text \<open>The resolution works on the number of steps left and the node.\<close>

lemma at_node_inv [proc_intros]:
  "preserves (node_inv L) m \<Longrightarrow> preserves (\<lambda>s. node_inv L (snd s)) (at_node m)"
  by (rule preserves_zoom [where J = "node_inv L"]) auto

lemma try_closest_inv [proc_intros]: "(\<And>i. preserves I (step i)) \<Longrightarrow> preserves I (try_closest step is)"
  by (induction step "is" rule: try_closest.induct) (auto intro!: proc_intros)

lemma resolveStep_inv [proc_intros]: "preserves (\<lambda>s. node_inv L (snd s)) (resolveStep L n a e)"
proof (induction n arbitrary: e)
  case (Suc n)
  show ?case unfolding resolveStep.simps query_result_def by (intro proc_intros Suc; simp)
qed (simp add: proc_intros)

lemma resolve_loop_inv [proc_intros]: "preserves (\<lambda>s. node_inv L (snd s)) (resolve_loop L a es)"
proof (induction es)
  case (Cons e es)
  show ?case unfolding resolve_loop.simps by (intro proc_intros Cons)
qed (simp add: proc_intros)

lemma resolve_closest_inv [proc_intros]: "preserves (node_inv L) (resolve_closest L a)"
  unfolding resolve_closest_def
proof (rule preserves_bind [OF on_dht_inv [OF DHT_ops_inv(3)] preservesI])
  fix es s assume s: "node_inv L s"
  obtain r d t where r: "resolve_loop L a es (6, s) = (r, d, t)" by (metis prod_cases3)
  from preservesD [OF resolve_loop_inv _ this] s r
  show "node_inv L (snd (case resolve_loop L a es (6, s) of (r, _, s') \<Rightarrow> (r, s')))" by simp
qed

lemma Resolve_inv [proc_intros]: "preserves (node_inv L) (Resolve L a)"
  unfolding Resolve_def by (intro proc_intros)

lemma ConnectPeer_inv [proc_intros]: "preserves (node_inv L) (PM_ConnectPeer L a)" "preserves (node_inv L) (PM_ConnectPeer_entry L a)"
  unfolding PM_ConnectPeer_def PM_ConnectPeer_entry_def by (intro proc_intros)+

lemma rounds_inv [proc_intros]: "preserves (node_inv L) (heartbeat_round p)" "preserves (node_inv L) (announce_round L p)"
  unfolding heartbeat_round_def announce_round_def by (intro proc_intros)+

lemma AddSeedManager_inv [proc_intros]: "preserves (node_inv L) (AddSeedManager L' a)"
  unfolding AddSeedManager_def NewSeedManager_def by (intro proc_intros; simp add: node_inv_maps)

lemma LoadSeeds_inv [proc_intros]: "preserves (node_inv L) (LoadSeeds L')"
proof -
  have "preserves (node_inv L) (load_seeds_loop L' n f)" for n f
    by (induction n arbitrary: f) (auto intro!: proc_intros)
  then show ?thesis unfolding LoadSeeds_def by (intro proc_intros)
qed

lemma Peer_RequestAddPeer_inv [proc_intros]: "preserves (node_inv L) (Peer_RequestAddPeer L p e)"
  unfolding Peer_RequestAddPeer_def by (intro proc_intros)

section \<open>Post databases\<close>

lemma post_queries_inv [proc_intros]:
  "preserves (pinv q) Connect" "preserves (pinv q) (QueryPiecePosts n m)" "preserves (pinv q) (QueryRecent page)"
  "preserves (pinv q) (QueryPopular page)" "preserves (pinv q) (QueryPostId w)" "preserves (pinv q) (QueryPiece w b)"
  "preserves (pinv q) (db_Suggest q' str)"
  unfolding Connect_def QueryPiecePosts_def QueryRecent_def QueryPopular_def PaginatedQuery_def QueryPostId_def QueryPiece_def
    db_Suggest_def by (intro proc_intros | simp add: preserves_def)+

lemma post_search_inv [proc_intros]: "preserves (pinv q) (db_Search q' str page k)"
  unfolding db_Search_def by (intro proc_intros) (simp add: preserves_def)

lemma provider_inv [proc_intros]:
  "preserves (pinv q) (sp_Suggest q' f str)" "preserves (pinv q) (sp_Search q' src str page)"
  unfolding sp_Suggest_def sp_Search_def by (intro proc_intros)+

lemma CreateCollection_inv [proc_intros]: "preserves (pinv q) (CreateCollection C ex k)"
proof -
  have "preserves (pinv q) (create_loop C ex is c)" for "is" c
    by (induction C ex "is" c rule: create_loop.induct) (auto intro!: proc_intros)
  then show ?thesis unfolding CreateCollection_def by (intro proc_intros)
qed

lemma insert_unfinished_inv [proc_intros]:
  assumes q: "text_affinity_ok q"
  shows "preserves (pinv q) (insert_unfinished q ps)"
proof (rule preservesI)
  fix s assume s: "pinv q s"
  obtain r s1 where d: "db_call s = (r, s1)" by fastforce
  from preservesD [OF db_call_inv s d] have s1: "pinv q s1" .
  obtain t s2 where l: "insert_pieces_loop q 0 (map Some ps) s1 s1 = (t, s2)" by fastforce
  from insert_pieces_loop_inv [OF q s1 s1 l] show "pinv q (snd (insert_unfinished q ps s))"
    using d l s1 by (auto simp: insert_unfinished_def split: res.splits tx.splits)
qed

section \<open>Local peer\<close>

lemma keys_inv [proc_intros]:
  "preserves (node_inv L) (setup_key fresh)" "preserves (node_inv L) lp_Close"
  unfolding setup_key_def lp_Close_def ReadKey_def WriteKey_def GenerateKey_def
  by (auto intro!: proc_intros split: res.splits)

lemma walk_inv [proc_intros]: "preserves (node_inv L) (walk_handler path name)"
  unfolding walk_handler_def Let_def by (intro proc_intros; simp add: node_inv_maps)

lemma the_collection_inv [proc_intros]: "preserves I the_collection"
  unfolding the_collection_def by (intro proc_intros)

lemma AddPost_inv [proc_intros]:
  "text_affinity_ok (PQ L) \<Longrightarrow> preserves (node_inv L) (lp_AddPost L ex p b)"
  unfolding lp_AddPost_def Let_def by (intro proc_intros; simp)

lemma seedExplore_inv [proc_intros]: "preserves (node_inv L) (seedExplore L' js)"
  unfolding seedExplore_def Let_def by (auto intro!: proc_intros split: res.splits)

lemma explore_inv [proc_intros]:
  "preserves (node_inv L) (explorePeer L a)" "preserves (node_inv L) (exploreTick L e b js)"
  "preserves (node_inv L) (handle_discovered L' e)" "preserves (node_inv L) (StartExploring L' js)"
proof -
  show e: "preserves (node_inv L) (explorePeer L a)" for a unfolding explorePeer_def by (intro proc_intros)
  show "preserves (node_inv L) (exploreTick L e b js)" unfolding exploreTick_def Let_def by (intro proc_intros e)
  show "preserves (node_inv L) (handle_discovered L' e)" unfolding handle_discovered_def by (intro proc_intros)
  show "preserves (node_inv L) (StartExploring L' js)" unfolding StartExploring_def by (rule seedExplore_inv)
qed

lemma QuerySelf_inv [proc_intros]: "preserves (node_inv L) (QuerySelf_round L draw order)"
  unfolding QuerySelf_round_def Let_def by (intro proc_intros; simp)

lemma start_inv [proc_intros]: "preserves (node_inv L) (zifd_main L cfg js)"
proof -
  have "preserves (node_inv L) (choose_network cfg)" "preserves (node_inv L) (lp_Listen L)"
    unfolding choose_network_def lp_Listen_def NewSeedManager_def use_socks_def SetSocks_def SetSocksPort_def
    by (auto intro!: proc_intros split: option.splits res.splits)
  then show ?thesis unfolding zifd_main_def by (intro proc_intros; simp)
qed

section \<open>Server\<close>

lemma on_node_inv [proc_intros]:
  "preserves (node_inv L) m \<Longrightarrow> preserves (\<lambda>s. node_inv L (fst s)) (on_node m)"
  by (rule preserves_zoom [where J = "node_inv L"]) auto

lemma on_cl_inv [proc_intros]: "preserves (\<lambda>s. node_inv L (fst s)) (on_cl m)"
  by (auto simp: preserves_def zoom_def split: prod.splits)

lemma handlers_inv [proc_intros]:
  "preserves (\<lambda>s. node_inv L (fst s)) (HandleQuery L m)" "preserves (\<lambda>s. node_inv L (fst s)) (HandleFindClosest L m)"
  "preserves (\<lambda>s. node_inv L (fst s)) (HandleAnnounce L m)" "preserves (\<lambda>s. node_inv L (fst s)) (HandleSearch L m)"
  "preserves (\<lambda>s. node_inv L (fst s)) (HandleRecent L m)" "preserves (\<lambda>s. node_inv L (fst s)) (HandlePopular L m)"
  "preserves (\<lambda>s. node_inv L (fst s)) (HandlePiece L m)"
  unfolding HandleQuery_def HandleFindClosest_def HandleAnnounce_def HandleSearch_def HandleRecent_def HandlePopular_def
    HandlePiece_def
  by (intro proc_intros)+

lemma HandleHashList_inv [proc_intros]: "preserves (\<lambda>s. node_inv L (fst s)) (HandleHashList L m)"
  unfolding HandleHashList_def hash_list_of_def by (intro proc_intros)

lemma HandleAddPeer_inv [proc_intros]: "preserves (\<lambda>s. node_inv L (fst s)) (HandleAddPeer L from m)"
  unfolding HandleAddPeer_def by (intro proc_intros; simp)

lemma RouteMessage_inv [proc_intros]: "preserves (\<lambda>s. node_inv L (fst s)) (RouteMessage L from m)"
  unfolding RouteMessage_def by (intro proc_intros)

lemma HandleStream_inv [proc_intros]: "preserves (\<lambda>s. node_inv L (fst s)) (HandleStream L from n)"
proof (induction n)
  case (Suc n)
  show ?case unfolding HandleStream.simps by (intro proc_intros Suc)
qed (simp add: proc_intros)

lemma Server_Handshake_inv [proc_intros]: "preserves (\<lambda>s. node_inv L (fst s)) (Server_Handshake L)"
proof -
  have "preserves (node_inv L) (HandleHandshake L h)" for h
    unfolding HandleHandshake_def by (intro proc_intros)
  then show ?thesis unfolding Server_Handshake_def by (intro proc_intros; simp)
qed

lemma Listen_round_inv [proc_intros]: "preserves (node_inv L) (Listen_round L acc)"
proof -
  have "node_inv L s'" if "Server_Handshake L (s, c) = (r, s', c')" "node_inv L s" for s s' c c' r
    using preservesD [OF Server_Handshake_inv, of L "(s, c)"] that by simp
  then show ?thesis
    by (fastforce simp: Listen_round_def preserves_def ret_def split: res.splits prod.splits if_splits)
qed

lemma ListenStream_inv [proc_intros]: "preserves (node_inv L) (ListenStream_round L p acc)"
proof -
  have serve: "preserves (node_inv L) (\<lambda>s.
      case HandleStream L a n (s, c) of
        (Ok _, s', c') \<Rightarrow> (Ok True, s'\<lparr>world := (world s')\<lparr>stream_log := stream_log (world s') @ [c']\<rparr>\<rparr>)
      | (Err e, s', c') \<Rightarrow> (Err e, s')
      | (Panic, s', c') \<Rightarrow> (Panic, s'))" for a n c
  proof (rule preservesI)
    fix s assume s: "node_inv L s"
    obtain r s' c' where r: "HandleStream L a n (s, c) = (r, s', c')" by (metis prod_cases3)
    from preservesD [OF HandleStream_inv _ r] s have "node_inv L s'" by simp
    with r show "node_inv L (snd (case HandleStream L a n (s, c) of
        (Ok _, s', c') \<Rightarrow> (Ok True, s'\<lparr>world := (world s')\<lparr>stream_log := stream_log (world s') @ [c']\<rparr>\<rparr>)
      | (Err e, s', c') \<Rightarrow> (Err e, s')
      | (Panic, s', c') \<Rightarrow> (Panic, s')))"
      by (auto split: res.splits)
  qed
  have case_res: "preserves I (case r of Ok x \<Rightarrow> f x | Err e \<Rightarrow> g e | Panic \<Rightarrow> h)"
    if "\<And>x. preserves I (f x)" "\<And>e. preserves I (g e)" "preserves I h"
    for I :: "node \<Rightarrow> bool" and r :: "unit res" and f g and h :: "(node, bool) proc"
    using that by (cases r) auto
  show ?thesis
    unfolding ListenStream_round_def
    by (cases acc) (auto simp del: HandleStream.simps intro!: proc_intros case_res serve)
qed

section \<open>Mirrors and seeds\<close>

lemma Peer_Mirror_inv [proc_intros]:
  assumes "text_affinity_ok (PQ L)"
  shows "preserves (node_inv L) (Peer_Mirror L p path)"
proof -
  have "preserves (node_inv L) (mirror_entry L p)"
    unfolding mirror_entry_def by (intro proc_intros)
  moreover have "preserves (node_inv L) (on_world block_forever :: (node, unit) proc)" by (intro proc_intros)
  ultimately show ?thesis using assms unfolding Peer_Mirror_def by (intro proc_intros)
qed

lemma link_back_inv [proc_intros]: "preserves (node_inv L) (link_back_loop L t ns bl)"
proof (induction ns arbitrary: bl)
  case (Cons n ns)
  show ?case unfolding link_back_loop.simps by (intro proc_intros Cons)
qed (simp add: proc_intros)

lemma find_loop_inv [proc_intros]: "preserves (node_inv L) (find_loop L t is e)"
proof (induction "is" arbitrary: e)
  case (Cons i "is")
  show ?case unfolding find_loop.simps Let_def add_seeds_def by (intro proc_intros Cons; simp)
qed (simp add: proc_intros)

lemma find_seeds_inv [proc_intros]: "preserves (node_inv L) (find_seeds L t)"
  unfolding find_seeds_def by (intro proc_intros)

text \<open>The recursion for the map changes no more of the node than a query does.\<close>

lemma seeding_loop_inv:
  "(\<And>e. preserves (\<lambda>s. ndb_inv (nm_db s)) (rec e)) \<Longrightarrow>
   preserves (\<lambda>s. ndb_inv (nm_db s)) (seeding_loop rec q entry is ns ls)"
proof (induction "is" arbitrary: ns ls)
  case (Cons i "is")
  have q: "preserves (\<lambda>s. ndb_inv (nm_db s)) (zoom nm_db nm_db_update (DHT_Query q a))" for a
    by (rule preserves_zoom [where J = ndb_inv]) (auto intro: proc_intros)
  show ?case
    unfolding seeding_loop.simps Let_def by (intro q proc_intros Cons; simp)
qed (simp add: proc_intros)

lemma CreateNetMap_inv: "preserves (\<lambda>s. ndb_inv (nm_db s)) (CreateNetMap n q e)"
proof (induction n arbitrary: e)
  case (Suc n)
  show ?case unfolding CreateNetMap.simps by (intro proc_intros seeding_loop_inv Suc)
qed (simp add: proc_intros)

section \<open>Commands\<close>

lemma at_lp_inv [proc_intros]:
  "preserves (node_inv L) m \<Longrightarrow> preserves (\<lambda>s. node_inv L (cs_node s)) (at_lp m)"
  by (rule preserves_zoom [where J = "node_inv L"]) auto

lemma outcome_inv [proc_intros]: "preserves I m \<Longrightarrow> preserves I (outcome m)"
  unfolding outcome_def by (intro proc_intros)

lemma get_or_connect_inv [proc_intros]: "preserves (node_inv L) (get_or_connect L a)"
  unfolding get_or_connect_def by (intro proc_intros)

lemma RSearch_inv [proc_intros]: "preserves (\<lambda>s. node_inv L (cs_node s)) (cs_RSearch L a t n)"
  unfolding cs_RSearch_def by (intro proc_intros)

lemma peer_commands_inv [proc_intros]:
  "preserves (\<lambda>s. node_inv L (cs_node s)) (cs_Ping L a)" "preserves (\<lambda>s. node_inv L (cs_node s)) (cs_Announce L a)"
  "preserves (\<lambda>s. node_inv L (cs_node s)) (cs_PeerSearch L a t n)" "preserves (\<lambda>s. node_inv L (cs_node s)) (cs_EntrySearch L nm d n)"
  "preserves (\<lambda>s. node_inv L (cs_node s)) (cs_PeerRecent L a n)" "preserves (\<lambda>s. node_inv L (cs_node s)) (cs_PeerPopular L a n)"
  "preserves (\<lambda>s. node_inv L (cs_node s)) (cs_PeerIndex a n)" "preserves (\<lambda>s. node_inv L (cs_node s)) (GetMirrorProgress a)"
  "preserves (\<lambda>s. node_inv L (cs_node s)) (cs_Bootstrap L a)"
  unfolding cs_Ping_def cs_Announce_def cs_PeerSearch_def cs_EntrySearch_def cs_PeerRecent_def cs_PeerPopular_def
    cs_PeerIndex_def GetMirrorProgress_def cs_Bootstrap_def
  by (intro proc_intros)+

lemma mirror_source_inv [proc_intros]: "preserves (node_inv L) (mirror_source L js a)"
proof -
  have "preserves (node_inv L) (try_seeds L e is p)" for e "is" p
  proof (induction "is" arbitrary: p)
    case (Cons i "is")
    show ?case unfolding try_seeds.simps by (intro proc_intros Cons)
  qed (simp add: proc_intros)
  then show ?thesis unfolding mirror_source_def by (intro proc_intros)
qed

lemma cs_Mirror_inv [proc_intros]:
  "text_affinity_ok (PQ L) \<Longrightarrow> preserves (\<lambda>s. node_inv L (cs_node s)) (cs_Mirror L js a)"
  unfolding cs_Mirror_def Let_def by (intro proc_intros; simp add: node_inv_maps split: list.splits)

lemma self_commands_inv [proc_intros]:
  "preserves (\<lambda>s. node_inv L (cs_node s)) (cs_SelfIndex n)" "preserves (\<lambda>s. node_inv L (cs_node s)) (cs_SelfSuggest L f t)"
  "preserves (\<lambda>s. node_inv L (cs_node s)) (cs_SelfSearch L t n)" "preserves (\<lambda>s. node_inv L (cs_node s)) (cs_SelfRecent n)"
  "preserves (\<lambda>s. node_inv L (cs_node s)) (cs_SelfPopular n)" "preserves (\<lambda>s. node_inv L (cs_node s)) SaveCollection"
  "preserves (\<lambda>s. node_inv L (cs_node s)) (cs_Explore L js)" "preserves (\<lambda>s. node_inv L (cs_node s)) (AddressEncode raw)"
  "preserves (\<lambda>s. node_inv L (cs_node s)) (SetSeedLeech i se le)" "preserves (\<lambda>s. node_inv L (cs_node s)) (StartCpuProfile st pa)"
  "preserves (\<lambda>s. node_inv L (cs_node s)) StopCpuProfile" "preserves (\<lambda>s. node_inv L (cs_node s)) (cs_MemProfile d pa)"
  unfolding cs_SelfIndex_def cs_SelfSuggest_def cs_SelfSearch_def cs_SelfRecent_def cs_SelfPopular_def SaveCollection_def
    cs_Explore_def AddressEncode_def SetSeedLeech_def
    StartCpuProfile_def StopCpuProfile_def cs_MemProfile_def
  by (intro proc_intros)+

lemma entry_commands_inv [proc_intros]:
  "preserves (\<lambda>s. node_inv L (cs_node s)) (cs_Resolve L a)" "preserves (\<lambda>s. node_inv L (cs_node s)) (RebuildCollection L ex)"
  "preserves (\<lambda>s. node_inv L (cs_node s)) (cs_Peers L ord)" "preserves (\<lambda>s. node_inv L (cs_node s)) (cs_RequestAddPeer L a)"
  "preserves (\<lambda>s. node_inv L (cs_node s)) (LocalSet L k v)" "preserves (\<lambda>s. node_inv L (cs_node s)) (LocalGet L k)"
  unfolding cs_Resolve_def Let_def RebuildCollection_def cs_Peers_def cs_RequestAddPeer_def LocalSet_def LocalGet_def
  by (intro proc_intros; simp)+

lemma posting_commands_inv [proc_intros]:
  assumes "text_affinity_ok (PQ L)"
  shows "preserves (\<lambda>s. node_inv L (cs_node s)) (cs_AddPost L ex p b)"
    "preserves (\<lambda>s. node_inv L (cs_node s)) (cs_AddMeta L i v)"
  unfolding cs_AddPost_def cs_AddMeta_def by (intro proc_intros assms)+

lemma cs_NetMap_inv [proc_intros]: "preserves (\<lambda>s. node_inv L (cs_node s)) (cs_NetMap L n a)"
proof -
  have "preserves (node_inv L) (\<lambda>s.
      case CreateNetMap n q e \<lparr>nm_db = ndb s, currentNodes = [], currentLinks = []\<rparr> of
        (Ok (Some (nodes, links)), t) \<Rightarrow> (Ok (VMap nodes links), s\<lparr>ndb := nm_db t\<rparr>)
      | (Ok None, t) \<Rightarrow> (Panic, s\<lparr>ndb := nm_db t\<rparr>)
      | (Err e, t) \<Rightarrow> (Err e, s\<lparr>ndb := nm_db t\<rparr>)
      | (Panic, t) \<Rightarrow> (Panic, s\<lparr>ndb := nm_db t\<rparr>))" for q e
  proof (rule preservesI)
    fix s assume s: "node_inv L s"
    let ?m = "CreateNetMap n q e \<lparr>nm_db = ndb s, currentNodes = [], currentLinks = []\<rparr>"
    obtain r t where r: "?m = (r, t)" by fastforce
    from preservesD [OF CreateNetMap_inv _ r] s have "ndb_inv (nm_db t)" by (simp add: node_inv_def)
    with s have "node_inv L (s\<lparr>ndb := nm_db t\<rparr>)" by (simp add: node_inv_def)
    with r show "node_inv L (snd (case ?m of
        (Ok (Some (nodes, links)), t) \<Rightarrow> (Ok (VMap nodes links), s\<lparr>ndb := nm_db t\<rparr>)
      | (Ok None, t) \<Rightarrow> (Panic, s\<lparr>ndb := nm_db t\<rparr>)
      | (Err e, t) \<Rightarrow> (Err e, s\<lparr>ndb := nm_db t\<rparr>)
      | (Panic, t) \<Rightarrow> (Panic, s\<lparr>ndb := nm_db t\<rparr>)))"
      by (auto split: res.splits option.splits prod.splits)
  qed
  then show ?thesis unfolding cs_NetMap_def by (intro proc_intros)
qed

section \<open>Requests over HTTP\<close>

lemma respond_inv [proc_intros]: "preserves I m \<Longrightarrow> preserves I (respond m)"
  unfolding respond_def by (intro proc_intros)

lemma with_int_inv [proc_intros]: "(\<And>i. preserves I (f i)) \<Longrightarrow> preserves I (with_int t f)"
  unfolding with_int_def by (intro proc_intros)

inductive http_op :: "libs \<Rightarrow> (cserver, response) proc \<Rightarrow> bool" for L where
  "http_op L (hs_Ping L r)"
| "http_op L (hs_Announce L r)"
| "http_op L (hs_PeerRSearch L r)"
| "http_op L (hs_PeerSearch L r)"
| "http_op L (hs_Recent L r)"
| "http_op L (hs_Popular L r)"
| "http_op L (hs_Mirror L js r)"
| "http_op L (hs_MirrorProgress r)"
| "http_op L (hs_PeerFtsIndex r)"
| "http_op L (hs_AddPost L ex p r)"
| "http_op L (hs_FtsIndex r)"
| "http_op L (hs_Resolve L r)"
| "http_op L (hs_Bootstrap L r)"
| "http_op L (hs_SelfSearch L r)"
| "http_op L (hs_SelfSuggest L f r)"
| "http_op L (hs_SelfRecent r)"
| "http_op L (hs_SelfPopular r)"
| "http_op L (hs_AddMeta L r)"
| "http_op L (hs_SaveCollection r)"
| "http_op L (hs_RebuildCollection L es r)"
| "http_op L (hs_Peers L ord r)"
| "http_op L (hs_RequestAddPeer L r)"
| "http_op L (hs_SelfSet L r)"
| "http_op L (hs_SelfGet L r)"
| "http_op L (hs_SelfExplore L js r)"
| "http_op L (hs_AddressEncode dec r)"
| "http_op L (hs_SetSeedLeech r)"
| "http_op L (hs_SearchEntry L r)"
| "http_op L (hs_NetMap L n r)"
| "http_op L (hs_CpuProfile st r)"
| "http_op L (hs_MemProfile d r)"

lemma http_op_inv:
  "http_op L h \<Longrightarrow> text_affinity_ok (PQ L) \<Longrightarrow> preserves (\<lambda>s. node_inv L (cs_node s)) h"
proof (induction rule: http_op.induct)
  case (10 ex p r)
  then show ?case unfolding hs_AddPost_def Let_def by (cases p) (auto intro!: proc_intros)
next
  case (26 dec r)
  then show ?case unfolding hs_AddressEncode_def by (cases dec) (auto intro!: proc_intros)
qed (unfold hs_Ping_def hs_Announce_def hs_PeerRSearch_def hs_PeerSearch_def hs_Recent_def hs_Popular_def hs_Mirror_def
  hs_MirrorProgress_def hs_PeerFtsIndex_def hs_FtsIndex_def hs_Resolve_def hs_Bootstrap_def hs_SelfSearch_def
  hs_SelfSuggest_def hs_SelfRecent_def hs_SelfPopular_def hs_AddMeta_def hs_SaveCollection_def hs_RebuildCollection_def
  hs_Peers_def hs_RequestAddPeer_def hs_SelfSet_def hs_SelfGet_def hs_SelfExplore_def hs_SetSeedLeech_def
  hs_SearchEntry_def hs_NetMap_def hs_CpuProfile_def hs_MemProfile_def, (intro proc_intros; assumption?)+)

text \<open>Every registered handler is one of these.\<close>

lemma routes_ops:
  assumes "(t, p, h) \<in> set (routes L i)"
  shows "h r = ret (Plain 200 ''Zif'') \<or> (\<exists>g. http_op L g \<and> h r = bind g (\<lambda>x. ret (Json x)))"
proof -
  have op: "bind g (\<lambda>x. ret (Json x)) = ret (Plain 200 ''Zif'') \<or> (\<exists>g'. http_op L g' \<and> bind g (\<lambda>x. ret (Json x)) = bind g' (\<lambda>x. ret (Json x)))"
    if "http_op L g" for g using that by blast
  have "list_all (\<lambda>(t, p, h). h r = ret (Plain 200 ''Zif'') \<or> (\<exists>g. http_op L g \<and> h r = bind g (\<lambda>x. ret (Json x)))) (routes L i)"
    unfolding routes_def list.pred_inject prod.case json_def IndexHandler_def by (intro conjI list.pred_inject(1); (rule op, rule http_op.intros | rule disjI1, rule HOL.refl))
  with assms show ?thesis by (auto simp: list_all_iff)
qed

lemma ListenHttp_inv:
  assumes "text_affinity_ok (PQ L)"
  shows "preserves (\<lambda>s. node_inv L (cs_node s)) (ListenHttp L i mx meth path fm)"
  unfolding ListenHttp_def
proof (rule dispatch_all)
  fix t p h r
  assume "(t, p, h) \<in> set (routes L i)"
  from routes_ops [OF this, of r] show "preserves (\<lambda>s. node_inv L (cs_node s)) (h r)"
    by (auto intro!: proc_intros http_op_inv [OF _ assms])
qed (intro proc_intros)+

section \<open>Reachable states\<close>

text \<open>
  One step of a node: a message that arrives, a connection, a round of one of its goroutines, a command, or a
  change of the surroundings (what the network and the clock will do, which calls of the drivers will fail).
\<close>

inductive node_step :: "libs \<Rightarrow> node \<Rightarrow> node \<Rightarrow> bool" for L where
  route: "node_step L s (fst (snd (RouteMessage L from m (s, c))))"
| accept: "node_step L s (fst (snd (Server_Handshake L (s, c))))"
| listen: "node_step L s (snd (Listen_round L acc s))"
| streams: "node_step L s (snd (ListenStream_round L p acc s))"
| http: "node_step L s (cs_node (snd (ListenHttp L i mx meth path fm \<lparr>cs_node = s, MirrorProgress = mp\<rparr>)))"
| main: "node_step L s (snd (zifd_main L cfg js s))"
| heartbeat: "node_step L s (snd (heartbeat_round p s))"
| announce: "node_step L s (snd (announce_round L p s))"
| load_seeds: "node_step L s (snd (LoadSeeds L s))"
| seeds: "node_step L s (snd (find_seeds L t s))"
| explore: "node_step L s (snd (exploreTick L e b js s))"
| discovered: "node_step L s (snd (handle_discovered L e s))"
| query_self: "node_step L s (snd (QuerySelf_round L draw order s))"
| close: "node_step L s (snd (lp_Close s))"
| surroundings: "node_step L s (s\<lparr>world := w\<rparr>)"
| driver: "node_step L s (s\<lparr>ndb := (ndb s)\<lparr>conn := (conn (ndb s))\<lparr>faults := fs\<rparr>\<rparr>\<rparr>)"
| post_driver: "node_step L s (s\<lparr>stores := (stores s)(path := (stores s path)\<lparr>pfaults := bs\<rparr>)\<rparr>)"
| post_file: "node_step L s (s\<lparr>lp_files := fl\<rparr>)"

lemma node_step_inv:
  "node_step L s s' \<Longrightarrow> text_affinity_ok (PQ L) \<Longrightarrow> node_inv L s \<Longrightarrow> node_inv L s'"
proof (induction rule: node_step.induct)
  case (route s "from" m c)
  then show ?case using preserves_snd [OF RouteMessage_inv, of L "(s, c)" "from" m] by simp
next
  case (accept s c)
  then show ?case using preserves_snd [OF Server_Handshake_inv, of L "(s, c)"] by simp
next
  case (http s i mx meth path fm mp)
  then show ?case using preserves_snd [OF ListenHttp_inv, of L "\<lparr>cs_node = s, MirrorProgress = mp\<rparr>"] by simp
next
  case (driver s fs)
  then show ?case by (simp add: node_inv_def ndb_inv_def)
next
  case (post_driver s path bs)
  then show ?case by (simp add: node_inv_def)
qed (simp_all add: preserves_snd proc_intros)

text \<open>A node that starts without databases, with the identity its key gives.\<close>

inductive node_reach :: "libs \<Rightarrow> node \<Rightarrow> bool" for L where
  start: "length (p_publicKey (lpeer s)) = 32 \<Longrightarrow> (\<forall>path. \<exists>fs. stores s path = empty_pstore\<lparr>pfaults := fs\<rparr>) \<Longrightarrow>
    Setup L (empty_store\<lparr>faults := fs\<rparr>) (\<lambda>_. None) visited s = (Ok (), s') \<Longrightarrow> node_reach L s'"
| step: "node_reach L s \<Longrightarrow> node_step L s s' \<Longrightarrow> node_reach L s'"

end
