(* ===== verification/Node_Props.thy ===== *)
theory Node_Props
  imports Node_Inv Handshake_Props
begin

text \<open>
  Properties of the whole node: its reachable states, what the requests of other peers can change, how
  queries are answered and addresses resolved, publishing posts, and the managing of connections.
\<close>

section \<open>A concrete node\<close>

definition demo_libs :: libs where
  "demo_libs = \<lparr>CR = demo_crypto, SQ = demo_sqlite, PQ = demo_psqlite, MP = demo_msgpack,
     json_enc = (\<lambda>_. []), json_dec = (\<lambda>_. Err ErrEOF)\<rparr>"

definition demo_world :: world where
  "demo_world = \<lparr>pings = [], streams = [], piece_streams = [], dials = [], mux_faults = [], rand_reads = [], ext_ips = [],
     clock = 0, ticks = [], map_iter = (\<lambda>xs. xs), stream_log = [], on_piece = [], blocked = False\<rparr>"

definition fresh_node :: node where
  "fresh_node = \<lparr>lpeer = empty_peer\<lparr>p_publicKey := drop 32 demo_sk\<rparr>, privateKey = demo_sk, lp_Entry = empty_entry,
     ndb = demo_ndb, lp_Collection = None, lp_Database = ''./data/posts.db'', stores = (\<lambda>_. empty_pstore), Databases = [],
     Collections = [], peer_heap = [], peers = [], peerSeen = [], publicToZif = [], seedManagers = [], socks = False,
     socksPort = 0, maxPeers = 100, lp_files = \<lparr>files = (\<lambda>_. None), fs_faults = []\<rparr>, world = demo_world\<rparr>"

section \<open>Reachable states\<close>

lemma Setup_inv:
  assumes "crypto_ok (CR L)" "length (p_publicKey (lpeer s)) = 32"
    and stores: "\<forall>path. \<exists>fs. stores s path = empty_pstore\<lparr>pfaults := fs\<rparr>"
    and run: "Setup L (empty_store\<lparr>faults := fs\<rparr>) (\<lambda>_. None) visited s = (Ok (), s')"
  shows "node_inv L s'"
proof -
  let ?a = "snd (Address_Generate (CR L) (p_publicKey (lpeer s)) (p_address (lpeer s)))"
  have a: "length (Raw ?a) = 20"
    using assms(1,2) by (simp add: Address_Generate_def Address_String_def Let_def AddressBinarySize_def crypto_ok_lengths
      split: prod.splits res.splits)
  let ?s = "s\<lparr>lp_Entry := empty_entry\<lparr>Signature := replicate SignatureSize 0\<rparr>, Databases := [], Collections := [],
       peers := [], publicToZif := [], seedManagers := [], peerSeen := [], lpeer := (lpeer s)\<lparr>p_address := ?a\<rparr>\<rparr>"
  obtain d where d: "NewDHT (CR L) (SQ L) ?a (empty_store\<lparr>faults := fs\<rparr>) (\<lambda>_. None) = Ok d"
    using run by (cases "NewDHT (CR L) (SQ L) ?a (empty_store\<lparr>faults := fs\<rparr>) (\<lambda>_. None)")
      (simp_all add: Setup_def lp_Address_def bind_def lift_res_def modify_def gets_def)
  have "ndb_inv d" by (rule NewDHT_inv [OF a _ _ d]) simp_all
  then have i: "node_inv L (?s\<lparr>ndb := d\<rparr>)"
    using stores by (auto simp: node_inv_def) (metis pinv_empty pinv_faults)
  let ?rest = "bind (on_dht (LoadTable ''./data/table.dat'')) (\<lambda>_.
     bind (attempt (on_files (LoadCollection ''./data/collection.dat''))) (\<lambda>r.
     bind (modify (\<lambda>s. s\<lparr>lp_Collection := Some (case r of Inl _ \<Rightarrow> NewCollection | Inr c \<Rightarrow> c)\<rparr>)) (\<lambda>_.
     bind (ignore (forM visited (\<lambda>(path, name). walk_handler path name))) (\<lambda>_.
     modify (\<lambda>s. s\<lparr>lpeer := (lpeer s)\<lparr>p_capabilities := p_capabilities (lpeer s) @ [''gzip'', ''none'']\<rparr>\<rparr>)))))"
  have p: "preserves (node_inv L) ?rest" by (intro proc_intros; simp)
  have "?rest (?s\<lparr>ndb := d\<rparr>) = (Ok (), s')"
    using run d by (simp add: Setup_def lp_Address_def lift_res_def)
  then show ?thesis by (rule preservesD [OF p i])
qed

definition node_start :: "libs \<Rightarrow> node \<Rightarrow> bool" where
  "node_start L s' \<longleftrightarrow> (\<exists>s fs visited. length (p_publicKey (lpeer s)) = 32 \<and> (\<forall>path. \<exists>fs. stores s path = empty_pstore\<lparr>pfaults := fs\<rparr>) \<and>
     Setup L (empty_store\<lparr>faults := fs\<rparr>) (\<lambda>_. None) visited s = (Ok (), s'))"

lemma node_reach_run: "node_reach L s \<Longrightarrow> \<exists>s0. node_start L s0 \<and> rtranclp (node_step L) s0 s"
proof (induction rule: node_reach.induct)
  case (start s fs visited s')
  then have "node_start L s'" unfolding node_start_def by blast
  then show ?case by blast
qed (blast intro: rtranclp.rtrancl_into_rtrancl)

interpretation node_sys: invariant_system "node_start L" "node_step L" "node_reach L"
  "\<lambda>s. crypto_ok (CR L) \<longrightarrow> text_affinity_ok (PQ L) \<longrightarrow> node_inv L s" for L
  by unfold_locales (use node_reach_run Setup_inv in \<open>(blast intro: node_step_inv | auto simp: node_start_def)+\<close>)

text \<open>C4: Whatever a node that was set up with its own key receives from the network, from its users and from its
  timers, and whichever calls of its databases and connections fail on the way: the network database keeps a
  well-formed routing table and consistent tables, every post database stays numbered without gaps and without
  duplicate info hashes, and none of the maps of peers, last contacts, public addresses, seed managers and
  mirrored databases has a key twice.\<close>

theorem node_reachable:
  assumes "node_reach L s" "crypto_ok (CR L)" "text_affinity_ok (PQ L)"
  shows "rt_inv (rtab (ndb s)) \<and> store_inv (conn (ndb s)) \<and>
    (\<forall>path. map Id (post_tbl (stores s path)) = map int [Suc 0..<Suc (length (post_tbl (stores s path)))] \<and>
       distinct (map InfoHash (post_tbl (stores s path)))) \<and>
    distinct (map fst (peers s)) \<and> distinct (map fst (peerSeen s)) \<and> distinct (map fst (publicToZif s)) \<and>
    distinct (map fst (seedManagers s)) \<and> distinct (map fst (Databases s))"
  using node_sys.reach_inv [rule_format, OF assms] by (simp add: node_inv_def ndb_inv_def pinv_def del: upt_Suc)

lemma demo_libs_sel [simp]:
  "CR demo_libs = demo_crypto" "SQ demo_libs = demo_sqlite" "PQ demo_libs = demo_psqlite" "MP demo_libs = demo_msgpack"
  "json_enc demo_libs e = []"
  by (simp_all add: demo_libs_def)

lemma NewDHT_empty: "NewDHT C q me (empty_store\<lparr>faults := []\<rparr>) (\<lambda>_. None) =
    Ok \<lparr>rtab = new_table me, conn = empty_store, disk = (\<lambda>_. None)\<rparr>"
  by (simp add: NewDHT_def NewNetDB_def netdb_setup_statements_def NewDHT_load_def bind_def ret_def
      sql_call_def empty_store_def QueryLatest_def zoom_def sqlQueryLatest_def gets_def attempt_def)

definition demo_address :: address where
  "demo_address = snd (Address_Generate demo_crypto (drop 32 demo_sk) empty_address)"

definition demo_node :: node where
  "demo_node = fresh_node\<lparr>lpeer := (lpeer fresh_node)\<lparr>p_address := demo_address, p_capabilities := [''gzip'', ''none'']\<rparr>,
     lp_Entry := empty_entry\<lparr>Signature := replicate SignatureSize 0\<rparr>, lp_Collection := Some NewCollection,
     ndb := \<lparr>rtab = new_table demo_address, conn = empty_store, disk = (\<lambda>_. None)\<rparr>\<rparr>"

lemma demo_Setup: "Setup demo_libs (empty_store\<lparr>faults := []\<rparr>) (\<lambda>_. None) [] fresh_node = (Ok (), demo_node)"
  by (simp add: Setup_def lp_Address_def fresh_node_def demo_node_def empty_peer_def demo_address_def NewDHT_empty
      LoadTable_def LoadCollection_def ReadFile_def fs_call_def bind_def modify_def gets_def lift_res_def zoom_def
      attempt_def ignore_def ret_def)

lemma demo_node_reach: "node_reach demo_libs demo_node"
  by (rule node_reach.start [OF _ _ demo_Setup])
    (auto simp: fresh_node_def demo_sk_def empty_pstore_def intro: exI [of _ "[]"])

theorem node_reachable_witness:
  "node_reach demo_libs (snd (LoadSeeds demo_libs demo_node)) \<and> distinct (map fst (peers (snd (LoadSeeds demo_libs demo_node))))"
  using node_reach.step [OF demo_node_reach node_step.load_seeds]
    node_reachable [OF node_reach.step [OF demo_node_reach node_step.load_seeds]] demo_crypto_ok demo_psqlite_ok
  by simp

end
