(* ===== verification/Request_Props.thy ===== *)
theory Request_Props
  imports Node_Props
begin

text \<open>
  What the requests of other peers can change in a node, and how they are answered.
\<close>

section \<open>What a request leaves alone\<close>

text \<open>
  The data of a node: everything but the routing table, which every query updates, its file, and the scripts of
  future failures.
\<close>

definition node_data :: "node \<Rightarrow> node" where
  "node_data s = s\<lparr>ndb := \<lparr>rtab = new_table empty_address, conn = (conn (ndb s))\<lparr>faults := []\<rparr>, disk = (\<lambda>_. None)\<rparr>,
     stores := (\<lambda>path. (stores s path)\<lparr>pfaults := []\<rparr>), lp_files := (lp_files s)\<lparr>fs_faults := []\<rparr>\<rparr>"

definition keeps_rows :: "store \<Rightarrow> netdb \<Rightarrow> bool" where
  "keeps_rows k d \<longleftrightarrow> (conn d)\<lparr>faults := []\<rparr> = k"

definition keeps_data :: "node \<Rightarrow> node \<Rightarrow> bool" where
  "keeps_data k s \<longleftrightarrow> node_data s = k"

lemma sql_queries_keep:
  fixes k :: store
  defines "K \<equiv> \<lambda>s. s\<lparr>faults := []\<rparr> = k"
  shows "preserves K sql_call" "preserves K (sqlQueryAddress q key)" "preserves K (sqlQuerySeeds i)"
    "preserves K (sqlQuerySeeding i)"
proof -
  show c: "preserves K sql_call"
    by (auto simp: preserves_def K_def sql_call_def split: list.splits)
  show "preserves K (sqlQueryAddress q key)" "preserves K (sqlQuerySeeds i)" "preserves K (sqlQuerySeeding i)"
    unfolding sqlQueryAddress_def sqlQuerySeeds_def sqlQuerySeeding_def
    by (intro c proc_intros | simp add: preserves_def split: option.splits)+
qed

lemma on_conn_keeps:
  "preserves (\<lambda>s. s\<lparr>faults := []\<rparr> = k) m \<Longrightarrow> preserves (keeps_rows k) (on_conn m)"
  by (rule preserves_zoom [where J = "\<lambda>s. s\<lparr>faults := []\<rparr> = k"]) (auto simp: keeps_rows_def)

lemma table_keeps: "preserves (keeps_rows k) (ndb_insertIntoTable a)"
  by (rule preservesI)
    (auto simp: ndb_insertIntoTable_def SaveTable_def keeps_rows_def modify_def split: res.splits)

lemma Query_keeps: "preserves (keeps_rows k) (Query q a)"
  unfolding Query_def addSeedToEntry_def querySeeds_def querySeeding_def decode_all_def
  by (intro on_conn_keeps sql_queries_keep table_keeps proc_intros)

lemma visit_bucket_keeps: "preserves (keeps_rows k) (visit_bucket q lim arr ks acc)"
  by (induction ks arbitrary: acc) (auto intro!: Query_keeps proc_intros)

lemma FindClosest_keeps: "preserves (keeps_rows k) (FindClosest q a)"
proof -
  have r: "preserves (keeps_rows k) (FindClosest_round q bits index i acc)" for bits index i acc
    unfolding FindClosest_round_def visit_at_def by (intro visit_bucket_keeps proc_intros)
  have "preserves (keeps_rows k) (FindClosest_loop q bits index i acc)" for bits index i acc
  proof (rule preservesI)
    fix s assume "keeps_rows k s"
    then show "keeps_rows k (snd (FindClosest_loop q bits index i acc s))"
    proof (induction q bits index i acc s rule: FindClosest_loop.induct)
      case (1 q bits index i acc s)
      obtain x s' where x: "FindClosest_round q bits index i acc s = (x, s')" by fastforce
      have "preserves (keeps_rows k) (FindClosest_round q bits index i acc)"
        unfolding FindClosest_round_def visit_at_def by (intro visit_bucket_keeps proc_intros)
      from preservesD [OF this "1.prems" x] have "keeps_rows k s'" .
      with 1 x show ?case by (cases x) (auto simp: FindClosest_loop.simps [of q bits index i acc s])
    qed
  qed
  then show ?thesis
    unfolding FindClosest_def queryAddresses_def by (intro visit_bucket_keeps proc_intros)
qed

lemma DHT_queries_keep: "preserves (keeps_rows k) (DHT_Query q a)" "preserves (keeps_rows k) (DHT_FindClosest q a)"
  unfolding DHT_Query_def DHT_FindClosest_def by (intro Query_keeps FindClosest_keeps proc_intros)+

lemma on_dht_keeps:
  assumes "\<And>k. preserves (keeps_rows k) m"
  shows "preserves (keeps_data k) (on_dht m)"
proof (rule preservesI)
  fix s assume s: "keeps_data k s"
  obtain r d where r: "m (ndb s) = (r, d)" by fastforce
  have "keeps_rows ((conn (ndb s))\<lparr>faults := []\<rparr>) (ndb s)" by (simp add: keeps_rows_def)
  from preservesD [OF assms this r] s r show "keeps_data k (snd (on_dht m s))"
    by (auto simp: keeps_data_def keeps_rows_def node_data_def zoom_def)
qed

lemma on_store_keeps:
  assumes "\<And>k. preserves (\<lambda>s. s\<lparr>pfaults := []\<rparr> = k) m"
  shows "preserves (keeps_data k) (on_store path m)" "preserves (keeps_data k) (on_db m)"
proof -
  show st: "preserves (keeps_data k) (on_store path m)" for path
  proof (rule preservesI)
    fix s assume s: "keeps_data k s"
    obtain r t where r: "m (stores s path) = (r, t)" by fastforce
    from preservesD [OF assms HOL.refl r] have "t\<lparr>pfaults := []\<rparr> = (stores s path)\<lparr>pfaults := []\<rparr>" .
    then have "(\<lambda>p. (((stores s)(path := t)) p)\<lparr>pfaults := []\<rparr>) = (\<lambda>p. (stores s p)\<lparr>pfaults := []\<rparr>)"
      by (auto simp: fun_eq_iff)
    with s r show "keeps_data k (snd (on_store path m s))"
      by (auto simp: keeps_data_def node_data_def on_store_def)
  qed
  show "preserves (keeps_data k) (on_db m)" unfolding on_db_def by (intro proc_intros st)
qed

lemma post_queries_keep:
  fixes k :: pstore
  defines "K \<equiv> \<lambda>s. s\<lparr>pfaults := []\<rparr> = k"
  shows "preserves K (db_Search q t page n)" "preserves K (QueryRecent page)" "preserves K (QueryPopular page)"
    "preserves K (QueryPiecePosts a b)"
proof -
  have c: "preserves K db_call"
    by (auto simp: preserves_def K_def db_call_def split: list.splits)
  have i: "preserves K (QueryPostId w)" for w
    unfolding QueryPostId_def by (intro c proc_intros)
  show "preserves K (db_Search q t page n)" "preserves K (QueryRecent page)" "preserves K (QueryPopular page)"
    "preserves K (QueryPiecePosts a b)"
    unfolding db_Search_def QueryRecent_def QueryPopular_def PaginatedQuery_def QueryPiecePosts_def
    by (intro i c proc_intros | simp add: preserves_def)+
qed

lemma hash_list_keeps: "preserves (keeps_data k) (hash_list_of a e)"
proof -
  have "preserves (keeps_data k) (on_files (ReadFile path))" for path
    by (auto simp: preserves_def keeps_data_def node_data_def zoom_def ReadFile_def bind_def fs_call_def
        split: list.splits option.splits prod.splits)
  then show ?thesis unfolding hash_list_of_def the_collection_def by (intro proc_intros)
qed

lemma on_node_keeps: "preserves (keeps_data k) m \<Longrightarrow> preserves (\<lambda>s. keeps_data k (fst s)) (on_node m)"
  "preserves (\<lambda>s. keeps_data k (fst s)) (on_cl n)"
  by (auto simp: preserves_def zoom_def split: prod.splits)

lemmas request_keeps = on_node_keeps on_dht_keeps DHT_queries_keep on_store_keeps post_queries_keep hash_list_keeps

lemma queries_keep:
  "preserves (\<lambda>s. keeps_data k (fst s)) (HandleQuery L m)" "preserves (\<lambda>s. keeps_data k (fst s)) (HandleFindClosest L m)"
  "preserves (\<lambda>s. keeps_data k (fst s)) (HandleSearch L m)" "preserves (\<lambda>s. keeps_data k (fst s)) (HandleRecent L m)"
  "preserves (\<lambda>s. keeps_data k (fst s)) (HandlePopular L m)" "preserves (\<lambda>s. keeps_data k (fst s)) (HandleHashList L m)"
  "preserves (\<lambda>s. keeps_data k (fst s)) (HandlePiece L m)"
  unfolding HandleQuery_def HandleFindClosest_def HandleSearch_def HandleRecent_def HandlePopular_def HandleHashList_def
    HandlePiece_def
  by (intro request_keeps proc_intros)+

text \<open>C17: A message of another peer changes the data of a node only if it is an announcement or asks to be added as
  a seed. Any other message, well-formed or not, leaves the entry of the node, its key, its posts and those it has
  mirrored, the rows of the network database, the files and all maps as they were.\<close>

theorem requests_read_only:
  assumes "Header m \<noteq> ProtoDhtAnnounce" "Header m \<noteq> ProtoRequestAddPeer"
  shows "node_data (fst (snd (RouteMessage L from m (s, c)))) = node_data s"
proof -
  have "preserves (\<lambda>s. keeps_data k (fst s)) (RouteMessage L from m)" for k
    unfolding RouteMessage_def using assms by (auto intro!: request_keeps queries_keep proc_intros)
  from preserves_snd [OF this, of "node_data s" "(s, c)"] show ?thesis by (simp add: keeps_data_def)
qed

theorem requests_read_only_witness:
  "node_data (fst (snd (RouteMessage demo_libs demo_address (bare ProtoDhtQuery) (demo_node, side [])))) = node_data demo_node"
  by (rule requests_read_only) (simp_all add: bare_def proto_headers)

section \<open>Queries\<close>

definition query_message :: "address \<Rightarrow> message" where
  "query_message a = Message_Write (WAddress a) (bare ProtoDhtQuery)"

definition entry_message :: "entry option \<Rightarrow> message" where
  "entry_message eo = Message_Write (WEntry eo) (bare ProtoDhtQuery)"

lemma side_sel [simp]: "inbox (side ms) = map Ok ms" "outbox (side ms) = []" "closed (side ms) = False" "wfaults (side ms) = []"
  by (simp_all add: side_def)

lemma Message_Read_ok:
  "\<not> too_big M w \<Longrightarrow> Message_Read M dec (Message_Write w m) = dec w"
  by (simp add: Message_Read_def Message_Write_def)

lemma route_query:
  assumes "msgpack_ok (MP L)" "\<not> too_big (MP L) (WAddress a)" "\<not> closed c" "wfaults c = []"
    and "\<not> Address_Equals a (lp_Address s)" "DHT_Query (SQ L) a (ndb s) = (Ok kv, d)"
  shows "RouteMessage L from (query_message a) (s, c) = (Ok (), s\<lparr>ndb := d\<rparr>,
     c\<lparr>outbox := outbox c @ (if kv = None then [bare ProtoNo] else []) @ [entry_message kv], closed := True\<rparr>)"
proof -
  have d: "dec_address (MP L) (WAddress a) = Ok a" using assms(1) by (simp add: msgpack_ok_def)
  have "HandleQuery L (query_message a) (s, c) = (Ok (), s\<lparr>ndb := d\<rparr>,
     c\<lparr>outbox := outbox c @ (if kv = None then [bare ProtoNo] else []) @ [entry_message kv]\<rparr>)"
    using assms(2-6) by (simp add: HandleQuery_def query_message_def Message_Read_ok d entry_message_def
        bind_def zoom_def gets_def ignore_def attempt_def ret_def)
  then show ?thesis
    by (simp add: RouteMessage_def query_message_def Message_Write_def bare_def proto_headers deferred_def ignore_def
        bind_def attempt_def ret_def zoom_def Client_Close_def modify_def)
qed

lemma route_own_query:
  assumes "msgpack_ok (MP L)" "\<not> too_big (MP L) (WAddress a)" "\<not> closed c" "wfaults c = []"
    and "Address_Equals a (lp_Address s)"
  shows "RouteMessage L from (query_message a) (s, c) = (Ok (), s,
     c\<lparr>outbox := outbox c @ [entry_message (Some (lp_Entry s))], closed := True\<rparr>)"
proof -
  have d: "dec_address (MP L) (WAddress a) = Ok a" using assms(1) by (simp add: msgpack_ok_def)
  have "HandleQuery L (query_message a) (s, c) = (Ok (), s, c\<lparr>outbox := outbox c @ [entry_message (Some (lp_Entry s))]\<rparr>)"
    using assms(2-5) by (simp add: HandleQuery_def query_message_def Message_Read_ok d entry_message_def
        bind_def zoom_def gets_def ignore_def attempt_def ret_def)
  then show ?thesis
    by (simp add: RouteMessage_def query_message_def Message_Write_def bare_def proto_headers deferred_def ignore_def
        bind_def attempt_def ret_def zoom_def Client_Close_def modify_def)
qed

lemma Client_Query_entry:
  assumes "msgpack_ok M" "\<not> too_big M (WEntry (Some e))"
  shows "fst (Client_Query C M a (side (entry_message (Some e) # ms))) =
    res_bind (Entry_Verify C (Some (exported e))) (\<lambda>_. Ok (exported e))"
proof -
  have d: "dec_entry M (WEntry (Some e)) = Ok (exported e)" using assms(1) by (simp add: msgpack_ok_def)
  have "Header (entry_message (Some e)) \<noteq> ProtoNo"
    by (simp add: entry_message_def Message_Write_def bare_def proto_headers)
  moreover have "Message_Read M (dec_entry M) (entry_message (Some e)) = Ok (exported e)"
    using assms(2) by (simp add: entry_message_def Message_Read_ok d)
  ultimately show ?thesis
    by (cases "Entry_Verify C (Some (exported e))")
      (simp_all add: Client_Query_def bind_def ReadMessage_def lift_res_def ret_def)
qed

lemma Client_Query_no:
  "fst (Client_Query C M a (side (bare ProtoNo # ms))) = Err (ErrNew ''Peer returned no'')"
  by (simp add: Client_Query_def bind_def ReadMessage_def fail_def bare_def)

lemma Client_Query_asks:
  "hd (outbox (snd (Client_Query C M a (side ms)))) = query_message a"
  by (cases ms) (auto simp: Client_Query_def bind_def ReadMessage_def fail_def lift_res_def ret_def query_message_def
      split: res.splits if_splits prod.splits)


lemma demo_DHT_Query: "DHT_Query demo_sqlite (peer_address (demo_raw 5)) (ndb demo_node) = (Ok None, ndb demo_node)"
  using Query_None [of "ndb demo_node" demo_sqlite "peer_address (demo_raw 5)"]
  by (simp add: DHT_Query_def bind_def ret_def demo_node_def row_of_None_iff)

lemma demo_address_Raw: "Raw demo_address = replicate 20 7"
  by (simp add: demo_address_def Address_Generate_ok demo_sk_def demo_crypto_def pad_to_def Let_def)


section \<open>Announcements\<close>

definition announce_message :: "entry \<Rightarrow> message" where
  "announce_message e = Message_Write (WEntry (Some e)) (bare ProtoDhtAnnounce)"

lemma route_announce:
  assumes "msgpack_ok (MP L)" "\<not> too_big (MP L) (WEntry (Some e))" "\<not> closed c" "wfaults c = []"
    and "DHT_Insert (CR L) (SQ L) (exported e) (ndb s) = (r, d)" "r \<noteq> Panic"
  shows "RouteMessage L from (announce_message e) (s, c) = (Ok (), s\<lparr>ndb := d\<rparr>,
     c\<lparr>outbox := outbox c @ [bare (if \<exists>n>0. r = Ok n then ProtoOk else ProtoNo)], closed := True\<rparr>)"
proof -
  have d: "dec_entry (MP L) (WEntry (Some e)) = Ok (exported e)" using assms(1) by (simp add: msgpack_ok_def)
  have i: "on_node (on_dht (DHT_Insert (CR L) (SQ L) (exported e))) (s, c) = (r, s\<lparr>ndb := d\<rparr>, c)"
    using assms(5) by (simp add: zoom_def)
  define h where "h = (if \<exists>n>0. r = Ok n then ProtoOk else ProtoNo)"
  have "\<exists>x. HandleAnnounce L (announce_message e) (s, c) = (x, s\<lparr>ndb := d\<rparr>,
     c\<lparr>outbox := outbox c @ [bare h], closed := True\<rparr>) \<and> x \<noteq> Panic"
    using assms(2-4,6) i by (cases r) (auto simp: HandleAnnounce_def announce_message_def Message_Read_ok d deferred_def bind_def
        attempt_def ignore_def ret_def fail_def zoom_def Client_Close_def modify_def h_def)
  then show ?thesis
    unfolding h_def [symmetric]
    by (auto simp: RouteMessage_def announce_message_def Message_Write_def bare_def proto_headers deferred_def ignore_def
        bind_def attempt_def ret_def zoom_def Client_Close_def modify_def split: res.splits)
qed

lemma Client_Announce_reply:
  "fst (Client_Announce e (side [bare h])) = Ok () \<longleftrightarrow> h = ProtoOk"
  by (simp add: Client_Announce_def bind_def ReadMessage_def Message_Ok_def bare_def ret_def fail_def)

text \<open>An entry another peer gets after it was announced: with the seed lists of the serving node.\<close>

lemma announced_query:
  assumes lib: "msgpack_ok (MP L)" "\<And>w. \<not> too_big (MP L) w" "affinity_ok (SQ L)"
    and s: "ndb_inv (ndb s)" "faults (conn (ndb s)) = []" "genuine (conn (ndb s))"
    and e: "address_wf (Address e)" "\<not> bad_args e"
      "\<not> looks_numeric (Name e)" "\<not> looks_numeric (Desc e)" "\<not> looks_numeric (PublicAddress e)"
    and ins: "DHT_Insert (CR L) (SQ L) (exported e) (ndb s) = (Ok n, d)" "n > 0"
    and a: "Raw a = Raw (Address e)" "address_wf a" "\<not> Address_Equals a (lp_Address s)"
  obtains r s' c' s'' c'' where
    "RouteMessage L from (announce_message e) (s, side []) = (Ok (), s', c')" "ndb s' = d" "lp_Address s' = lp_Address s"
    "outbox c' = [bare ProtoOk]" "row_of (SQ L) (conn d) (address_key a) = Some r"
    "ndb_inv d" "faults (conn d) = []" "genuine (conn d)"
    "RouteMessage L from2 (query_message a) (s', side []) = (Ok (), s'', c'')"
    "fst (Client_Query (CR L) (MP L) a (side (outbox c''))) =
       (let e' = e\<lparr>Address := peer_address (Raw (Address e)), Seeds := seeds_of (conn d) (int (rid r)),
          Seeding := seeding_of (conn d) (int (rid r)), distance := empty_address\<rparr>
        in res_bind (Entry_Verify (CR L) (Some e')) (\<lambda>_. Ok e'))"
proof -
  have x: "Address (exported e) = Address e" "bad_args (exported e) = bad_args e" "Name (exported e) = Name e"
    "Desc (exported e) = Desc e" "PublicAddress (exported e) = PublicAddress e"
    by (simp_all add: exported_def bad_args_def)
  have i: "Insert (CR L) (SQ L) (exported e) (ndb s) = (Ok n, d)" using ins(1) by (simp add: DHT_Insert_def)
  let ?e = "\<lambda>r. e\<lparr>Address := peer_address (Raw (Address e)), Seeds := seeds_of (conn d) (int (rid r)),
          Seeding := seeding_of (conn d) (int (rid r)), distance := empty_address\<rparr>"
  obtain r t where r: "row_of (SQ L) (conn d) (address_key a) = Some r" "ndb_inv d" "faults (conn d) = []" "genuine (conn d)"
    "Query (SQ L) a d = (Ok (Some (?e r), int (rid r)), touched d t)"
    using Insert_Query_run [OF s lib(3), of "exported e" "CR L" n d a] x e i a by (auto simp: exported_def)
  have q: "DHT_Query (SQ L) a (ndb (s\<lparr>ndb := d\<rparr>)) = (Ok (Some (?e r)), touched d t)"
    using r(5) by (simp add: DHT_Query_def bind_def ret_def)
  have me: "lp_Address (s\<lparr>ndb := d\<rparr>) = lp_Address s" by (simp add: lp_Address_def)
  have xe: "exported (?e r) = ?e r" by (simp add: exported_def)
  show ?thesis
    using route_announce [OF lib(1,2) _ _ ins(1), of "side []" "from"] ins(2) r me xe
      route_query [OF lib(1,2) _ _ _ q, of "side []" from2] a(3)
      Client_Query_entry [OF lib(1,2), where e = "?e r" and C = "CR L" and a = a and ms = "[]"]
    by (intro that [of "s\<lparr>ndb := d\<rparr>" "(side [])\<lparr>outbox := [bare ProtoOk], closed := True\<rparr>" r "s\<lparr>ndb := touched d t\<rparr>"
          "(side [])\<lparr>outbox := [entry_message (Some (?e r))], closed := True\<rparr>"]) (simp_all add: Let_def)
qed


lemma demo_route_libs: "msgpack_ok (MP demo_libs)" "\<And>w. \<not> too_big (MP demo_libs) w" "affinity_ok (SQ demo_libs)"
  by (simp_all add: demo_msgpack_ok)

definition demo_two_node :: node where
  "demo_two_node = demo_node\<lparr>ndb := demo_two\<rparr>"

lemma demo_two_node_sel [simp]: "ndb demo_two_node = demo_two" "lp_Address demo_two_node = lp_Address demo_node"
  by (simp_all add: demo_two_node_def lp_Address_def)

lemma demo_not_own [simp]: "\<not> Address_Equals (peer_address (demo_raw b)) (lp_Address demo_node)"
  by (auto simp: demo_node_def lp_Address_def fresh_node_def Address_Equals_def peer_address_def demo_address_Raw demo_raw_def
      dest!: arg_cong [of _ _ hd])



text \<open>Signatures that depend on the end of the message.\<close>

definition tail_crypto :: crypto where
  "tail_crypto = demo_crypto\<lparr>ed_verify := (\<lambda>pk m s. s = pad_to 64 (take 8 pk @ rev m)),
     ed_sign := (\<lambda>sk m. pad_to 64 (take 8 (drop 32 sk) @ rev m))\<rparr>"

lemma tail_crypto_ok: "crypto_ok tail_crypto"
  by (simp add: crypto_ok_def tail_crypto_def demo_crypto_def SignatureSize_def)

lemma pad_to_last: "m \<noteq> [] \<Longrightarrow> length pk \<ge> 8 \<Longrightarrow> pad_to 64 (take 8 pk @ rev m) ! 8 = last m"
  by (simp add: pad_to_def nth_append hd_conv_nth [symmetric] hd_rev)

definition seeding_entry :: entry where
  "seeding_entry = (let e = (unsigned_entry 5 ''a'')\<lparr>Seeding := [demo_raw 6]\<rparr>
     in e\<lparr>Signature := ed_sign tail_crypto demo_sk (to_bytes (signed_text e))\<rparr>)"

lemma seeding_entry_valid: "entry_valid tail_crypto seeding_entry"
  unfolding seeding_entry_def Let_def
  by (rule sign_entry_valid [OF tail_crypto_ok])
    (simp_all add: unsigned_entry_def empty_entry_def demo_sk_def PrivateKeySize_def peer_address_def)

lemma seeding_entry_binds:
  "\<not> ed_verify tail_crypto (PublicKey seeding_entry) (to_bytes (signed_text (seeding_entry\<lparr>Seeding := []\<rparr>))) (Signature seeding_entry)"
proof
  let ?e = "(unsigned_entry 5 ''a'')\<lparr>Seeding := [demo_raw 6]\<rparr>"
  let ?m = "to_bytes (signed_text ?e)" and ?m' = "to_bytes (signed_text (?e\<lparr>Seeding := []\<rparr>))"
  assume "ed_verify tail_crypto (PublicKey seeding_entry) (to_bytes (signed_text (seeding_entry\<lparr>Seeding := []\<rparr>))) (Signature seeding_entry)"
  moreover have "Signature seeding_entry = pad_to 64 (take 8 (drop 32 demo_sk) @ rev ?m)" "PublicKey seeding_entry = drop 32 demo_sk"
    by (simp_all add: seeding_entry_def Let_def tail_crypto_def unsigned_entry_def)
  moreover have "signed_text (seeding_entry\<lparr>Seeding := []\<rparr>) = signed_text (?e\<lparr>Seeding := []\<rparr>)"
    by (simp add: seeding_entry_def Let_def signed_text_def)
  ultimately have "pad_to 64 (take 8 (drop 32 demo_sk) @ rev ?m) = pad_to 64 (take 8 (drop 32 demo_sk) @ rev ?m')"
    by (simp add: tail_crypto_def)
  moreover have m: "?m \<noteq> []" "?m' \<noteq> []" "length (drop 32 demo_sk) \<ge> 8"
    by (simp_all add: signed_text_def unsigned_entry_def to_bytes_def demo_sk_def)
  ultimately have "last ?m = last ?m'" using pad_to_last by metis
  moreover have "last ?m = 6"
    by (simp add: signed_text_def unsigned_entry_def to_bytes_def to_string_def demo_raw_def)
  moreover have "last ?m' = 49"
    by (simp add: signed_text_def unsigned_entry_def to_bytes_def Itoa_def itoa_nat.simps digit_char_def empty_entry_def)
  ultimately show False by simp
qed


end
