(* ===== verification/Publish_Props.thy ===== *)
theory Publish_Props
  imports Request_Props
begin

text \<open>
  Publishing posts and copying them: what \<open>AddPost\<close> leaves in the node, and what a peer accepts from it.
\<close>

section \<open>Adding a post\<close>

lemma on_store_run: "m (stores s path) = (r, t) \<Longrightarrow> on_store path m s = (r, s\<lparr>stores := (stores s)(path := t)\<rparr>)"
  by (simp add: on_store_def)

lemma on_db_run: "m (stores s (lp_Database s)) = (r, t) \<Longrightarrow> on_db m s = (r, s\<lparr>stores := (stores s)(lp_Database s := t)\<rparr>)"
  by (simp add: on_db_def on_store_run)

lemma InsertPost_ok:
  assumes "pinv q s" "pfaults s = []" "text_affinity q (InfoHash p) \<notin> InfoHash ` set (post_tbl s)" "InsertPost q p s = (Ok i, s')"
  shows "i = int (Suc (length (post_tbl s)))" "pfaults s' = []"
    "post_tbl s' = post_tbl s @ [p\<lparr>Id := i, InfoHash := text_affinity q (InfoHash p), Title := text_affinity q (Title p),
       Tags := text_affinity q (Tags p), Meta := text_affinity q (Meta p)\<rparr>]"
  using assms(2-4) max_Id [OF assms(1)]
  by (auto simp: InsertPost_def sql_insert_post_def bind_def Let_def list_ex_iff image_iff split: if_splits)

lemma QueryPiece_negative: "\<exists>e. QueryPiece (word_of_int (- 1)) b s = (Err e, s)"
  by (auto simp: QueryPiece_def uint_arg_def PieceSize_def bind_def fail_def ret_def)

text \<open>What the calls after the collection is rebuilt keep.\<close>

lemma SignEntry_frame:
  assumes "SignEntry C s = (r, s')"
  shows "stores s' = stores s" "lp_Database s' = lp_Database s" "lp_Collection s' = lp_Collection s"
    "CollectionHash (lp_Entry s') = CollectionHash (lp_Entry s)" "PostCount (lp_Entry s') = PostCount (lp_Entry s)"
  using assms
  by (auto simp: SignEntry_def bind_def zoom_def modify_def gets_def lift_res_def split: prod.splits res.splits)

lemma SaveEntry_ok:
  assumes "SaveEntry L s = (Ok (), s')"
  shows "stores s' = stores s" "lp_Database s' = lp_Database s" "lp_Collection s' = lp_Collection s"
    "CollectionHash (lp_Entry s') = CollectionHash (lp_Entry s)" "PostCount (lp_Entry s') = PostCount (lp_Entry s)"
    "entry_valid (CR L) (lp_Entry s')"
proof -
  obtain s1 d s2 where s1: "SignEntry (CR L) s = (Ok (), s1)"
    and s2: "on_dht (DHT_Insert (CR L) (SQ L) (lp_Entry s1)) s1 = (Ok d, s2)"
    and s3: "on_files (WriteFile ''./data/entry.json'' (to_bytes (json_enc L (lp_Entry s1)))) s2 = (Ok (), s')"
    using assms unfolding SaveEntry_def by (auto elim!: bind_OkE simp: gets_def)
  have "entry_valid (CR L) (lp_Entry s1)"
    using s2 by (auto simp: zoom_def DHT_Insert_def Insert_def bind_def lift_res_def Entry_Verify_iff
        split: res.splits prod.splits)
  moreover have "stores s' = stores s1" "lp_Database s' = lp_Database s1" "lp_Collection s' = lp_Collection s1"
    "lp_Entry s' = lp_Entry s1"
    using s2 s3 by (auto simp: zoom_def split: prod.splits)
  ultimately show "stores s' = stores s" "lp_Database s' = lp_Database s" "lp_Collection s' = lp_Collection s"
    "CollectionHash (lp_Entry s') = CollectionHash (lp_Entry s)" "PostCount (lp_Entry s') = PostCount (lp_Entry s)"
    "entry_valid (CR L) (lp_Entry s')"
    using SignEntry_frame [OF s1] by simp_all
qed

text \<open>The hash list of a collection with at most one piece, after that piece was added again.\<close>

lemma Collection_Add_first:
  assumes "crypto_ok C" "slice_ok (HashList c)" "slen (HashList c) = 0 \<or> slen (HashList c) = 32"
    and "Collection_Add C extra \<lparr>Piece_Id = 0, Posts = [], hashed = h\<rparr> c = Ok c'"
  shows "sdata (HashList c') = sha3_256 C h" "slice_ok (HashList c')"
    "RootHash (Collection_Rehash c') = sha3_256 C h"
proof -
  let ?h = "sha3_256 C h"
  have l: "length ?h = 32" by (rule crypto_ok_lengths [OF assms(1)])
  have s: "sdata (HashList c') = ?h \<and> slice_ok (HashList c') \<and> slen (HashList c') = 32"
  proof (cases "slen (HashList c) = 0")
    case True
    with assms(2,4) l show ?thesis by (auto simp: Collection_Add_def Piece_Hash_def Let_def sdata_def slice_ok_def sappend_def)
  next
    case False
    with assms(3) have "slen (HashList c) = 32" by simp
    with assms(2,4) l show ?thesis
      by (auto simp: Collection_Add_def Piece_Hash_def Let_def slice_ok_def sdata_def overwrite_def split: if_splits)
  qed
  then show "sdata (HashList c') = ?h" "slice_ok (HashList c')" by auto
  with s Rehash_whole [of c'] show "RootHash (Collection_Rehash c') = ?h" by simp
qed

text \<open>The steps of \<open>AddPost\<close> on the way to its last return: the insertion, the new hash list, and the entry that is signed.\<close>

lemma AddPost_steps:
  assumes "lp_AddPost L extra p b s = (Ok i, s')"
  obtains ins t1 pc t2 c c1 s3 s4 where
    "attempt (InsertPost (PQ L) p) (stores s (lp_Database s)) = (Ok ins, t1)" "i = (case ins of Inl _ \<Rightarrow> - 1 | Inr i \<Rightarrow> i)"
    "QueryPiece (word_of_int (i div int PieceSize)) False t1 = (Ok pc, t2)"
    "lp_Collection s = Some c" "Collection_Add (CR L) extra pc c = Ok c1"
    "stores s3 = (stores s)(lp_Database s := t2)" "lp_Database s3 = lp_Database s" "lp_Collection s3 = Some (Collection_Rehash c1)"
    "CollectionHash (lp_Entry s3) = Collection_Hash (CR L) (Collection_Rehash c1)"
    "PostCount (lp_Entry s3) = wrap64 (PostCount (lp_Entry s) + 1)"
    "SignEntry (CR L) s3 = (Ok (), s4)" "SaveEntry L s4 = (Ok (), s')"
proof -
  define F where "F = (\<lambda>i pc.
     bind (the_collection) (\<lambda>c.
     bind (lift_res (Collection_Add (CR L) extra pc c)) (\<lambda>c.
     bind (modify (\<lambda>s. s\<lparr>lp_Collection := Some (Collection_Rehash c)\<rparr>)) (\<lambda>_.
     bind (the_collection) (\<lambda>c.
     bind (ignore (on_files (Collection_Save ''./data/collection.dat'' c))) (\<lambda>_.
     bind (modify (\<lambda>s. s\<lparr>lp_Entry := (lp_Entry s)\<lparr>CollectionHash := Collection_Hash (CR L) c\<rparr>\<rparr>)) (\<lambda>_.
     bind (SignEntry (CR L)) (\<lambda>_.
     bind (SaveEntry L) (\<lambda>_. ret (i :: int))))))))))"
  have E: "lp_AddPost L extra p b = bind (on_world Now_Unix) (\<lambda>now. bind (lift_res (Post_Valid now p)) (\<lambda>_.
     bind (modify (\<lambda>s. s\<lparr>lp_Entry := (lp_Entry s)\<lparr>PostCount := wrap64 (PostCount (lp_Entry s) + 1)\<rparr>\<rparr>)) (\<lambda>_.
     bind (attempt (on_db (InsertPost (PQ L) p))) (\<lambda>ins.
     bind (attempt (on_db (QueryPiece (word_of_int ((case ins of Inl _ \<Rightarrow> - 1 | Inr i \<Rightarrow> i) div int PieceSize)) False))) (\<lambda>q.
       case q of Inl err \<Rightarrow> panic | Inr pc \<Rightarrow> F (case ins of Inl _ \<Rightarrow> - 1 | Inr i \<Rightarrow> i) pc)))))"
    unfolding lp_AddPost_def Let_def F_def by (rule HOL.refl)
  define S1 where "S1 = (\<lambda>w. s\<lparr>world := w, lp_Entry := (lp_Entry s)\<lparr>PostCount := wrap64 (PostCount (lp_Entry s) + 1)\<rparr>\<rparr>)"
  obtain w ins s2 q s3 where ins: "attempt (on_db (InsertPost (PQ L) p)) (S1 w) = (Ok ins, s2)"
    and q: "attempt (on_db (QueryPiece (word_of_int ((case ins of Inl _ \<Rightarrow> - 1 | Inr i \<Rightarrow> i) div int PieceSize)) False)) s2 = (Ok q, s3)"
    and f: "(case q of Inl err \<Rightarrow> panic | Inr pc \<Rightarrow> F (case ins of Inl _ \<Rightarrow> - 1 | Inr i \<Rightarrow> i) pc) s3 = (Ok i, s')"
    using assms unfolding E S1_def by (elim bind_OkE) (auto simp: zoom_def lift_res_def modify_def split: prod.splits)
  define s1 where "s1 = S1 w"
  have s1: "stores s1 = stores s" "lp_Database s1 = lp_Database s" "lp_Collection s1 = lp_Collection s"
      "PostCount (lp_Entry s1) = wrap64 (PostCount (lp_Entry s) + 1)"
    by (simp_all add: s1_def S1_def)
  note ins = ins [folded s1_def]
  obtain t1 where t1: "attempt (InsertPost (PQ L) p) (stores s (lp_Database s)) = (Ok ins, t1)"
    "s2 = s1\<lparr>stores := (stores s)(lp_Database s := t1)\<rparr>"
    using ins s1 by (auto simp: attempt_def on_db_def on_store_def split: prod.splits res.splits)
  obtain pc where pc: "q = Inr pc" and f': "F (case ins of Inl _ \<Rightarrow> - 1 | Inr i \<Rightarrow> i) pc s3 = (Ok i, s')"
    using f by (auto simp: panic_def split: sum.splits)
  obtain t2 where t2: "QueryPiece (word_of_int ((case ins of Inl _ \<Rightarrow> - 1 | Inr i \<Rightarrow> i) div int PieceSize)) False t1 = (Ok pc, t2)"
    "s3 = s1\<lparr>stores := (stores s)(lp_Database s := t2)\<rparr>"
    using q s1 unfolding t1(2) pc by (auto simp: attempt_def on_db_def on_store_def split: prod.splits res.splits)
  obtain c c1 s4 s5 u where c: "lp_Collection s3 = Some c" "Collection_Add (CR L) extra pc c = Ok c1"
    and s4: "ignore (on_files (Collection_Save ''./data/collection.dat'' (Collection_Rehash c1)))
      (s3\<lparr>lp_Collection := Some (Collection_Rehash c1)\<rparr>) = (u, s4)"
    and s5: "SignEntry (CR L) (s4\<lparr>lp_Entry := (lp_Entry s4)\<lparr>CollectionHash := Collection_Hash (CR L) (Collection_Rehash c1)\<rparr>\<rparr>) = (Ok (), s5)"
      "SaveEntry L s5 = (Ok (), s')" and i: "i = (case ins of Inl _ \<Rightarrow> - 1 | Inr i \<Rightarrow> i)"
    using f' unfolding F_def the_collection_def
    by (auto elim!: bind_OkE simp: gets_def modify_def lift_res_def ret_def panic_def split: option.splits)
  have "stores s4 = stores s3" "lp_Database s4 = lp_Database s3" "lp_Collection s4 = Some (Collection_Rehash c1)" "lp_Entry s4 = lp_Entry s3"
    using s4 by (auto simp: ignore_def bind_def attempt_def zoom_def ret_def split: prod.splits res.splits)
  with t1 t2 s1 c s5 i show ?thesis
    by (intro that [of ins t1 pc t2 c c1 "s4\<lparr>lp_Entry := (lp_Entry s4)\<lparr>CollectionHash := Collection_Hash (CR L) (Collection_Rehash c1)\<rparr>\<rparr>" s5]) auto
qed

lemma piece_rows_small: "length (post_tbl t) \<le> PieceSize \<Longrightarrow> piece_rows t 0 = post_tbl t"
  by (simp add: piece_rows_def)

text \<open>The hash list that is served for one piece, seen by the peer that receives it.\<close>

lemma one_hash_accepted:
  assumes "crypto_ok C" "hl = sha3_256 C (piece_text rows)"
  shows "MessageCollection_Verify C (hash_list_message hl) (sha3_256 C hl) = Ok ()"
    "check_pieces C (slice_of hl) 0 [piece_of rows] = Ok ([piece_of rows], True)"
proof -
  have l: "length hl = 32" using assms crypto_ok_lengths(1) by simp
  then show "MessageCollection_Verify C (hash_list_message hl) (sha3_256 C hl) = Ok ()"
    by (simp add: MessageCollection_Verify_eq hash_list_message_def slice_of_def Let_def)
  show "check_pieces C (slice_of hl) 0 [piece_of rows] = Ok ([piece_of rows], True)"
    using l assms(2) by (simp add: slice_of_def Piece_Hash_def piece_of_def)
qed

text \<open>A successful \<open>AddPost\<close> on a table of fewer than 999 rows.\<close>

lemma AddPost_small:
  assumes "crypto_ok (CR L)" "text_affinity_ok (PQ L)"
    and t: "t = stores s (lp_Database s)" "pinv (PQ L) t" "pfaults t = []" "length (post_tbl t) < 999"
      "text_affinity (PQ L) (InfoHash p) \<notin> InfoHash ` set (post_tbl t)"
    and c: "lp_Collection s = Some c" "slice_ok (HashList c)" "slen (HashList c) = 0 \<or> slen (HashList c) = 32"
    and run: "lp_AddPost L extra p b s = (Ok i, s')"
  obtains t1 c1 where "InsertPost (PQ L) p t = (Ok i, t1)" "post_tbl (stores s' (lp_Database s')) = post_tbl t1"
    "lp_Collection s' = Some c1" "sdata (HashList c1) = sha3_256 (CR L) (piece_text (post_tbl t1))"
    "CollectionHash (lp_Entry s') = sha3_256 (CR L) (sdata (HashList c1))"
    "entry_valid (CR L) (lp_Entry s')" "PostCount (lp_Entry s') = wrap64 (PostCount (lp_Entry s) + 1)"
proof -
  obtain ins t1 pc t2 c0 c1 s3 s4 where
    ins: "attempt (InsertPost (PQ L) p) (stores s (lp_Database s)) = (Ok ins, t1)" "i = (case ins of Inl _ \<Rightarrow> - 1 | Inr i \<Rightarrow> i)"
    and pc: "QueryPiece (word_of_int (i div int PieceSize)) False t1 = (Ok pc, t2)"
    and c0: "lp_Collection s = Some c0" "Collection_Add (CR L) extra pc c0 = Ok c1"
    and s3: "stores s3 = (stores s)(lp_Database s := t2)" "lp_Database s3 = lp_Database s" "lp_Collection s3 = Some (Collection_Rehash c1)"
      "CollectionHash (lp_Entry s3) = Collection_Hash (CR L) (Collection_Rehash c1)"
      "PostCount (lp_Entry s3) = wrap64 (PostCount (lp_Entry s) + 1)"
    and s4: "SignEntry (CR L) s3 = (Ok (), s4)" "SaveEntry L s4 = (Ok (), s')"
    by (rule AddPost_steps [OF run])
  have "\<exists>j. ins = Inr j"
  proof (cases ins)
    case (Inl e)
    then have "i div int PieceSize = - 1" using ins(2) by (simp add: PieceSize_def)
    with pc QueryPiece_negative [of False t1] show ?thesis by auto
  qed simp
  then have i: "InsertPost (PQ L) p t = (Ok i, t1)"
    using ins t(1) by (auto simp: attempt_def split: prod.splits res.splits)
  note ok = InsertPost_ok [OF t(2,3,5) i]
  have t1: "pinv (PQ L) t1" using preservesD [OF InsertPost_inv [OF assms(2)] t(2) i] .
  have z: "i div int PieceSize = 0" using ok(1) t(4) by (simp add: PieceSize_def)
  have "piece_rows t1 0 = post_tbl t1" using t(4) ok(3) by (intro piece_rows_small) (simp add: PieceSize_def)
  then have pc': "pc = \<lparr>Piece_Id = 0, Posts = [], hashed = piece_text (post_tbl t1)\<rparr>" "t2 = t1"
    using pc QueryPiece_rows [OF t1 ok(2), of 0 False] unfolding z by auto
  note add = Collection_Add_first [OF assms(1) c(2,3), of extra "piece_text (post_tbl t1)" c1]
  note fr = s3 SignEntry_frame [OF s4(1)] SaveEntry_ok [OF s4(2)]
  show ?thesis
    using that [OF i, of "Collection_Rehash c1"] fr add c0 c(1) pc' by (simp add: Collection_Hash_def Collection_Rehash_def)
qed


text \<open>\<open>AddPost\<close> crashes the node when the database does not store the post: the identifier -1 of the failed insertion is
  taken for the number of a piece, the query for that piece fails, and the nil piece is dereferenced. The error
  of the insertion is never looked at.\<close>

theorem AddPost_failed_insert_panics:
  assumes "Now_Unix (world s) = (Ok now, w)" "Post_Valid now p = Ok ()"
    and "InsertPost (PQ L) p (stores s (lp_Database s)) = (Err e, t)"
  shows "fst (lp_AddPost L extra p b s) = Panic"
proof -
  obtain e' where "QueryPiece (word_of_int (- 1)) False t = (Err e', t)" using QueryPiece_negative by blast
  moreover have "(- 1) div int PieceSize = - 1" by (simp add: PieceSize_def)
  ultimately show ?thesis
    using assms by (simp add: lp_AddPost_def bind_def zoom_def lift_res_def modify_def attempt_def on_db_def on_store_def gets_def
        panic_def Let_def)
qed

text \<open>The thousandth post crashes the node that publishes it. The post has the number 1000, which is taken to be in the second
  piece although it is the last of the first; the hash of the empty second piece is copied behind the only
  hash of the list, which panics when the list was allocated for one hash.\<close>

theorem AddPost_thousandth_panics:
  assumes "Now_Unix (world s) = (Ok now, w)" "Post_Valid now p = Ok ()" "crypto_ok (CR L)" "text_affinity_ok (PQ L)"
    and t: "t = stores s (lp_Database s)" "pinv (PQ L) t" "pfaults t = []" "length (post_tbl t) = 999"
      "text_affinity (PQ L) (InfoHash p) \<notin> InfoHash ` set (post_tbl t)"
    and c: "lp_Collection s = Some c" "slen (HashList c) = 32" "scap (HashList c) < 64"
  shows "fst (lp_AddPost L extra p b s) = Panic"
proof -
  have "\<not> list_ex (\<lambda>r. InfoHash r = text_affinity (PQ L) (InfoHash p)) (post_tbl t)" using t(5) by (force simp: list_ex_iff)
  then obtain t1 where i: "InsertPost (PQ L) p t = (Ok 1000, t1)"
    using t(3,4) max_Id [OF t(2)] by (simp add: InsertPost_def sql_insert_post_def bind_def Let_def)
  note ok = InsertPost_ok [OF t(2,3,5) i]
  have t1: "pinv (PQ L) t1" using preservesD [OF InsertPost_inv [OF assms(4)] t(2) i] .
  have "piece_rows t1 1 = []" using ok(3) t(4) by (simp add: piece_rows_def PieceSize_def)
  then have q: "QueryPiece 1 False t1 = (Ok \<lparr>Piece_Id = 1, Posts = [], hashed = []\<rparr>, t1)"
    using QueryPiece_rows [OF t1 ok(2), of 1 False] by (simp add: PieceSize_def)
  have "Collection_Add (CR L) extra \<lparr>Piece_Id = 1, Posts = [], hashed = []\<rparr> c = Panic"
    using c(2,3) by (simp add: Collection_Add_def Let_def)
  moreover have "1000 div int PieceSize = 1" by (simp add: PieceSize_def)
  ultimately show ?thesis
    using assms(1,2) i q c(1) t(1)
    by (simp add: lp_AddPost_def bind_def zoom_def lift_res_def modify_def attempt_def on_db_def on_store_def gets_def
        panic_def Let_def the_collection_def ret_def)
qed

section \<open>Saving the entry succeeds\<close>

lemma SignEntry_run:
  assumes "crypto_ok C" "length (privateKey s) = PrivateKeySize" "length (Signature (lp_Entry s)) = SignatureSize"
    "Now_Unix (world s) = (Ok now, w)"
  shows "SignEntry C s = (Ok (), s\<lparr>world := w, lp_Entry := (lp_Entry s)\<lparr>Updated := word_of_int now, Signature :=
     ed_sign C (privateKey s) (to_bytes (signed_text ((lp_Entry s)\<lparr>Updated := word_of_int now\<rparr>)))\<rparr>\<rparr>)"
  using assms crypto_ok_lengths(3) [OF assms(1)]
  by (simp add: SignEntry_def bind_def zoom_def modify_def gets_def lift_res_def ed25519_Sign_def copy_into_def)

lemma Insert_no_seeds:
  assumes "ndb_inv s" "faults (conn s) = []" "entry_valid C e" "\<not> bad_args e" "Seeds e = []" "Seeding e = []"
  obtains d where "Insert C q e s = (Ok 1, d)"
proof (cases "row_of q (conn s) (address_key (Address e))")
  case None
  obtain t where "Insert C q e s = bind (insertEntrySeeds q e) (\<lambda>_. ret 1) ((touched s t)\<lparr>conn := with_row q e (conn s)\<rparr>)"
    by (rule Insert_new [OF assms(1-4) None])
  with assms(5,6) that show ?thesis by (simp add: insertEntrySeeds_def bind_def ret_def)
next
  case (Some r)
  show ?thesis by (rule Insert_known [OF assms(1-4) Some]) (rule that)
qed

lemma SaveEntry_run:
  assumes "crypto_ok (CR L)" "length (privateKey s) = PrivateKeySize" "length (Signature (lp_Entry s)) = SignatureSize"
    and "Now_Unix (world s) = (Ok now, w)" "0 \<le> now" "now < 2 ^ 63"
    and "ndb_inv (ndb s)" "faults (conn (ndb s)) = []" "fs_faults (lp_files s) = []"
    and e: "PublicKey (lp_Entry s) = drop 32 (privateKey s)" "length (Raw (Address (lp_Entry s))) = 20" "length (Name (lp_Entry s)) \<le> 32"
      "length (Desc (lp_Entry s)) \<le> 160" "PublicAddress (lp_Entry s) \<noteq> []" "length (PublicAddress (lp_Entry s)) < 253"
      "Port (lp_Entry s) \<le> 65535" "Seeds (lp_Entry s) = []" "Seeding (lp_Entry s) = []"
  obtains s' where "SaveEntry L s = (Ok (), s')"
proof -
  let ?e = "(lp_Entry s)\<lparr>Updated := word_of_int now\<rparr>"
  let ?f = "?e\<lparr>Signature := ed_sign (CR L) (privateKey s) (to_bytes (signed_text ?e))\<rparr>"
  have v: "entry_valid (CR L) ?f"
    by (rule sign_entry_valid [OF assms(1,2)]) (use e in simp_all)
  have b: "\<not> bad_args ?f" using assms(5,6) by (simp add: bad_args_def sint_sbintrunc' signed_take_bit_int_eq_self)
  obtain d where "Insert (CR L) (SQ L) ?f (ndb s) = (Ok 1, d)"
    by (rule Insert_no_seeds [OF assms(7,8) v b]) (use e in simp_all)
  then show ?thesis
    using that SignEntry_run [OF assms(1-4)] assms(9)
    by (simp add: SaveEntry_def bind_def gets_def zoom_def DHT_Insert_def WriteFile_def fs_call_def modify_def)
qed

definition pub_node :: node where
  "pub_node = demo_node\<lparr>lp_Entry := (unsigned_entry 5 ''a'')\<lparr>Address := demo_address, Signature := replicate SignatureSize 0\<rparr>\<rparr>"

lemma pub_node_sel [simp]:
  "lp_Database pub_node = ''./data/posts.db''" "stores pub_node = (\<lambda>_. empty_pstore)" "lp_Collection pub_node = Some NewCollection"
  "world pub_node = demo_world" "privateKey pub_node = demo_sk" "lp_files pub_node = \<lparr>files = (\<lambda>_. None), fs_faults = []\<rparr>"
  "ndb pub_node = \<lparr>rtab = new_table demo_address, conn = empty_store, disk = (\<lambda>_. None)\<rparr>"
  by (simp_all add: pub_node_def demo_node_def fresh_node_def)

lemma demo_now: "Now_Unix demo_world = (Ok 0, demo_world)"
  by (simp add: Now_Unix_def Now_def demo_world_def bind_def ret_def)

lemma demo_new_inv: "ndb_inv \<lparr>rtab = new_table demo_address, conn = empty_store, disk = (\<lambda>_. None)\<rparr>"
  by (simp add: ndb_inv_def new_table_inv demo_address_Raw)

lemma demo_AddPost: obtains s' where "lp_AddPost demo_libs [] (numbered_post 0) False pub_node = (Ok 1, s')"
proof -
  obtain t1 where i: "InsertPost demo_psqlite (numbered_post 0) empty_pstore = (Ok 1, t1)"
    by (simp add: InsertPost_def sql_insert_post_def bind_def empty_pstore_def Let_def)
  then have t1: "t1 = filled (Suc 0)" by simp
  have p: "pinv demo_psqlite t1" "pfaults t1 = []"
    unfolding t1 by (rule pdb_reach_inv [OF filled_reach demo_psqlite_ok]) (rule filled_simps)
  obtain c1 where c1: "Collection_Add demo_crypto [] \<lparr>Piece_Id = 0, Posts = [], hashed = piece_text (piece_rows t1 0)\<rparr> NewCollection = Ok c1"
    by (simp add: Collection_Add_def NewCollection_def Let_def slice_of_def)
  have q: "QueryPiece 0 False t1 = (Ok \<lparr>Piece_Id = 0, Posts = [], hashed = piece_text (piece_rows t1 0)\<rparr>, t1)"
    using QueryPiece_rows [OF p, of 0 False] by simp
  let ?c = "Collection_Rehash c1" and ?f = "''./data/collection.dat''"
  let ?s = "pub_node\<lparr>world := demo_world, stores := (\<lambda>_. empty_pstore)(''./data/posts.db'' := t1), lp_Collection := Some ?c,
    lp_files := \<lparr>files = (\<lambda>_. None)(?f \<mapsto> sdata (HashList ?c)), fs_faults = []\<rparr>,
    lp_Entry := (lp_Entry pub_node)\<lparr>PostCount := wrap64 (PostCount (lp_Entry pub_node) + 1), CollectionHash := Collection_Hash demo_crypto ?c\<rparr>\<rparr>"
  have k: "length demo_sk = PrivateKeySize" by (simp add: demo_sk_def PrivateKeySize_def)
  have e: "Signature (lp_Entry pub_node) = replicate SignatureSize 0" "Address (lp_Entry pub_node) = demo_address"
    "PublicKey (lp_Entry pub_node) = drop 32 demo_sk" "Name (lp_Entry pub_node) = ''a''" "Desc (lp_Entry pub_node) = []"
    "PublicAddress (lp_Entry pub_node) = ''host''" "Port (lp_Entry pub_node) = 5050" "Seeds (lp_Entry pub_node) = []" "Seeding (lp_Entry pub_node) = []"
    by (simp_all add: pub_node_def unsigned_entry_def empty_entry_def)
  let ?s2 = "snd (SignEntry demo_crypto ?s)"
  have s2: "SignEntry demo_crypto ?s = (Ok (), ?s2)"
    by (simp add: SignEntry_run [OF demo_crypto_ok, where now = 0 and w = demo_world] k e demo_now)
  obtain s3 where s3: "SaveEntry demo_libs ?s2 = (Ok (), s3)"
    by (rule SaveEntry_run [where now = 0 and w = demo_world and L = demo_libs and s = ?s2])
      (simp_all add: SignEntry_run [OF demo_crypto_ok, where now = 0 and w = demo_world] k e demo_now demo_crypto_ok demo_new_inv
        crypto_ok_lengths(3) [OF demo_crypto_ok] demo_address_Raw)
  obtain s2 where s2': "SignEntry demo_crypto ?s = (Ok (), s2)" "SaveEntry demo_libs s2 = (Ok (), s3)" using s2 s3 by blast
  have "lp_AddPost demo_libs [] (numbered_post 0) False pub_node = (Ok 1, s3)"
    using i q c1 s2'
    by (simp add: lp_AddPost_def bind_def zoom_def lift_res_def modify_def attempt_def on_db_def on_store_def gets_def
        Let_def the_collection_def ret_def demo_now Post_Valid_def numbered_post_def demo_post_def empty_post_def PieceSize_def
        ignore_def Collection_Save_def WriteFile_def fs_call_def)
  then show ?thesis by (rule that)
qed


theorem AddPost_failed_insert_panics_witness:
  "fst (lp_AddPost demo_libs [] (demo_post 0) False (pub_node\<lparr>stores := (\<lambda>_. empty_pstore\<lparr>pfaults := [True]\<rparr>)\<rparr>)) = Panic"
  by (rule AddPost_failed_insert_panics [where now = 0 and w = demo_world and e = ErrDriver and t = empty_pstore])
    (simp_all add: demo_now Post_Valid_def demo_post_def empty_post_def InsertPost_def bind_def db_call_def empty_pstore_def)

theorem AddPost_thousandth_panics_witness:
  "fst (lp_AddPost demo_libs [] (numbered_post 999) False
     (pub_node\<lparr>stores := (\<lambda>_. filled 999), lp_Collection := Some (NewCollection\<lparr>HashList := slice_of (replicate 32 0)\<rparr>)\<rparr>)) = Panic"
proof -
  have p: "pinv demo_psqlite (filled 999)" by (rule pdb_reach_inv [OF filled_reach demo_psqlite_ok])
  have n: "text_affinity demo_psqlite (InfoHash (numbered_post 999)) \<notin> InfoHash ` set (post_tbl (filled 999))"
    by (auto simp: filled_eq numbered_post_def demo_psqlite_def dest!: arg_cong [of _ _ length])
  show ?thesis
    by (rule AddPost_thousandth_panics [where now = 0 and w = demo_world and t = "filled 999"
          and c = "NewCollection\<lparr>HashList := slice_of (replicate 32 0)\<rparr>"])
      (use p n in \<open>simp_all add: demo_now demo_crypto_ok demo_psqlite_ok Post_Valid_def numbered_post_def demo_post_def empty_post_def
         slice_of_def del: filled.simps\<close>)
qed

end
