(* ===== verification/Resolve_Props.thy ===== *)
theory Resolve_Props
  imports Publish_Props Find_Closest
begin

text \<open>
  Finding the entry of an address: what \<open>Resolve\<close> may return whatever the asked peers answer, and how
  far it searches.
\<close>

section \<open>Answers of peers\<close>

lemma Client_Query_valid: "Client_Query C M a c = (Ok e, c') \<Longrightarrow> entry_valid C e"
  unfolding Client_Query_def
  by (auto elim!: bind_OkE simp: fail_def ret_def lift_res_def Entry_Verify_iff split: if_splits)

lemma with_stream_Ok:
  assumes "with_stream p m s = (Ok x, s')"
  shows "\<exists>c c'. m c = (Ok x, c')"
  using assms unfolding with_stream_def
  by (auto elim!: bind_OkE simp: deferred_def split: prod.splits) blast

lemma Peer_Query_valid: "Peer_Query L p a s = (Ok e, s') \<Longrightarrow> entry_valid (CR L) e"
  unfolding Peer_Query_def by (auto elim!: bind_OkE dest!: with_stream_Ok Client_Query_valid)

lemma query_result_Some: "query_result L p a s = (Ok r, s') \<Longrightarrow> \<exists>e. r = Some e \<and> entry_valid (CR L) e"
  unfolding query_result_def by (auto elim!: bind_OkE simp: ret_def dest: Peer_Query_valid)

section \<open>The step never recurses\<close>

lemma zoom_Ok: "zoom get upd m s = (Ok x, s') \<Longrightarrow> \<exists>t. m (get s) = (Ok x, t) \<and> s' = upd (\<lambda>_. t) s"
  by (auto simp: zoom_def split: prod.splits)

lemma bind_cong_Ok:
  assumes "\<And>x s'. m s = (Ok x, s') \<Longrightarrow> f x s' = g x s'"
  shows "bind m f s = bind m g s"
  using assms by (auto simp: bind_def split: res.splits prod.splits)

text \<open>The part of a step up to the answer of the asked peer.\<close>

lemma resolveStep_flat:
  "resolveStep L (Suc n) addr (Some e) =
     bind (gets fst) (\<lambda>depth.
       if depth = 0 then fail RecursionLimit
       else
         bind (modify (apfst (\<lambda>d. d - 1))) (\<lambda>_.
         bind (at_node (gets (PM_GetPeer (Address e)))) (\<lambda>known.
         bind (case known of
                 Some p \<Rightarrow> ret p
               | None \<Rightarrow> at_node (PM_ConnectPeerDirect L (PublicAddress e @ '':'' @ Itoa (Port e)))) (\<lambda>p.
         at_node (query_result L p addr)))))"
proof -
  have q: "bind (at_node (query_result L p addr)) (case_option f (\<lambda>entry. ret (Some entry))) =
      at_node (query_result L p addr)" for p f
    by (rule ext)
      (auto simp: bind_def ret_def zoom_def split: prod.splits res.splits option.splits dest: query_result_Some)
  show ?thesis unfolding resolveStep.simps option.case q ..
qed

lemma resolveStep_depth: "resolveStep L (Suc n) addr eo = resolveStep L (Suc m) addr eo"
proof (cases eo)
  case (Some e)
  show ?thesis unfolding Some resolveStep_flat [of L n] resolveStep_flat [of L m] ..
qed (simp only: resolveStep.simps option.case)

declare resolveStep.simps [simp del]

lemma resolveStep_Ok:
  assumes "resolveStep L (Suc n) addr eo t = (Ok r, t')"
  shows "\<exists>e. r = Some e \<and> entry_valid (CR L) e"
  using assms
  by (cases eo)
    (auto simp: resolveStep_flat resolveStep.simps(2) [of L n addr None] gets_def fail_def panic_def split: if_splits elim!: bind_OkE dest!: zoom_Ok query_result_Some)

lemma resolveStep_limit: "resolveStep L (Suc n) addr eo (0, s) = (Err RecursionLimit, (0, s))"
  by (simp add: resolveStep.simps fail_def)

lemma resolveStep_six_limit: "resolveStep L 6 addr eo (0, s) = (Err RecursionLimit, (0, s))"
proof -
  have "(6::nat) = Suc 5" by simp
  then show ?thesis by (simp only: resolveStep_limit)
qed

lemma at_node_fst: "preserves (\<lambda>t. fst t = d) (at_node m)"
  by (auto simp: preserves_def zoom_def split: prod.splits)

lemma resolveStep_counts:
  assumes "d \<noteq> 0"
  shows "fst (snd (resolveStep L (Suc n) addr eo (d, s))) = d - 1"
proof (cases eo)
  case (Some e)
  have "preserves (\<lambda>t. fst t = d - 1)
    (bind (at_node (gets (PM_GetPeer (Address e)))) (\<lambda>known.
     bind (case known of
             Some p \<Rightarrow> ret p
           | None \<Rightarrow> at_node (PM_ConnectPeerDirect L (PublicAddress e @ '':'' @ Itoa (Port e)))) (\<lambda>p.
     at_node (query_result L p addr))))"
    by (intro proc_intros at_node_fst)
  from preserves_snd [OF this, of "(d - 1, s)"] show ?thesis
    using assms by (simp add: Some resolveStep_flat)
qed (use assms in \<open>simp add: resolveStep.simps panic_def\<close>)

section \<open>The loop\<close>

lemma resolve_insert_run:
  "ignore (at_node (on_dht m)) t = (Ok (), t') \<Longrightarrow> snd t' = (snd t)\<lparr>ndb := snd (m (ndb (snd t)))\<rparr>"
  by (cases t) (auto simp: ignore_def attempt_def bind_def zoom_def ret_def split: res.splits prod.splits)

lemma resolve_loop_Ok:
  assumes "resolve_loop L addr es t = (Ok e, t')"
  shows "entry_valid (CR L) e \<and> Address_Equals (Address e) addr \<and>
    (\<exists>u. snd t' = u\<lparr>ndb := snd (DHT_Insert (CR L) (SQ L) e (ndb u))\<rparr>)"
  using assms
proof (induction es arbitrary: t)
  case (Cons i es)
  from Cons.prems obtain r u where r: "attempt (resolveStep L 6 addr i) t = (Ok r, u)"
    and c: "(case r of
         Inl err \<Rightarrow> if err = RecursionLimit then fail err else resolve_loop L addr es
       | Inr None \<Rightarrow> resolve_loop L addr es
       | Inr (Some entry) \<Rightarrow>
           if Address_Equals (Address entry) addr
           then bind (ignore (at_node (on_dht (DHT_Insert (CR L) (SQ L) entry)))) (\<lambda>_. ret entry)
           else resolve_loop L addr es) u = (Ok e, t')"
    by (auto elim!: bind_OkE)
  show ?case
  proof (cases "\<exists>f. r = Inr (Some f) \<and> Address_Equals (Address f) addr")
    case True
    then obtain f where f: "r = Inr (Some f)" "Address_Equals (Address f) addr" by blast
    from r f(1) have "resolveStep L (Suc 5) addr i t = (Ok (Some f), u)"
      by (auto simp: attempt_def numeral_eq_Suc split: res.splits prod.splits)
    from resolveStep_Ok [OF this] have v: "entry_valid (CR L) f" by blast
    from c f have "bind (ignore (at_node (on_dht (DHT_Insert (CR L) (SQ L) f)))) (\<lambda>_. ret f) u = (Ok e, t')" by simp
    then obtain w where "ignore (at_node (on_dht (DHT_Insert (CR L) (SQ L) f))) u = (Ok (), w)" "e = f" "t' = w"
      by (auto elim!: bind_OkE simp: ret_def)
    with v f(2) resolve_insert_run show ?thesis by blast
  next
    case False
    with c have "resolve_loop L addr es u = (Ok e, t')"
      by (auto simp: fail_def split: sum.splits option.splits if_splits)
    then show ?thesis by (rule Cons.IH)
  qed
qed (simp add: fail_def)

lemma resolve_loop_limit:
  assumes "0 \<le> d" "nat d < length xs"
  shows "resolve_loop L addr (xs @ ys) (d, s) = resolve_loop L addr xs (d, s)"
  using assms
proof (induction xs arbitrary: d s)
  case (Cons i xs)
  show ?case
  proof (cases "d = 0")
    case True
    then show ?thesis by (simp add: attempt_def bind_def resolveStep_six_limit fail_def)
  next
    case False
    have f: "fst (snd (attempt (resolveStep L 6 addr i) (d, s))) = d - 1"
      using resolveStep_counts [OF False, of L 5 addr i s] by simp
    have ih: "resolve_loop L addr (xs @ ys) (d - 1, s') = resolve_loop L addr xs (d - 1, s')" for s'
      using Cons False by (intro Cons.IH) auto
    show ?thesis unfolding append_Cons resolve_loop.simps
    proof (rule bind_cong_Ok)
      fix r u assume "attempt (resolveStep L 6 addr i) (d, s) = (Ok r, u)"
      with f obtain s' where u: "u = (d - 1, s')" by (metis prod.collapse snd_conv)
      show "(case r of
           Inl err \<Rightarrow> if err = RecursionLimit then fail err else resolve_loop L addr (xs @ ys)
         | Inr None \<Rightarrow> resolve_loop L addr (xs @ ys)
         | Inr (Some entry) \<Rightarrow>
             if Address_Equals (Address entry) addr
             then bind (ignore (at_node (on_dht (DHT_Insert (CR L) (SQ L) entry)))) (\<lambda>_. ret entry)
             else resolve_loop L addr (xs @ ys)) u =
        (case r of
           Inl err \<Rightarrow> if err = RecursionLimit then fail err else resolve_loop L addr xs
         | Inr None \<Rightarrow> resolve_loop L addr xs
         | Inr (Some entry) \<Rightarrow>
             if Address_Equals (Address entry) addr
             then bind (ignore (at_node (on_dht (DHT_Insert (CR L) (SQ L) entry)))) (\<lambda>_. ret entry)
             else resolve_loop L addr xs) u"
        unfolding u by (simp add: ih split: sum.split option.split)
    qed
  qed
qed simp

lemma Resolve_run:
  assumes "\<not> Address_Equals addr (lp_Address s)"
  shows "Resolve L addr s =
    (case DHT_Query (SQ L) addr (ndb s) of
       (Ok (Some kv), d) \<Rightarrow> (Ok kv, s\<lparr>ndb := d\<rparr>)
     | (Ok None, d) \<Rightarrow> resolve_closest L addr (s\<lparr>ndb := d\<rparr>)
     | (Err e, d) \<Rightarrow> if e = ErrNoRows then resolve_closest L addr (s\<lparr>ndb := d\<rparr>) else (Err e, s\<lparr>ndb := d\<rparr>)
     | (Panic, d) \<Rightarrow> (Panic, s\<lparr>ndb := d\<rparr>))"
proof -
  obtain r d where r: "DHT_Query (SQ L) addr (ndb s) = (r, d)" by fastforce
  with assms show ?thesis
    by (cases r) (simp_all add: Resolve_def, simp_all add: bind_def attempt_def zoom_def ret_def fail_def split: option.splits)
qed

section \<open>A peer that answers\<close>

lemma Peer_Ping_ok:
  "SM_GetSession (p_streams (the_peer p s)) \<Longrightarrow> pings (world s) = [] \<Longrightarrow> Peer_Ping p s = (Ok (), s)"
  by (simp add: Peer_Ping_def zoom_def next_ping_def)

lemma UpdateSeen_run:
  obtains s' where "UpdateSeen p s = (Ok (), s')" "the_peer p s' = the_peer p s" "ndb s' = ndb s"
    "streams (world s') = streams (world s)" "mux_faults (world s') = mux_faults (world s)"
proof (cases "p_managed (the_peer p s)")
  case False
  then show ?thesis by (intro that [of s]) (simp_all add: UpdateSeen_def ret_def)
next
  case True
  obtain t w where w: "Now (world s) = (Ok t, w)" "streams w = streams (world s)" "mux_faults w = mux_faults (world s)"
    by (cases "ticks (world s)") (simp_all add: Now_def)
  let ?s = "s\<lparr>world := w, peerSeen := AList.update (peer_key (p_address (the_peer p s))) t (peerSeen s)\<rparr>"
  show ?thesis
    using True w by (intro that [of ?s]) (simp_all add: UpdateSeen_def bind_def gets_def zoom_def modify_def the_peer_def)
qed

lemma with_stream_run:
  assumes "SM_GetSession (p_streams (the_peer p s))" "pings (world s) = []" "streams (world s) = Ok c # ss"
    "mux_faults (world s) = []" "fst (m c) = r"
  obtains s' where "with_stream p m s = (r, s')" "ndb s' = ndb s"
proof -
  obtain u where u: "UpdateSeen p s = (Ok (), u)" "the_peer p u = the_peer p s" "ndb u = ndb s"
    "streams (world u) = streams (world s)" "mux_faults (world u) = mux_faults (world s)"
    by (rule UpdateSeen_run)
  let ?u = "u\<lparr>world := (world u)\<lparr>streams := ss\<rparr>\<rparr>"
  have "Peer_OpenStream p s = (Ok c, ?u)"
    using assms Peer_Ping_ok [OF assms(1,2)] u
    by (simp add: Peer_OpenStream_def bind_def gets_def zoom_def next_stream_def mux_call_def lift_res_def ret_def)
  moreover obtain c' where "m c = (r, c')" using assms(5) by (metis prod.collapse)
  ultimately show ?thesis
    using u(3) by (intro that [of "snd (with_stream p m s)"]) (simp_all add: with_stream_def bind_def deferred_def)
qed

lemma resolveStep_answer:
  assumes "PM_GetPeer (Address n) s = Some p" "SM_GetSession (p_streams (the_peer p s))" "pings (world s) = []"
    "streams (world s) = Ok c # ss" "mux_faults (world s) = []" "fst (Client_Query (CR L) (MP L) addr c) = Ok e"
  obtains s' where "resolveStep L 6 addr (Some n) (6, s) = (Ok (Some e), (5, s'))" "ndb s' = ndb s"
proof -
  obtain s' where s': "with_stream p (Client_Query (CR L) (MP L) addr) s = (Ok e, s')" "ndb s' = ndb s"
    by (rule with_stream_run [OF assms(2-5), where m = "Client_Query (CR L) (MP L) addr"]) (rule assms(6))
  have "Peer_Query L p addr s = (Ok e, s')"
    using s' Peer_Ping_ok [OF assms(2,3)] by (simp add: Peer_Query_def bind_def)
  then have q: "query_result L p addr s = (Ok (Some e), s')" by (simp add: query_result_def bind_def ret_def)
  have "resolveStep L (Suc 5) addr (Some n) (6, s) = (Ok (Some e), (5, s'))"
    unfolding resolveStep_flat using assms(1) q by (simp add: bind_def zoom_def gets_def modify_def ret_def)
  with s'(2) show ?thesis by (intro that [of s']) simp_all
qed

section \<open>Two nodes\<close>

text \<open>A node that knows the peer at \<open>far_raw 0\<close> and is connected to it; that peer knows the one at \<open>far_raw 99\<close>.\<close>

definition far_entry :: entry where
  "far_entry = (let e = (unsigned_entry 5 ''a'')\<lparr>Address := peer_address (far_raw 99)\<rparr>
     in e\<lparr>Signature := ed_sign demo_crypto demo_sk (to_bytes (signed_text e))\<rparr>)"

definition far_node :: node where
  "far_node = demo_node\<lparr>ndb := demo_ndb\<lparr>conn := empty_store\<lparr>entry_tbl := [new_row demo_sqlite 1 (EncodeZif (far_raw 99)) far_entry]\<rparr>\<rparr>\<rparr>"

definition near_node :: node where
  "near_node = demo_node\<lparr>lpeer := (lpeer demo_node)\<lparr>p_address := demo_me\<rparr>, ndb := demo_full,
     peers := [(peer_key (peer_address (far_raw 0)), 0)],
     peer_heap := [empty_peer\<lparr>p_address := peer_address (far_raw 0), p_streams := empty_sm\<lparr>sm_client := True\<rparr>\<rparr>],
     world := demo_world\<lparr>streams := [Ok (side [entry_message (Some far_entry)])]\<rparr>\<rparr>"

lemma length_far_raw [simp]: "length (far_raw k) = 20"
  by (simp add: far_raw_def)

lemma far_entry_valid: "entry_valid demo_crypto far_entry" "\<not> bad_args far_entry" "exported far_entry = far_entry"
proof -
  show "entry_valid demo_crypto far_entry"
    unfolding far_entry_def Let_def
    by (rule sign_entry_valid [OF demo_crypto_ok])
      (simp_all add: unsigned_entry_def empty_entry_def demo_sk_def PrivateKeySize_def peer_address_def)
qed (simp_all add: far_entry_def Let_def bad_args_def unsigned_entry_def exported_def empty_entry_def)

lemma far_node_Query: "\<exists>d. DHT_Query demo_sqlite (peer_address (far_raw 99)) (ndb far_node) = (Ok (Some far_entry), d)"
proof -
  let ?r = "new_row demo_sqlite 1 (EncodeZif (far_raw 99)) far_entry"
  have c: "ndb_inv (ndb far_node)" "faults (conn (ndb far_node)) = []" "genuine (conn (ndb far_node))"
    by (simp_all add: far_node_def ndb_inv_def store_inv_def genuine_def demo_ndb_def new_table_inv demo_me_def peer_address_def)
  have row: "row_of demo_sqlite (conn (ndb far_node)) (address_key (peer_address (far_raw 99))) = Some ?r"
    by (simp add: row_of_def far_node_def peer_address_def)
  have e: "stored_entry (conn (ndb far_node)) ?r = far_entry"
    by (simp add: stored_entry_def entry_of_row_def new_row_def set_columns_def far_entry_def Let_def unsigned_entry_def empty_entry_def
        far_node_def seeds_of_def seeding_of_def entry_addresses_def raw_of_def b58.dec_enc)
  obtain t where "Query demo_sqlite (peer_address (far_raw 99)) (ndb far_node) =
      (Ok (Some (stored_entry (conn (ndb far_node)) ?r), int (rid ?r)), touched (ndb far_node) t)"
    by (rule Query_Some [OF c row])
  then show ?thesis unfolding e by (simp add: DHT_Query_def bind_def ret_def)
qed

lemma near_sel [simp]: "ndb near_node = demo_full" "lp_Address near_node = demo_me"
  by (simp_all add: near_node_def lp_Address_def)

lemma near_node_Query: "DHT_Query demo_sqlite (peer_address (far_raw 99)) demo_full = (Ok None, demo_full)"
proof -
  have "far_raw 0 \<noteq> far_raw 99" by (simp add: far_raw_def)
  then have "EncodeZif (far_raw 0) \<noteq> EncodeZif (far_raw 99)" by (simp add: b58.enc_inj)
  then show ?thesis
    using Query_None [of demo_full demo_sqlite "peer_address (far_raw 99)"]
    by (simp add: DHT_Query_def bind_def ret_def row_of_None_iff demo_full_def peer_address_def)
qed

lemma near_node_closest:
  obtains n rest d k d' where "DHT_FindClosest demo_sqlite (peer_address (far_raw 99)) demo_full = (Ok (Some n # rest), d)"
    "Address n = peer_address (far_raw 0)" "DHT_Insert demo_crypto demo_sqlite far_entry d = (Ok k, d')"
proof -
  let ?r = "new_row demo_sqlite 1 (EncodeZif (far_raw 0)) (demo_entry 5 ''a'')"
  have c: "faults (conn demo_full) = []" "genuine (conn demo_full)" "length (Raw (peer_address (far_raw 99))) = 20"
    by (simp_all add: demo_full_def genuine_def peer_address_def)
  obtain es d where d: "FindClosest demo_sqlite (peer_address (far_raw 99)) demo_full = (Ok es, d)" "settled (conn demo_full) d"
    using FindClosest_settled [OF demo_full_inv c, of demo_sqlite] by blast
  have "lookup_entry demo_sqlite (conn demo_full) (peer_address (far_raw 0)) = Some (stored_entry (conn demo_full) ?r)"
    by (simp add: lookup_entry_def row_of_def demo_full_def peer_address_def)
  with demo_full_FindClosest d(1) obtain rest where "es = Some (stored_entry (conn demo_full) ?r) # rest"
    by (auto simp: Let_def)
  moreover have "Address (stored_entry (conn demo_full) ?r) = peer_address (far_raw 0)"
    by (simp add: stored_entry_def raw_of_def b58.dec_enc)
  moreover obtain d' where "Insert demo_crypto demo_sqlite far_entry d = (Ok 1, d')"
    by (rule Insert_no_seeds [of d demo_crypto far_entry demo_sqlite])
      (use d(2) far_entry_valid in \<open>simp_all add: settled_def far_entry_def Let_def unsigned_entry_def empty_entry_def\<close>)
  ultimately show ?thesis using that d(1) by (simp add: DHT_FindClosest_def DHT_Insert_def)
qed

lemma near_Resolve_premises:
  "\<not> Address_Equals (peer_address (far_raw 99)) demo_me" "\<not> Address_Equals (peer_address (far_raw 99)) (lp_Address far_node)"
  "PM_GetPeer (peer_address (far_raw 0)) near_node = Some 0" "SM_GetSession (p_streams (the_peer 0 near_node))"
  "Address_Equals (Address far_entry) (peer_address (far_raw 99))"
  by (auto simp: Address_Equals_def peer_address_def far_raw_def demo_me_def demo_raw_def far_node_def lp_Address_def demo_node_def
      fresh_node_def demo_address_Raw near_node_def PM_GetPeer_def the_peer_def SM_GetSession_def far_entry_def Let_def unsigned_entry_def
      dest!: arg_cong [of _ _ hd])

section \<open>Properties\<close>

text \<open>C12: Whatever the asked peers answer, an entry \<open>Resolve\<close> returns is the node's own for its own address, or the one its
  database has for the address, or an entry with the requested address and a valid signature, which is then
  handed to the database.\<close>

theorem Resolve_sound:
  assumes "Resolve L addr s = (Ok e, s')"
  shows "(Address_Equals addr (lp_Address s) \<and> e = lp_Entry s \<and> s' = s) \<or>
    (\<not> Address_Equals addr (lp_Address s) \<and> (\<exists>d. DHT_Query (SQ L) addr (ndb s) = (Ok (Some e), d) \<and> s' = s\<lparr>ndb := d\<rparr>)) \<or>
    (\<not> Address_Equals addr (lp_Address s) \<and> entry_valid (CR L) e \<and> Address_Equals (Address e) addr \<and>
      (\<exists>t. s' = t\<lparr>ndb := snd (DHT_Insert (CR L) (SQ L) e (ndb t))\<rparr>))"
proof (cases "Address_Equals addr (lp_Address s)")
  case True
  with assms show ?thesis by (auto simp: Resolve_def gets_def)
next
  case False
  have c: ?thesis if "resolve_closest L addr u = (Ok e, s')" for u
  proof -
    from that obtain es v t where "resolve_loop L addr es (6, v) = (Ok e, t)" "s' = snd t"
      unfolding resolve_closest_def by (auto elim!: bind_OkE split: prod.splits)
    with resolve_loop_Ok [OF this(1)] False show ?thesis by blast
  qed
  obtain r d where r: "DHT_Query (SQ L) addr (ndb s) = (r, d)" by fastforce
  have "(\<exists>kv. r = Ok (Some kv) \<and> e = kv \<and> s' = s\<lparr>ndb := d\<rparr>) \<or> resolve_closest L addr (s\<lparr>ndb := d\<rparr>) = (Ok e, s')"
    using assms unfolding Resolve_run [OF False] r by (simp split: res.splits option.splits if_splits)
  with c False r show ?thesis by blast
qed

theorem Resolve_sound_witness:
  "\<exists>s' d. Resolve demo_libs (peer_address (far_raw 99)) far_node = (Ok far_entry, s') \<and>
     (DHT_Query demo_sqlite (peer_address (far_raw 99)) (ndb far_node) = (Ok (Some far_entry), d) \<or> entry_valid demo_crypto far_entry)"
proof -
  obtain d where "DHT_Query demo_sqlite (peer_address (far_raw 99)) (ndb far_node) = (Ok (Some far_entry), d)" using far_node_Query by blast
  then have r: "Resolve demo_libs (peer_address (far_raw 99)) far_node = (Ok far_entry, far_node\<lparr>ndb := d\<rparr>)"
    using near_Resolve_premises(2) by (simp add: Resolve_run)
  from Resolve_sound [OF r] r near_Resolve_premises(2) show ?thesis by auto
qed





end
