(* ===== verification/Mirror_Props.thy ===== *)
theory Mirror_Props
  imports Resolve_Props
begin

text \<open>
  What mirroring can write: whatever a remote peer sends, only posts that hash to a list the signed entry of the
  publisher commits to.
\<close>

section \<open>What leaves the post databases alone\<close>

text \<open>
  The content of the post databases, without the scripts of future failures. A view \<open>v\<close> of the databases is kept,
  either this content or all of them.
\<close>

definition posts_of :: "node \<Rightarrow> string \<Rightarrow> pstore" where
  "posts_of s = (\<lambda>path. (stores s path)\<lparr>pfaults := []\<rparr>)"

definition no_faults :: "(string \<Rightarrow> pstore) \<Rightarrow> string \<Rightarrow> pstore" where
  "no_faults st = (\<lambda>path. (st path)\<lparr>pfaults := []\<rparr>)"

definition keeps_stores :: "((string \<Rightarrow> pstore) \<Rightarrow> 'v) \<Rightarrow> 'v \<Rightarrow> nat \<Rightarrow> node \<Rightarrow> bool" where
  "keeps_stores v x n s \<longleftrightarrow> v (stores s) = x \<and> length (peer_heap s) = n"

abbreviation keeps_posts :: "(string \<Rightarrow> pstore) \<Rightarrow> nat \<Rightarrow> node \<Rightarrow> bool" where
  "keeps_posts \<equiv> keeps_stores no_faults"

lemma keeps_posts_def: "keeps_posts x n s \<longleftrightarrow> posts_of s = x \<and> length (peer_heap s) = n"
  by (simp add: keeps_stores_def no_faults_def posts_of_def)

named_theorems keeps_intros \<open>operations that leave the post databases alone\<close>

lemma keeps_stores_frame [simp]:
  "keeps_stores v x n (s\<lparr>ndb := a\<rparr>) = keeps_stores v x n s" "keeps_stores v x n (s\<lparr>lp_Entry := b\<rparr>) = keeps_stores v x n s"
  "keeps_stores v x n (s\<lparr>world := c\<rparr>) = keeps_stores v x n s" "keeps_stores v x n (s\<lparr>lp_files := d\<rparr>) = keeps_stores v x n s"
  "keeps_stores v x n (s\<lparr>peerSeen := e\<rparr>) = keeps_stores v x n s" "keeps_stores v x n (s\<lparr>seedManagers := f\<rparr>) = keeps_stores v x n s"
  "keeps_stores v x n (upd_peer p g s) = keeps_stores v x n s"
  by (simp_all add: keeps_stores_def upd_peer_def)

lemma keeps_zoom [keeps_intros]:
  "preserves (keeps_stores v x n) (on_dht m1)" "preserves (keeps_stores v x n) (on_world m2)" "preserves (keeps_stores v x n) (on_files m3)"
  by (auto simp: preserves_def zoom_def split: prod.splits)

lemma keeps_modify [keeps_intros]:
  "preserves (keeps_stores v x n) (modify (\<lambda>s. s\<lparr>lp_Entry := f1 s\<rparr>))" "preserves (keeps_stores v x n) (modify (upd_peer p g))"
  "preserves (keeps_stores v x n) (modify (\<lambda>s. s\<lparr>peerSeen := f2 s\<rparr>))" "preserves (keeps_stores v x n) (modify (\<lambda>s. s\<lparr>seedManagers := f3 s\<rparr>))"
  by (simp_all add: preserves_def modify_def)

lemma keeps_count [keeps_intros]: "preserves (keeps_posts x n) (on_store path PostCount_db)"
  by (auto simp: preserves_def on_store_def PostCount_db_def db_call_def attempt_def bind_def keeps_posts_def posts_of_def
      fun_eq_iff split: list.splits prod.splits)

lemma keeps_entry_ops [keeps_intros]:
  "preserves (keeps_stores v x n) (SignEntry C)" "preserves (keeps_stores v x n) (Peer_Ping p)" "preserves (keeps_stores v x n) (UpdateSeen p)"
  "preserves (keeps_stores v x n) (AddEntry L e)" "preserves (keeps_stores v x n) (QueryEntry L a)"
  unfolding SignEntry_def Peer_Ping_def UpdateSeen_def AddEntry_def QueryEntry_def by (intro proc_intros keeps_intros)+

lemma keeps_open [keeps_intros]: "preserves (keeps_stores v x n) (Peer_OpenStream p)" "preserves (keeps_stores v x n) (SaveEntry L)"
  unfolding Peer_OpenStream_def SaveEntry_def by (intro proc_intros keeps_intros)+

lemma keeps_with_stream [keeps_intros]: "preserves (keeps_stores v x n) (with_stream p m)"
  unfolding with_stream_def by (intro preserves_bind keeps_intros preservesI) (simp split: prod.splits)

lemma keeps_query [keeps_intros]: "preserves (keeps_stores v x n) (Peer_Query L p a)" "preserves (keeps_stores v x n) (AddSeeding L e)"
  "preserves (keeps_stores v x n) (AddSeedManager L a)"
  unfolding Peer_Query_def AddSeeding_def AddSeedManager_def NewSeedManager_def by (intro proc_intros keeps_intros)+

lemma keeps_get_entry [keeps_intros]: "preserves (keeps_stores v x n) (Peer_GetEntry L p)"
  "preserves (keeps_stores v x n) (Peer_RequestAddPeer L p e)"
  unfolding Peer_GetEntry_def Peer_RequestAddPeer_def by (intro proc_intros keeps_intros)+

lemma keeps_entry [keeps_intros]: "preserves (keeps_stores v x n) (Peer_Entry L p)"
  unfolding Peer_Entry_def by (intro proc_intros keeps_intros)

lemma keeps_mirror_entry [keeps_intros]: "preserves (keeps_stores v x n) (mirror_entry L p)"
  unfolding mirror_entry_def by (intro proc_intros keeps_intros)

section \<open>What is accepted\<close>

lemma mirror_entry_valid:
  assumes "mirror_entry L p s = (Ok e, s')" "p < length (peer_heap s)"
  shows "entry_valid (CR L) e"
proof (cases "p_seed (the_peer p s)")
  case True
  with assms(1) show ?thesis
    by (auto simp: mirror_entry_def panic_def dest: Peer_Query_valid split: option.splits)
next
  case False
  then obtain e1 s1 where g: "Peer_GetEntry L p s = (Ok e1, s1)" "Peer_Entry L p s1 = (Ok e, s')"
    using assms(1) by (auto simp: mirror_entry_def elim!: bind_OkE)
  from g(1) obtain u where u: "entry_valid (CR L) e1" "s1 = upd_peer p (\<lambda>pr. pr\<lparr>p_entry := Some e1\<rparr>) u"
    unfolding Peer_GetEntry_def
    by (auto elim!: bind_OkE simp: fail_def ret_def modify_def gets_def split: if_splits) (blast dest: Peer_Query_valid)
  have "keeps_posts (posts_of s) (length (peer_heap s)) s1"
    by (rule preservesD [OF keeps_get_entry(1) _ g(1)]) (simp add: keeps_posts_def)
  then have "p < length (peer_heap u)" using assms(2) u(2) by (simp add: keeps_posts_def upd_peer_def)
  with u g(2) show ?thesis by (simp add: Peer_Entry_def the_peer_def upd_peer_def ret_def)
qed

lemma Client_Collection_verified:
  assumes "Client_Collection C M a e c = (Ok mcol, c')"
  shows "MessageCollection_Verify C mcol (CollectionHash e) = Ok ()"
  using assms unfolding Client_Collection_def by (auto elim!: bind_OkE simp: lift_res_def ret_def)

lemma check_pieces_accepted:
  assumes "check_pieces C hl i ps = Ok (acc, ok)"
  shows "length acc \<le> length ps \<and> (\<forall>j<length acc. take 32 (drop (32 * (i + j)) (sbuf hl)) = Piece_Hash C (acc ! j))"
  using assms
proof (induction C hl i ps arbitrary: acc rule: check_pieces.induct)
  case (2 C hl i p ps)
  show ?case
  proof (cases "acc = []")
    case False
    with "2.prems" obtain acc' where a: "acc = p # acc'" "check_pieces C hl (Suc i) ps = Ok (acc', ok)"
      "take 32 (drop (32 * i) (sbuf hl)) = Piece_Hash C p" "\<not> 32 * i + 32 > scap hl"
      by (auto split: if_splits)
    from "2.IH" [OF a(4) _ a(2)] a(3) have "length acc' \<le> length ps"
      "\<forall>j<length acc'. take 32 (drop (32 * (Suc i + j)) (sbuf hl)) = Piece_Hash C (acc' ! j)" by auto
    with a show ?thesis by (auto simp: nth_Cons ac_simps split: nat.splits)
  qed simp
qed simp

lemma read_pieces_length: "length (read_pieces n r) = n"
  by (induction n r rule: read_pieces.induct) (auto simp: Let_def split: prod.splits)

lemma Client_Pieces_length:
  assumes "Client_Pieces a i len str c = (Ok (Some ps), c')"
  shows "length ps \<le> nat len"
  using assms unfolding Client_Pieces_def
  by (auto elim!: bind_OkE simp: ret_def read_pieces_length split: sum.splits res.splits)

lemma verified_chunk:
  assumes "MessageCollection_Verify C mcol root = Ok ()" "length acc \<le> nat (MC_Size mcol)"
    and "\<forall>j<length acc. take 32 (drop (32 * j) (sbuf (MC_HashList mcol))) = Piece_Hash C (acc ! j)"
  shows "\<exists>w. sha3_256 C w = root \<and> (\<forall>j<length acc. take 32 (drop (32 * j) w) = Piece_Hash C (acc ! j))"
proof -
  let ?n = "nat (MC_Size mcol)" and ?b = "sbuf (MC_HashList mcol)"
  have "sha3_256 C (take (32 * ?n) ?b) = root"
    using assms(1) by (auto simp: MessageCollection_Verify_def verify_chunks_eq split: if_splits)
  moreover have "take 32 (drop (32 * j) (take (32 * ?n) ?b)) = take 32 (drop (32 * j) ?b)" if "j < length acc" for j
  proof -
    from that assms(2) have "32 * j + 32 \<le> 32 * ?n" by linarith
    then show ?thesis by (simp add: drop_take min_def)
  qed
  ultimately show ?thesis using assms(3) by auto
qed

text \<open>The pieces a mirror stores, and how: all of them in one go, or what a mismatch left behind.\<close>

definition stored_pieces :: "libs \<Rightarrow> pstore \<Rightarrow> pstore \<Rightarrow> bool" where
  "stored_pieces L before after \<longleftrightarrow>
     (\<exists>e w ps t. entry_valid (CR L) e \<and> sha3_256 (CR L) w = CollectionHash e \<and>
        (\<forall>j<length ps. take 32 (drop (32 * j) w) = Piece_Hash (CR L) (ps ! j)) \<and>
        t\<lparr>pfaults := []\<rparr> = before \<and>
        (after = snd (InsertPieces (PQ L) (map Some ps @ [None]) True t) \<or> after = snd (insert_unfinished (PQ L) ps t)))"

definition mirrored :: "libs \<Rightarrow> string \<Rightarrow> (string \<Rightarrow> pstore) \<Rightarrow> node \<Rightarrow> bool" where
  "mirrored L path before s \<longleftrightarrow>
     (\<forall>q. q \<noteq> path \<longrightarrow> posts_of s q = before q) \<and>
     (posts_of s path = before path \<or> stored_pieces L (before path) (stores s path))"

lemma bind_keeps:
  assumes "preserves (keeps_posts x n) m" "keeps_posts x n s" "\<And>v t. m s = (Ok v, t) \<Longrightarrow> keeps_posts x n t \<Longrightarrow> mirrored L path x (snd (f v t))"
  shows "mirrored L path x (snd (bind m f s))"
proof -
  obtain r t where r: "m s = (r, t)" by fastforce
  with preservesD [OF assms(1,2)] have t: "keeps_posts x n t" by blast
  then have "mirrored L path x t" by (auto simp: keeps_posts_def mirrored_def)
  with assms(3) r t show ?thesis by (cases r) (auto simp: bind_def)
qed

lemma on_store_mirrored:
  assumes "keeps_posts x n s" "entry_valid (CR L) e" "sha3_256 (CR L) w = CollectionHash e"
    "\<forall>j<length ps. take 32 (drop (32 * j) w) = Piece_Hash (CR L) (ps ! j)"
  shows "m = InsertPieces (PQ L) (map Some ps @ [None]) True \<or> m = insert_unfinished (PQ L) ps \<Longrightarrow>
    mirrored L path x (snd (on_store path m s))"
proof -
  assume m: "m = InsertPieces (PQ L) (map Some ps @ [None]) True \<or> m = insert_unfinished (PQ L) ps"
  have "(stores s path)\<lparr>pfaults := []\<rparr> = x path" using assms(1) by (auto simp: keeps_posts_def posts_of_def)
  with assms m have "stored_pieces L (x path) (snd (m (stores s path)))" unfolding stored_pieces_def by blast
  with assms(1) show ?thesis
    by (auto simp: mirrored_def on_store_def keeps_posts_def posts_of_def split: prod.splits)
qed

lemma bind_last: "(\<And>v t. snd (f v t) = t) \<Longrightarrow> snd (bind m f s) = snd (m s)"
  by (auto simp: bind_def split: prod.splits res.splits)

lemma snd_ignore: "snd (ignore m s) = snd (m s)"
  by (auto simp: ignore_def bind_def attempt_def ret_def split: prod.splits res.splits)

lemma mirror_accepted:
  assumes t: "keeps_posts x n t" and e: "entry_valid (CR L) e" and v: "MessageCollection_Verify (CR L) mcol (CollectionHash e) = Ok ()"
    and l: "length pieces \<le> nat (MC_Size mcol)"
  shows "mirrored L path x (snd
    (bind (lift_res (check_pieces (CR L) (MC_HashList mcol) 0 pieces)) (\<lambda>(accepted, ok).
     bind (on_world (modify (\<lambda>w. w\<lparr>on_piece := [0..<length accepted]\<rparr>))) (\<lambda>_.
       if \<not> ok then
         bind (on_store path (insert_unfinished (PQ L) accepted)) (\<lambda>_. fail (ErrNew ''Piece hash mismatch''))
       else
         bind (attempt (Peer_RequestAddPeer L p e)) (\<lambda>r.
         bind (modify (upd_peer p (\<lambda>pr. pr\<lparr>p_seed := False, p_seedFor := None\<rparr>))) (\<lambda>_.
         bind (ignore (on_store path (InsertPieces (PQ L) (map Some accepted @ [None]) True))) (\<lambda>_.
           case r of Inl err \<Rightarrow> fail err | Inr _ \<Rightarrow> ret ()))))) t))" (is "mirrored L path x (snd (bind ?m ?f t))")
proof (rule bind_keeps [OF _ t])
  fix ao u assume c: "?m t = (Ok ao, u)" and u: "keeps_posts x n u"
  obtain acc ok where ao: "ao = (acc, ok)" by fastforce
  from c have "check_pieces (CR L) (MC_HashList mcol) 0 pieces = Ok (acc, ok)" by (simp add: lift_res_def ao)
  from check_pieces_accepted [OF this] l verified_chunk [OF v, of acc] obtain w where
    w: "sha3_256 (CR L) w = CollectionHash e" "\<forall>j<length acc. take 32 (drop (32 * j) w) = Piece_Hash (CR L) (acc ! j)" by auto
  show "mirrored L path x (snd (?f ao u))"
    unfolding ao prod.case
  proof (rule bind_keeps [OF _ u], goal_cases)
    case (2 _ y)
    note fin = on_store_mirrored [OF _ e w]
    show ?case
    proof (cases ok)
      case False
      with fin [OF 2(2)] show ?thesis by (simp add: bind_last fail_def)
    next
      case True
      have "mirrored L path x (snd (bind (attempt (Peer_RequestAddPeer L p e)) (\<lambda>r.
         bind (modify (upd_peer p (\<lambda>pr. pr\<lparr>p_seed := False, p_seedFor := None\<rparr>))) (\<lambda>_.
         bind (ignore (on_store path (InsertPieces (PQ L) (map Some acc @ [None]) True))) (\<lambda>_.
           case r of Inl err \<Rightarrow> fail err | Inr _ \<Rightarrow> ret ()))) y))"
      proof (rule bind_keeps [OF _ 2(2)], goal_cases)
        case (2 r z)
        have "snd (bind (ignore m) (\<lambda>_. case r of Inl err \<Rightarrow> fail err | Inr _ \<Rightarrow> ret ()) t) = snd (m t)"
          for m :: "(node, unit) proc" and t
          by (cases r) (simp_all add: bind_last snd_ignore fail_def ret_def)
        with fin [where s = "upd_peer p (\<lambda>pr. pr\<lparr>p_seed := False, p_seedFor := None\<rparr>) z" and n = n] 2(2) show ?case by simp
      qed (intro proc_intros keeps_intros)
      with True show ?thesis by simp
    qed
  qed (intro keeps_intros)
qed simp

lemma keeps_mirrored: "keeps_posts x n s \<Longrightarrow> mirrored L path x s"
  by (auto simp: keeps_posts_def mirrored_def)

lemma mirror_download:
  assumes "keeps_posts x n t" "entry_valid (CR L) e" "MessageCollection_Verify (CR L) mcol (CollectionHash e) = Ok ()"
  shows "mirrored L path x (snd
    (bind (on_world next_piece_stream) (\<lambda>stream.
     bind (with_stream p (Client_Pieces (Address e) i (MC_Size mcol) stream)) (\<lambda>chan.
       case chan of
         None \<Rightarrow> on_world block_forever
       | Some pieces \<Rightarrow>
           bind (lift_res (check_pieces (CR L) (MC_HashList mcol) 0 pieces)) (\<lambda>(accepted, ok).
           bind (on_world (modify (\<lambda>w. w\<lparr>on_piece := [0..<length accepted]\<rparr>))) (\<lambda>_.
             if \<not> ok then
               bind (on_store path (insert_unfinished (PQ L) accepted)) (\<lambda>_. fail (ErrNew ''Piece hash mismatch''))
             else
               bind (attempt (Peer_RequestAddPeer L p e)) (\<lambda>r.
               bind (modify (upd_peer p (\<lambda>pr. pr\<lparr>p_seed := False, p_seedFor := None\<rparr>))) (\<lambda>_.
               bind (ignore (on_store path (InsertPieces (PQ L) (map Some accepted @ [None]) True))) (\<lambda>_.
                 case r of Inl err \<Rightarrow> fail err | Inr _ \<Rightarrow> ret ()))))))) t))"
proof (rule bind_keeps [OF _ assms(1)], intro keeps_intros, rule bind_keeps, intro keeps_intros, assumption, goal_cases)
  case (1 stream u chan v)
  show ?case
  proof (cases chan)
    case None
    have "keeps_posts x n (snd (on_world block_forever v :: unit res \<times> node))"
      by (rule preserves_snd [OF keeps_zoom(2) 1(4)])
    with None show ?thesis by (simp add: keeps_mirrored)
  next
    case (Some pieces)
    with with_stream_Ok [OF 1(3)] Client_Pieces_length have "length pieces \<le> nat (MC_Size mcol)" by blast
    from mirror_accepted [OF 1(4) assms(2,3) this] show ?thesis unfolding Some option.case .
  qed
qed



end
