(* ===== verification/Mirror_Session.thy ===== *)
theory Mirror_Session
  imports Mirror_Props
begin

text \<open>
  A whole mirroring session between two nodes: the requests of \<open>Mirror\<close>, the answers of the publisher's handlers, and
  what the mirror stores in the end.
\<close>

section \<open>The publisher's answers\<close>

definition hash_list_request :: "address \<Rightarrow> message" where
  "hash_list_request a = Message_Write (WAddress a) (bare ProtoRequestHashList)"

definition pieces_request :: "address \<Rightarrow> int \<Rightarrow> int \<Rightarrow> message" where
  "pieces_request a i n = Message_Write (WPiece \<lparr>RP_Address = Address_StringOr a [], RP_Id = i, RP_Length = n\<rparr>) (bare ProtoRequestPiece)"

definition hash_list_reply :: "bytes \<Rightarrow> message" where
  "hash_list_reply hl = Message_Write (WCollection (hash_list_message hl)) (bare ProtoHashList)"

lemma route_hash_list:
  assumes "msgpack_ok (MP L)" "\<not> too_big (MP L) (WAddress a)" "\<not> closed c" "wfaults c = []"
    and "Address_Equals a (lp_Address s)" "DHT_Query (SQ L) a (ndb s) = (Ok kv, d)" "lp_Collection s = Some col"
  shows "RouteMessage L from (hash_list_request a) (s, c) = (Ok (), s\<lparr>ndb := d\<rparr>,
     c\<lparr>outbox := outbox c @ [hash_list_reply (sdata (HashList col))], closed := True\<rparr>)"
proof -
  have d: "dec_address (MP L) (WAddress a) = Ok a" using assms(1) by (simp add: msgpack_ok_def)
  have "HandleHashList L (hash_list_request a) (s, c) = (Ok (), s\<lparr>ndb := d\<rparr>,
     c\<lparr>outbox := outbox c @ [hash_list_reply (sdata (HashList col))]\<rparr>)"
    using assms(2-7) by (simp add: HandleHashList_def hash_list_request_def Message_Read_ok d hash_list_reply_def hash_list_of_def
        the_collection_def bind_def zoom_def gets_def ignore_def attempt_def ret_def lp_Address_def)
  then show ?thesis
    by (simp add: RouteMessage_def hash_list_request_def Message_Write_def bare_def proto_headers deferred_def ignore_def
        bind_def attempt_def ret_def zoom_def Client_Close_def modify_def)
qed

lemma route_pieces:
  assumes "msgpack_ok (MP L)" "\<And>w. \<not> too_big (MP L) w"
    and "Address_StringOr a [] = Address_StringOr (lp_Address s) []"
    and "QueryPiecePosts i n (stores s (lp_Database s)) = (Ok ps, stores s (lp_Database s))"
  shows "RouteMessage L from (pieces_request a i n) (s, c) = (Ok (), s,
     c\<lparr>streamed := streamed c @ send_posts ps, closed := True\<rparr>)"
proof -
  have d: "dec_piece (MP L) (WPiece r) = Ok r" for r using assms(1) by (simp add: msgpack_ok_def)
  have "HandlePiece L (pieces_request a i n) (s, c) = (Ok (), s, c\<lparr>streamed := streamed c @ send_posts ps\<rparr>)"
    using assms(2-4) by (simp add: HandlePiece_def pieces_request_def Message_Read_ok d bind_def zoom_def gets_def on_store_def
        modify_def ret_def lift_res_def)
  then show ?thesis
    by (simp add: RouteMessage_def pieces_request_def Message_Write_def bare_def proto_headers deferred_def ignore_def
        bind_def attempt_def ret_def zoom_def Client_Close_def modify_def)
qed

section \<open>The mirror's requests\<close>

lemma Client_Collection_reply:
  assumes "msgpack_ok M" "\<And>w. \<not> too_big M w" "length hl mod 32 = 0" "sha3_256 C hl = CollectionHash e"
  shows "fst (Client_Collection C M a e (side [hash_list_reply hl])) = Ok (hash_list_message hl)"
proof -
  have "dec_coll M (WCollection (hash_list_message hl)) = Ok (hash_list_message hl)"
    using assms(1) by (simp add: msgpack_ok_def hash_list_message_def slice_of_def sdata_def)
  then have "Message_Read M (dec_coll M) (hash_list_reply hl) = Ok (hash_list_message hl)"
    using assms(2) by (simp add: hash_list_reply_def Message_Read_ok)
  moreover have "32 * (length hl div 32) = length hl" using assms(3) by auto
  then have "MessageCollection_Verify C (hash_list_message hl) (CollectionHash e) = Ok ()"
    using assms(4) by (simp add: MessageCollection_Verify_eq hash_list_message_def slice_of_def Let_def)
  ultimately show ?thesis
    by (simp add: Client_Collection_def bind_def ReadMessage_def lift_res_def ret_def)
qed

lemma Client_Collection_asks: "hd (outbox (snd (Client_Collection C M a e (side ms)))) = hash_list_request a"
  by (cases ms) (auto simp: Client_Collection_def bind_def ReadMessage_def lift_res_def ret_def hash_list_request_def
      split: res.splits prod.splits)

lemma Client_Pieces_reply:
  "Client_Pieces a i n (Ok str) (side ms) =
     (Ok (Some (read_pieces (nat n) (NewErrorReader str))), (side ms)\<lparr>outbox := [pieces_request a i n]\<rparr>)"
  by (simp add: Client_Pieces_def bind_def attempt_def ret_def pieces_request_def WriteMessage_def)

text \<open>A peer that is connected and managed, and what it will find on its next streams.\<close>

definition ready :: "nat \<Rightarrow> address \<Rightarrow> (string \<Rightarrow> pstore) \<Rightarrow> client res list \<Rightarrow> string res list \<Rightarrow> node \<Rightarrow> bool" where
  "ready p a st cs ps s \<longleftrightarrow>
     p < length (peer_heap s) \<and> SM_GetSession (p_streams (the_peer p s)) \<and> p_managed (the_peer p s) \<and>
     p_address (the_peer p s) = a \<and> \<not> p_seed (the_peer p s) \<and> stores s = st \<and> fs_faults (lp_files s) = [] \<and>
     pings (world s) = [] \<and> mux_faults (world s) = [] \<and> streams (world s) = cs \<and> piece_streams (world s) = ps"

lemma ready_ping: "ready p a st cs ps s \<Longrightarrow> Peer_Ping p s = (Ok (), s)"
  by (simp add: ready_def Peer_Ping_ok)

lemma UpdateSeen_ready:
  assumes "ready p a st cs ps s"
  obtains s' where "UpdateSeen p s = (Ok (), s')" "ready p a st cs ps s'"
proof -
  obtain t w where w: "Now (world s) = (Ok t, w)" "pings w = pings (world s)" "mux_faults w = mux_faults (world s)"
    "streams w = streams (world s)" "piece_streams w = piece_streams (world s)"
    by (cases "ticks (world s)") (simp_all add: Now_def)
  let ?s = "s\<lparr>world := w, peerSeen := AList.update (peer_key (p_address (the_peer p s))) t (peerSeen s)\<rparr>"
  show ?thesis
    using assms w by (intro that [of ?s]) (simp_all add: UpdateSeen_def bind_def gets_def zoom_def modify_def the_peer_def ready_def)
qed

lemma with_stream_ready:
  assumes "ready p a st (Ok c # cs) ps s" "fst (m c) = r"
  obtains s' where "with_stream p m s = (r, s')" "ready p a st cs ps s'"
proof -
  obtain u where u: "UpdateSeen p s = (Ok (), u)" "ready p a st (Ok c # cs) ps u" by (rule UpdateSeen_ready [OF assms(1)])
  let ?u = "u\<lparr>world := (world u)\<lparr>streams := cs\<rparr>\<rparr>"
  have "Peer_OpenStream p s = (Ok c, ?u)" "ready p a st cs ps ?u"
    using ready_ping [OF assms(1)] u
    by (simp_all add: Peer_OpenStream_def bind_def gets_def zoom_def next_stream_def mux_call_def lift_res_def ret_def ready_def the_peer_def)
  moreover obtain c' where "m c = (r, c')" using assms(2) by (metis prod.collapse)
  ultimately show ?thesis
    by (intro that [of "snd (with_stream p m s)"]) (simp_all add: with_stream_def bind_def deferred_def ready_def the_peer_def)
qed

lemma mirror_entry_ready:
  assumes lib: "msgpack_ok (MP L)" "\<And>w. \<not> too_big (MP L) w"
    and s: "ready p a st (Ok (side [entry_message (Some e)]) # cs) ps s" and e: "entry_valid (CR L) e" "Address_Equals (Address e) a"
  obtains s' where "mirror_entry L p s = (Ok (exported e), s')" "ready p a st cs ps s'"
proof -
  have q: "fst (Client_Query (CR L) (MP L) a (side [entry_message (Some e)])) = Ok (exported e)"
    using Client_Query_entry [OF lib, where e = e and C = "CR L" and a = a and ms = "[]"] e(1) by (simp add: Entry_Verify_iff)
  obtain u where u: "with_stream p (Client_Query (CR L) (MP L) a) s = (Ok (exported e), u)" "ready p a st cs ps u"
    by (rule with_stream_ready [OF s, where m = "Client_Query (CR L) (MP L) a"]) (rule q)
  let ?u = "upd_peer p (\<lambda>pr. pr\<lparr>p_entry := Some (exported e)\<rparr>) u"
  have a: "p_address (the_peer p s) = a" "\<not> p_seed (the_peer p s)" "Address_Equals (Address (exported e)) a"
    using s e(2) by (simp_all add: ready_def exported_def)
  have "Peer_GetEntry L p s = (Ok (exported e), ?u)"
    using ready_ping [OF s] u(1) a by (simp add: Peer_GetEntry_def Peer_Query_def bind_def gets_def modify_def ret_def)
  moreover have "Peer_Entry L p ?u = (Ok (exported e), ?u)"
    using u(2) by (simp add: Peer_Entry_def the_peer_def upd_peer_def ret_def ready_def)
  moreover have "ready p a st cs ps ?u" using u(2) by (simp add: ready_def upd_peer_def the_peer_def)
  ultimately show ?thesis using a(2) by (intro that [of ?u]) (simp_all add: mirror_entry_def bind_def gets_def)
qed

lemma Collection_Save_ready:
  assumes "ready p a st cs ps s"
  obtains s' where "on_files (Collection_Save f c) s = (Ok (), s')" "ready p a st cs ps s'"
  using assms by (intro that [of "snd (on_files (Collection_Save f c) s)"])
    (simp_all add: zoom_def Collection_Save_def WriteFile_def fs_call_def bind_def ready_def the_peer_def modify_def)

lemma check_pieces_all:
  assumes "\<And>m. length (sha3_256 C m) = 32" "sbuf hl = pre @ concat (map (Piece_Hash C) qs) @ post" "length pre = 32 * i"
  shows "check_pieces C hl i qs = Ok (qs, True)"
  using assms(2,3)
proof (induction qs arbitrary: pre i)
  case (Cons q qs)
  have "length (Piece_Hash C q) = 32" by (simp add: Piece_Hash_def assms(1))
  with Cons.prems Cons.IH [of "pre @ Piece_Hash C q" "Suc i"] show ?case by simp
qed simp

text \<open>Adding the entry and registering as a seed do not touch the databases.\<close>

lemma AddEntry_ready:
  assumes "ready p a st cs ps s" "ignore (AddEntry L e) s = (Ok (), s')"
  shows "ready p a st cs ps s'"
  using assms
  by (auto simp: ignore_def AddEntry_def bind_def attempt_def zoom_def ret_def ready_def the_peer_def split: res.splits prod.splits)

lemma exported_sel [simp]: "Address (exported e) = Address e" "PostCount (exported e) = PostCount e"
  "CollectionHash (exported e) = CollectionHash e"
  by (simp_all add: exported_def)

lemma mirror_entry_ndb: "mirror_entry L p s = (r, s') \<Longrightarrow> ndb s' = ndb s"
proof -
  assume r: "mirror_entry L p s = (r, s')"
  have z: "preserves (\<lambda>t. ndb t = d) (on_world m)" "preserves (\<lambda>t. ndb t = d) (modify (upd_peer p f))" for d m f
    by (auto simp: preserves_def zoom_def modify_def upd_peer_def split: prod.splits)
  have q: "preserves (\<lambda>t. ndb t = d) (Peer_Ping p)" "preserves (\<lambda>t. ndb t = d) (UpdateSeen p)" for d
    unfolding Peer_Ping_def UpdateSeen_def by (intro proc_intros z; simp)+
  have o: "preserves (\<lambda>t. ndb t = d) (Peer_OpenStream p)" for d
    unfolding Peer_OpenStream_def by (intro proc_intros z q)
  have w: "preserves (\<lambda>t. ndb t = d) (with_stream p m)" for d m
    unfolding with_stream_def by (intro preserves_bind o preservesI) (simp split: prod.splits)
  have g: "preserves (\<lambda>t. ndb t = d) (Peer_GetEntry L p)" "preserves (\<lambda>t. ndb t = d) (Peer_Query L p a)" for d a
    unfolding Peer_GetEntry_def Peer_Query_def by (intro proc_intros z q w)+
  have "preserves (\<lambda>t. ndb t = ndb s) (mirror_entry L p)"
    unfolding mirror_entry_def Peer_Entry_def by (intro proc_intros g)
  from preservesD [OF this _ r] show ?thesis by simp
qed

text \<open>The session up to the registration as a seed.\<close>

lemma mirror_downloads:
  assumes lib: "crypto_ok (CR L)" "msgpack_ok (MP L)" "\<And>w. \<not> too_big (MP L) w"
    and e: "entry_valid (CR L) e" "CollectionHash e = sha3_256 (CR L) hl" "Address_Equals (Address e) addr" "PostCount e \<noteq> 0"
    and hl: "hl = concat (map (Piece_Hash (CR L)) qs)" "read_pieces (length qs) (NewErrorReader str) = qs"
    and a: "ready p addr st (Ok (side [entry_message (Some e)]) # Ok (side [hash_list_reply hl]) # Ok (side ms) # cs) [Ok str] a"
      "st path = empty_pstore" "fst (DHT_Insert (CR L) (SQ L) (exported e) (ndb a)) \<noteq> Panic"
  obtains z where "ready p addr st cs [] z"
    "Peer_Mirror L p path a =
       bind (attempt (Peer_RequestAddPeer L p (exported e))) (\<lambda>r.
       bind (modify (upd_peer p (\<lambda>pr. pr\<lparr>p_seed := False, p_seedFor := None\<rparr>))) (\<lambda>_.
       bind (ignore (on_store path (InsertPieces (PQ L) (map Some qs @ [None]) True))) (\<lambda>_.
         case r of Inl err \<Rightarrow> fail err | Inr _ \<Rightarrow> ret ()))) z"
proof -
  let ?e = "exported e" and ?m = "hash_list_message hl"
  obtain s1 where s1: "mirror_entry L p a = (Ok ?e, s1)" "ready p addr st (Ok (side [hash_list_reply hl]) # Ok (side ms) # cs) [Ok str] s1"
    by (rule mirror_entry_ready [OF lib(2,3) a(1) e(1,3)])
  have g: "p_managed (the_peer p s1)" using s1(2) by (simp add: ready_def)
  obtain r2 s2 where s2: "ignore (AddEntry L ?e) s1 = (r2, s2)" by fastforce
  have "r2 = Ok ()"
    using s2 a(3) mirror_entry_ndb [OF s1(1)]
    by (auto simp: ignore_def AddEntry_def bind_def attempt_def zoom_def ret_def split: res.splits prod.splits)
  with s2 have s2: "ignore (AddEntry L ?e) s1 = (Ok (), s2)" by simp
  note r2 = AddEntry_ready [OF s1(2) s2]
  have len: "length hl = 32 * length qs"
    unfolding hl(1) using crypto_ok_lengths(1) [OF lib(1)] by (induction qs) (simp_all add: Piece_Hash_def)
  have c: "fst (Client_Collection (CR L) (MP L) (Address ?e) ?e (side [hash_list_reply hl])) = Ok ?m"
    using e(2) len by (intro Client_Collection_reply [OF lib(2,3)]) simp_all
  obtain s3 where s3: "with_stream p (Client_Collection (CR L) (MP L) (Address ?e) ?e) s2 = (Ok ?m, s3)"
    "ready p addr st (Ok (side ms) # cs) [Ok str] s3"
    by (rule with_stream_ready [OF r2, where m = "Client_Collection (CR L) (MP L) (Address ?e) ?e"]) (rule c)
  let ?f = "''./data/'' @ Address_StringOr (Address e) ''err'' @ ''/collection.dat''"
  obtain s4 where s4: "on_files (Collection_Save ?f (NewCollection\<lparr>HashList := MC_HashList ?m\<rparr>)) s3 = (Ok (), s4)"
    "ready p addr st (Ok (side ms) # cs) [Ok str] s4"
    by (rule Collection_Save_ready [OF s3(2)])
  have count: "on_store path PostCount_db s4 = (Ok 0, s4)"
    using s4(2) a(2) PostCount_empty by (simp add: on_store_def ready_def fun_upd_idem)
  let ?s5 = "s4\<lparr>world := (world s4)\<lparr>piece_streams := []\<rparr>\<rparr>"
  have s5: "on_world next_piece_stream s4 = (Ok (Ok str), ?s5)" "ready p addr st (Ok (side ms) # cs) [] ?s5"
    using s4(2) by (simp_all add: zoom_def next_piece_stream_def ready_def the_peer_def)
  have n: "MC_Size ?m = int (length qs)" using len by (simp add: hash_list_message_def)
  have p: "fst (Client_Pieces (Address e) 0 (int (length qs)) (Ok str) (side ms)) = Ok (Some qs)"
    using hl(2) by (simp add: Client_Pieces_reply)
  obtain s6 where s6: "with_stream p (Client_Pieces (Address e) 0 (int (length qs)) (Ok str)) ?s5 = (Ok (Some qs), s6)"
    "ready p addr st cs [] s6"
    by (rule with_stream_ready [OF s5(2), where m = "Client_Pieces (Address e) 0 (int (length qs)) (Ok str)"]) (rule p)
  have k: "check_pieces (CR L) (MC_HashList ?m) 0 qs = Ok (qs, True)"
    by (rule check_pieces_all [where pre = "[]" and post = "[]"])
      (simp_all add: crypto_ok_lengths(1) [OF lib(1)] hash_list_message_def slice_of_def hl(1))
  let ?z = "s6\<lparr>world := (world s6)\<lparr>on_piece := [0..<length qs]\<rparr>\<rparr>"
  have "ready p addr st cs [] ?z" using s6(2) by (simp add: ready_def the_peer_def)
  moreover have "since_piece 0 = 0" by (simp add: since_piece_def ceil_div_def PieceSize_def)
  ultimately show ?thesis
    using ready_ping [OF a(1)] s1(1) g s2 s3(1) s4(1) count s5(1) s6(1) k e(4)
    by (intro that [of ?z]) (simp_all add: Peer_Mirror_def bind_run gets_def zoom_def modify_def lift_res_def n)
qed

lemma request_keeps_stores:
  assumes "attempt (Peer_RequestAddPeer L p e) z = (r, z')"
  shows "stores z' = stores z"
proof -
  have "preserves (keeps_stores id (stores z) (length (peer_heap z))) (attempt (Peer_RequestAddPeer L p e))"
    by (intro proc_intros keeps_intros)
  from preservesD [OF this _ assms] show ?thesis by (simp add: keeps_stores_def)
qed

text \<open>A session that does not crash has stored the entry it received.\<close>

lemma mirror_inserts:
  assumes lib: "msgpack_ok (MP L)" "\<And>w. \<not> too_big (MP L) w"
    and a: "ready p me st (Ok (side [entry_message (Some e)]) # cs) ss a" and e: "entry_valid (CR L) e" "Address_Equals (Address e) me"
    and run: "Peer_Mirror L p path a = (r, a')" "r \<noteq> Panic"
  shows "fst (DHT_Insert (CR L) (SQ L) (exported e) (ndb a)) \<noteq> Panic"
proof
  assume i: "fst (DHT_Insert (CR L) (SQ L) (exported e) (ndb a)) = Panic"
  obtain s1 where s1: "mirror_entry L p a = (Ok (exported e), s1)" "p_managed (the_peer p s1)"
    by (rule mirror_entry_ready [OF lib a e(1)]) (use e(2) in \<open>simp_all add: ready_def\<close>)
  with i mirror_entry_ndb [OF s1(1)] have "fst (ignore (AddEntry L (exported e)) s1) = Panic"
    by (auto simp: ignore_def AddEntry_def bind_def attempt_def zoom_def split: prod.splits)
  with s1 run ready_ping [OF a] show False
    by (auto simp: Peer_Mirror_def bind_def gets_def split: prod.splits)
qed

section \<open>Properties\<close>


section \<open>A session\<close>

text \<open>A publisher with two posts and a mirror that is connected to it.\<close>

definition two_posts_list :: bytes where
  "two_posts_list = Piece_Hash demo_crypto (piece_of (piece_rows (filled 2) 0))"

definition publisher_entry :: entry where
  "publisher_entry = (let e = (unsigned_entry 5 ''a'')\<lparr>PostCount := 2, CollectionHash := sha3_256 demo_crypto two_posts_list\<rparr>
     in e\<lparr>Signature := ed_sign demo_crypto demo_sk (to_bytes (signed_text e))\<rparr>)"

definition publisher :: node where
  "publisher = demo_node\<lparr>lpeer := (lpeer demo_node)\<lparr>p_address := peer_address (demo_raw 5)\<rparr>, ndb := demo_ndb, stores := (\<lambda>_. filled 2),
     lp_Collection := Some (NewCollection\<lparr>HashList := slice_of two_posts_list\<rparr>), lp_Entry := publisher_entry\<rparr>"

definition mirror_of :: "string \<Rightarrow> node" where
  "mirror_of str = demo_node\<lparr>ndb := demo_ndb,
     peer_heap := [empty_peer\<lparr>p_address := peer_address (demo_raw 5), p_streams := empty_sm\<lparr>sm_client := True\<rparr>, p_managed := True\<rparr>],
     world := demo_world\<lparr>streams := [Ok (side [entry_message (Some publisher_entry)]), Ok (side [hash_list_reply two_posts_list]), Ok (side [])],
       piece_streams := [Ok str]\<rparr>\<rparr>"

lemma publisher_entry_valid: "entry_valid demo_crypto publisher_entry" "\<not> bad_args publisher_entry"
proof -
  show "entry_valid demo_crypto publisher_entry"
    unfolding publisher_entry_def Let_def
    by (rule sign_entry_valid [OF demo_crypto_ok])
      (simp_all add: unsigned_entry_def empty_entry_def demo_sk_def PrivateKeySize_def peer_address_def)
qed (simp add: publisher_entry_def Let_def bad_args_def unsigned_entry_def)

lemma publisher_entry_sel [simp]: "Address publisher_entry = peer_address (demo_raw 5)" "PostCount publisher_entry = 2"
  "CollectionHash publisher_entry = sha3_256 demo_crypto two_posts_list" "exported publisher_entry = publisher_entry"
  "Seeds publisher_entry = []" "Seeding publisher_entry = []"
  by (simp_all add: publisher_entry_def Let_def unsigned_entry_def exported_def empty_entry_def)

lemma publisher_sel [simp]: "lp_Address publisher = peer_address (demo_raw 5)" "stores publisher = (\<lambda>_. filled 2)" "lp_Entry publisher = publisher_entry"
  "lp_Collection publisher = Some (NewCollection\<lparr>HashList := slice_of two_posts_list\<rparr>)" "ndb publisher = demo_ndb"
  by (simp_all add: publisher_def lp_Address_def)

lemma mirror_of_ready: "ready 0 (peer_address (demo_raw 5)) (\<lambda>_. empty_pstore)
    [Ok (side [entry_message (Some publisher_entry)]), Ok (side [hash_list_reply two_posts_list]), Ok (side [])] [Ok str] (mirror_of str)"
  by (simp add: ready_def mirror_of_def the_peer_def SM_GetSession_def demo_node_def fresh_node_def demo_world_def empty_peer_def)

lemma RequestAddPeer_no_stream:
  assumes "ready p addr st [] ps z"
  shows "fst (Peer_RequestAddPeer L p e z) = Err ErrEOF"
proof -
  obtain u where u: "UpdateSeen p z = (Ok (), u)" "ready p addr st [] ps u" by (rule UpdateSeen_ready [OF assms])
  then show ?thesis
    using ready_ping [OF assms]
    by (simp add: Peer_RequestAddPeer_def with_stream_def Peer_OpenStream_def bind_def gets_def zoom_def next_stream_def ready_def)
qed

lemma mirror_of_runs:
  assumes "read_pieces 1 (NewErrorReader str) = [piece_of (piece_rows (filled 2) 0)]"
  shows "fst (Peer_Mirror demo_libs 0 ''./data/x/posts.db'' (mirror_of str)) \<noteq> Panic"
proof -
  let ?q = "piece_of (piece_rows (filled 2) 0)"
  obtain d where d: "Insert demo_crypto demo_sqlite publisher_entry demo_ndb = (Ok 1, d)"
    by (rule Insert_no_seeds [OF demo_ndb_inv _ publisher_entry_valid]) simp_all
  have n: "ndb (mirror_of str) = demo_ndb" by (simp add: mirror_of_def)
  obtain z where z: "ready 0 (peer_address (demo_raw 5)) (\<lambda>_. empty_pstore) [] [] z"
    "Peer_Mirror demo_libs 0 ''./data/x/posts.db'' (mirror_of str) =
       bind (attempt (Peer_RequestAddPeer demo_libs 0 publisher_entry)) (\<lambda>r.
       bind (modify (upd_peer 0 (\<lambda>pr. pr\<lparr>p_seed := False, p_seedFor := None\<rparr>))) (\<lambda>_.
       bind (ignore (on_store ''./data/x/posts.db'' (InsertPieces demo_psqlite (map Some [?q] @ [None]) True))) (\<lambda>_.
         case r of Inl err \<Rightarrow> fail err | Inr _ \<Rightarrow> ret ()))) z"
    using mirror_downloads [of demo_libs publisher_entry two_posts_list "peer_address (demo_raw 5)" "[?q]" str 0 "\<lambda>_. empty_pstore" "[]" "[]" "mirror_of str" "''./data/x/posts.db''"]
      mirror_of_ready [of str] assms d publisher_entry_valid
    by (auto simp: demo_crypto_ok demo_msgpack_ok two_posts_list_def Address_Equals_def n DHT_Insert_def)
  obtain y where y: "attempt (Peer_RequestAddPeer demo_libs 0 publisher_entry) z = (Ok (Inl ErrEOF), y)"
    using RequestAddPeer_no_stream [OF z(1), of demo_libs publisher_entry] by (cases "Peer_RequestAddPeer demo_libs 0 publisher_entry z") (simp add: attempt_def)
  obtain m where m: "InsertPieces demo_psqlite (map Some [?q] @ [None]) True empty_pstore = (Ok (), m)"
    by (rule InsertPieces_copies [OF pdb_reach_inv [OF filled_reach demo_psqlite_ok], where n = 1]) simp
  have "stores y = (\<lambda>_. empty_pstore)" using request_keeps_stores [OF y] z(1) by (simp add: ready_def)
  with y m show ?thesis
    unfolding z(2) by (simp add: bind_run(1)) (simp add: bind_def ignore_def attempt_def on_store_def upd_peer_def ret_def fail_def)
qed


end
