(* ===== verification/Net_Map_Props.thy ===== *)
theory Net_Map_Props
  imports Request_Props
begin

text \<open>
  The map of the network: its recursion ends, because every nested call adds a node that the database knows, and
  it reports no link twice.
\<close>

section \<open>Known nodes\<close>

definition known_keys :: "entry_row list \<Rightarrow> string set" where
  "known_keys tbl = (\<lambda>r. case DecodeAddress (raddress r) of Ok a \<Rightarrow> peer_key a | _ \<Rightarrow> []) ` set tbl"

lemma finite_known [simp]: "finite (known_keys tbl)"
  by (simp add: known_keys_def)

lemma card_known: "card (known_keys tbl) \<le> length tbl"
  unfolding known_keys_def by (metis card_image_le card_length finite_set le_trans)

lemma sqlQueryAddress_row:
  assumes "sqlQueryAddress q key s = (Ok r, s')"
  shows "r \<in> set (entry_tbl s)"
proof -
  from assms obtain fs where
    "(case find (\<lambda>r. raddress r = affinity q key) (entry_tbl (s\<lparr>faults := fs\<rparr>)) of
        None \<Rightarrow> (Err ErrNoRows, s\<lparr>faults := fs\<rparr>) | Some r \<Rightarrow> (Ok r, s\<lparr>faults := fs\<rparr>)) = (Ok r, s')"
    unfolding sqlQueryAddress_def by (rule bind_sql_call_OkE)
  then show ?thesis by (auto simp: find_Some_iff split: option.splits)
qed

lemma DHT_Query_known:
  assumes "DHT_Query q a d = (Ok (Some e), d')"
  shows "peer_key (Address e) \<in> known_keys (entry_tbl (conn d))" "Encoded (Address e) = []"
proof -
  from assms obtain i where "Query q a d = (Ok (Some e, i), d')"
    unfolding DHT_Query_def by (auto elim!: bind_OkE simp: ret_def)
  then obtain r dec d1 where r: "attempt (on_conn (sqlQueryAddress q (address_key a))) d = (Ok (Inr r), d1)"
    "DecodeAddress (raddress r) = Ok dec" "Address e = peer_address (Raw dec)"
    unfolding Query_def addSeedToEntry_def
    by (auto elim!: bind_OkE simp: lift_res_def fst_Address_String ret_def fail_def split: sum.splits if_splits prod.splits)
  have "r \<in> set (entry_tbl (conn d))"
    using r(1) sqlQueryAddress_row [of q "address_key a" "conn d" r]
    by (auto simp: attempt_def zoom_def split: prod.splits res.splits)
  moreover have "peer_key (Address e) = peer_key dec" using r(3) by (simp add: peer_key_def peer_address_def)
  ultimately show "peer_key (Address e) \<in> known_keys (entry_tbl (conn d))"
    using r(2) unfolding known_keys_def by force
  show "Encoded (Address e) = []" using r(3) by (simp add: peer_address_def)
qed

lemma DHT_Query_rows: "DHT_Query q a d = (r, d') \<Longrightarrow> entry_tbl (conn d') = entry_tbl (conn d)"
proof -
  assume r: "DHT_Query q a d = (r, d')"
  have "keeps_rows ((conn d)\<lparr>faults := []\<rparr>) d'"
    by (rule preservesD [OF DHT_queries_keep(1) _ r]) (simp add: keeps_rows_def)
  then have "entry_tbl ((conn d')\<lparr>faults := []\<rparr>) = entry_tbl ((conn d)\<lparr>faults := []\<rparr>)" by (simp add: keeps_rows_def)
  then show ?thesis by simp
qed

section \<open>One round of the loop\<close>

definition map_link_key :: "entry \<Rightarrow> entry \<Rightarrow> string" where
  "map_link_key e entry = peer_key (Address e) @ peer_key (Address entry)"

definition link_of :: "entry \<Rightarrow> entry \<Rightarrow> map_link" where
  "link_of e entry = \<lparr>ML_Source = Address_StringOr (Address e) [], ML_Target = Address_StringOr (Address entry) []\<rparr>"

definition node_of :: "entry \<Rightarrow> map_node" where
  "node_of e = \<lparr>MN_Address = Address_StringOr (Address e) [], MN_Name = Name e\<rparr>"

lemma seeding_loop_round:
  "seeding_loop rec q entry (i # is) ns ls s =
    (case DHT_Query q (peer_address i) (nm_db s) of
       (Err _, d) \<Rightarrow> seeding_loop rec q entry is ns ls (s\<lparr>nm_db := d\<rparr>)
     | (Ok (Some e), d) \<Rightarrow>
         (if map_link_key e entry \<in> set (currentLinks s) then seeding_loop rec q entry is ns ls (s\<lparr>nm_db := d\<rparr>)
          else if peer_key (Address e) \<in> set (currentNodes s) then
            seeding_loop rec q entry is ns (ls @ [link_of e entry]) (s\<lparr>nm_db := d, currentLinks := map_link_key e entry # currentLinks s\<rparr>)
          else
            (case rec e (s\<lparr>nm_db := d, currentLinks := map_link_key e entry # currentLinks s,
                  currentNodes := peer_key (Address e) # currentNodes s\<rparr>) of
               (Ok (Some (n, l)), s2) \<Rightarrow> seeding_loop rec q entry is (ns @ [node_of e] @ n) (ls @ [link_of e entry] @ l) s2
             | (r, s2) \<Rightarrow> (r, s2)))
     | (_, d) \<Rightarrow> (Panic, s\<lparr>nm_db := d\<rparr>))"
proof -
  obtain x d where x: "DHT_Query q (peer_address i) (nm_db s) = (x, d)" by fastforce
  show ?thesis
    by (cases x)
      (auto simp: x bind_def attempt_def zoom_def panic_def gets_def modify_def Let_def map_link_key_def link_of_def node_of_def ret_def
        split: option.splits res.splits prod.splits)
qed

declare seeding_loop.simps(2) [simp del]

text \<open>
  What a call for an entry keeps and reports; \<open>m\<close> bounds the known nodes that are not on the map yet.
\<close>

definition unseen :: "netmap \<Rightarrow> nat" where
  "unseen s = card (known_keys (entry_tbl (conn (nm_db s))) - set (currentNodes s))"

definition grows :: "netmap \<Rightarrow> netmap \<Rightarrow> bool" where
  "grows s s' \<longleftrightarrow> entry_tbl (conn (nm_db s')) = entry_tbl (conn (nm_db s)) \<and> set (currentNodes s) \<subseteq> set (currentNodes s')"

lemma grows_refl [simp]: "grows s s"
  by (simp add: grows_def)

lemma grows_trans [trans]: "grows s t \<Longrightarrow> grows t u \<Longrightarrow> grows s u"
  by (auto simp: grows_def)

lemma unseen_mono: "grows s s' \<Longrightarrow> unseen s' \<le> unseen s"
  unfolding grows_def unseen_def by (intro card_mono) auto

lemma unseen_new:
  assumes "DHT_Query q a (nm_db s) = (Ok (Some e), d)" "peer_key (Address e) \<notin> set (currentNodes s)"
  shows "unseen (s\<lparr>nm_db := d, currentLinks := x, currentNodes := peer_key (Address e) # currentNodes s\<rparr>) < unseen s"
  unfolding unseen_def using DHT_Query_known [OF assms(1)] DHT_Query_rows [OF assms(1)] assms(2)
  by (intro psubset_card_mono) auto

lemma seeding_loop_terminates:
  assumes rec: "\<And>e s r s'. rec e s = (r, s') \<Longrightarrow> grows s s' \<and> (unseen s < m \<longrightarrow> r \<noteq> Ok None)"
  shows "seeding_loop rec q entry is ns ls s = (r, s') \<Longrightarrow> grows s s' \<and> (unseen s \<le> m \<longrightarrow> r \<noteq> Ok None)"
proof (induction "is" arbitrary: ns ls s)
  case (Cons i "is")
  obtain x d where x: "DHT_Query q (peer_address i) (nm_db s) = (x, d)" by fastforce
  have same: "grows s (s\<lparr>nm_db := d\<rparr>)" "grows s (s\<lparr>nm_db := d, currentLinks := y\<rparr>)"
    "grows s (s\<lparr>nm_db := d, currentLinks := y, currentNodes := k # currentNodes s\<rparr>)" for y k
    using DHT_Query_rows [OF x] by (auto simp: grows_def)
  have step: "grows s s' \<and> (unseen s \<le> m \<longrightarrow> r \<noteq> Ok None)"
    if "seeding_loop rec q entry is ns ls t = (r, s')" "grows s t" for ns ls t
    using Cons.IH [OF that(1)] that(2) grows_trans unseen_mono [OF that(2)] by (meson le_trans)
  show ?case
  proof (cases "\<exists>e. x = Ok (Some e) \<and> map_link_key e entry \<notin> set (currentLinks s) \<and> peer_key (Address e) \<notin> set (currentNodes s)")
    case True
    then obtain e where e: "x = Ok (Some e)" "map_link_key e entry \<notin> set (currentLinks s)" "peer_key (Address e) \<notin> set (currentNodes s)" by blast
    let ?t = "s\<lparr>nm_db := d, currentLinks := map_link_key e entry # currentLinks s, currentNodes := peer_key (Address e) # currentNodes s\<rparr>"
    obtain y t where y: "rec e ?t = (y, t)" by fastforce
    have g: "grows s t" using rec [OF y] same(3) grows_trans by blast
    have "unseen s \<le> m \<Longrightarrow> y \<noteq> Ok None" using rec [OF y] unseen_new [OF x [unfolded e(1)] e(3), of "map_link_key e entry # currentLinks s"] by linarith
    with Cons.prems x e y g step show ?thesis
      by (cases y) (auto simp: seeding_loop_round split: option.splits)
  next
    case False
    with Cons.prems x same step show ?thesis
      by (cases x) (auto simp: seeding_loop_round split: option.splits if_splits)
  qed
qed (auto simp: ret_def)

lemma CreateNetMap_terminates:
  "CreateNetMap n q entry s = (r, s') \<Longrightarrow> grows s s' \<and> (unseen s < n \<longrightarrow> r \<noteq> Ok None)"
proof (induction n arbitrary: entry s r s')
  case (Suc n)
  from Suc.prems have "\<exists>ns. seeding_loop (CreateNetMap n q) q entry (Seeding entry) ns [] s = (r, s')"
    by (auto simp: gets_def)
  with seeding_loop_terminates [of "CreateNetMap n q" n] Suc.IH show ?case by (metis less_Suc_eq_le)
qed (simp add: ret_def)

text \<open>A bound that suffices can be raised.\<close>

lemma seeding_loop_raise:
  assumes rec: "\<And>e s r s'. rec e s = (r, s') \<Longrightarrow> r \<noteq> Ok None \<Longrightarrow> rec' e s = (r, s')"
  shows "seeding_loop rec q entry is ns ls s = (r, s') \<Longrightarrow> r \<noteq> Ok None \<Longrightarrow> seeding_loop rec' q entry is ns ls s = (r, s')"
proof (induction "is" arbitrary: ns ls s)
  case (Cons i "is")
  then show ?case
    by (auto simp: seeding_loop_round split: prod.splits res.splits option.splits if_splits dest!: rec)
qed simp

lemma CreateNetMap_raise:
  "CreateNetMap n q entry s = (r, s') \<Longrightarrow> r \<noteq> Ok None \<Longrightarrow> CreateNetMap (Suc n) q entry s = (r, s')"
proof (induction n arbitrary: entry s r s')
  case (Suc n)
  let ?ns = "if peer_key (Address entry) \<in> set (currentNodes s) then [] else [node_of entry]"
  have "seeding_loop (CreateNetMap n q) q entry (Seeding entry) ?ns [] s = (r, s')"
    using Suc.prems(1) unfolding CreateNetMap.simps bind_gets node_of_def .
  then have "seeding_loop (CreateNetMap (Suc n) q) q entry (Seeding entry) ?ns [] s = (r, s')"
    by (rule seeding_loop_raise [rotated]) (use Suc in auto)
  then show ?case unfolding CreateNetMap.simps(2) [of "Suc n"] bind_gets node_of_def .
qed (simp add: ret_def)

section \<open>Links\<close>

lemma link_of_inj:
  assumes "address_wf (Address e)" "address_wf (Address f)" "address_wf (Address e')" "address_wf (Address f')"
    "link_of e f = link_of e' f'"
  shows "map_link_key e f = map_link_key e' f'"
  using assms by (simp add: link_of_def map_link_key_def peer_key_def address_wf_def b58.enc_inj)

definition linked :: "netmap \<Rightarrow> map_link \<Rightarrow> bool" where
  "linked s x \<longleftrightarrow> (\<exists>e f. address_wf (Address e) \<and> address_wf (Address f) \<and> x = link_of e f \<and> map_link_key e f \<in> set (currentLinks s))"

definition new_links :: "netmap \<Rightarrow> netmap \<Rightarrow> map_link list \<Rightarrow> bool" where
  "new_links s s' l \<longleftrightarrow> distinct l \<and> (\<forall>x\<in>set l. linked s' x \<and> \<not> linked s x) \<and> (\<forall>x. linked s x \<longrightarrow> linked s' x)"

lemma linked_frame [simp]: "linked (s\<lparr>nm_db := d\<rparr>) = linked s" "linked (s\<lparr>currentNodes := c\<rparr>) = linked s"
  by (simp_all add: fun_eq_iff linked_def)

lemma new_links_add:
  assumes "address_wf (Address e)" "address_wf (Address f)" "map_link_key e f \<notin> set (currentLinks s)"
  shows "new_links s (s\<lparr>currentLinks := map_link_key e f # currentLinks s\<rparr>) [link_of e f]"
proof -
  have "\<not> linked s (link_of e f)"
    unfolding linked_def using link_of_inj [OF assms(1,2)] assms(3) by metis
  moreover have "linked (s\<lparr>currentLinks := map_link_key e f # currentLinks s\<rparr>) (link_of e f)"
    unfolding linked_def using assms(1,2) by force
  moreover have "linked s x \<Longrightarrow> linked (s\<lparr>currentLinks := map_link_key e f # currentLinks s\<rparr>) x" for x
    unfolding linked_def by auto
  ultimately show ?thesis by (simp add: new_links_def)
qed

lemma new_links_append: "new_links s t l \<Longrightarrow> new_links t u m \<Longrightarrow> new_links s u (l @ m)"
  unfolding new_links_def by (auto simp: disjoint_iff)

lemma new_links_Nil [simp]: "new_links s (s\<lparr>nm_db := d\<rparr>) []"
  by (simp add: new_links_def)

lemma seeding_loop_links:
  assumes rec: "\<And>e s n l s'. rec e s = (Ok (Some (n, l)), s') \<Longrightarrow> address_wf (Address e) \<Longrightarrow> new_links s s' l"
    and wf: "address_wf (Address entry)"
  shows "seeding_loop rec q entry is ns ls s = (Ok (Some (ns', ls')), s') \<Longrightarrow> \<exists>l. ls' = ls @ l \<and> new_links s s' l"
proof (induction "is" arbitrary: ns ls s)
  case Nil
  then have "ls' = ls @ []" "s' = s\<lparr>nm_db := nm_db s\<rparr>" by (auto simp: ret_def)
  then show ?case using new_links_Nil by metis
next
  case (Cons i "is")
  obtain x d where x: "DHT_Query q (peer_address i) (nm_db s) = (x, d)" by fastforce
  have step: "\<exists>l. ls' = ls @ l \<and> new_links s s' l"
    if "seeding_loop rec q entry is ms (ls @ m) t = (Ok (Some (ns', ls')), s')" "new_links s t m" for ms m t
    using Cons.IH [OF that(1)] that(2) new_links_append by (metis append.assoc)
  show ?case
  proof (cases "\<exists>e. x = Ok (Some e) \<and> map_link_key e entry \<notin> set (currentLinks s)")
    case True
    then obtain e where e: "x = Ok (Some e)" "map_link_key e entry \<notin> set (currentLinks s)" by blast
    have w: "address_wf (Address e)" using DHT_Query_known(2) [OF x [unfolded e(1)]] by (simp add: address_wf_def)
    let ?t = "s\<lparr>nm_db := d, currentLinks := map_link_key e entry # currentLinks s\<rparr>"
    have add: "new_links s ?t [link_of e entry]"
      using new_links_append [OF new_links_Nil [of s d] new_links_add [OF w wf, of "s\<lparr>nm_db := d\<rparr>"]] e(2) by simp
    show ?thesis
    proof (cases "peer_key (Address e) \<in> set (currentNodes s)")
      case True
      with Cons.prems x e have "seeding_loop rec q entry is ns (ls @ [link_of e entry]) ?t = (Ok (Some (ns', ls')), s')"
        by (simp add: seeding_loop_round)
      from step [OF this add] show ?thesis .
    next
      case False
      let ?u = "?t\<lparr>currentNodes := peer_key (Address e) # currentNodes s\<rparr>"
      from False Cons.prems x e obtain n l v where v: "rec e ?u = (Ok (Some (n, l)), v)"
        "seeding_loop rec q entry is (ns @ [node_of e] @ n) (ls @ [link_of e entry] @ l) v = (Ok (Some (ns', ls')), s')"
        by (auto simp: seeding_loop_round split: prod.splits res.splits option.splits)
      have "new_links ?t v l" using rec [OF v(1) w] by (simp add: new_links_def)
      from step [OF v(2) new_links_append [OF add this]] show ?thesis .
    qed
  next
    case False
    with Cons.prems x have "seeding_loop rec q entry is ns (ls @ []) (s\<lparr>nm_db := d\<rparr>) = (Ok (Some (ns', ls')), s')"
      by (cases x) (auto simp: seeding_loop_round split: option.splits if_splits)
    from step [OF this new_links_Nil] show ?thesis .
  qed
qed

lemma CreateNetMap_links:
  "CreateNetMap n q entry s = (Ok (Some (ns, ls)), s') \<Longrightarrow> address_wf (Address entry) \<Longrightarrow> new_links s s' ls"
proof (induction n arbitrary: entry s ns ls s')
  case (Suc n)
  from Suc.prems(1) obtain ms where "seeding_loop (CreateNetMap n q) q entry (Seeding entry) ms [] s = (Ok (Some (ns, ls)), s')"
    by (auto simp: gets_def)
  from seeding_loop_links [OF _ Suc.prems(2) this] Suc.IH show ?case by auto
qed (simp add: ret_def)

section \<open>Properties\<close>

text \<open>C15: The recursion that draws the map of the network ends: a depth of one more than the number of entries in the database
  is enough, whatever the entries seed and whichever queries fail, and with any greater bound the result is the same. The
  links it reports are pairwise different, as the comment in the code hopes.\<close>

theorem CreateNetMap_total:
  assumes "length (entry_tbl (conn d)) < n"
  shows "\<exists>r s'. r \<noteq> Ok None \<and>
    (\<forall>k. CreateNetMap (n + k) q entry \<lparr>nm_db = d, currentNodes = [], currentLinks = []\<rparr> = (r, s')) \<and>
    (\<forall>ns ls. r = Ok (Some (ns, ls)) \<and> address_wf (Address entry) \<longrightarrow> distinct ls)"
proof -
  let ?s = "\<lparr>nm_db = d, currentNodes = [], currentLinks = []\<rparr>"
  obtain r s' where r: "CreateNetMap n q entry ?s = (r, s')" by fastforce
  have "unseen ?s < n" using assms card_known [of "entry_tbl (conn d)"] by (simp add: unseen_def)
  with CreateNetMap_terminates [OF r] have ok: "r \<noteq> Ok None" by blast
  have "CreateNetMap (n + k) q entry ?s = (r, s')" for k
  proof (induction k)
    case (Suc k)
    from CreateNetMap_raise [OF this ok] show ?case by simp
  qed (simp add: r)
  moreover have "distinct ls" if "r = Ok (Some (ns, ls))" "address_wf (Address entry)" for ns ls
    using CreateNetMap_links [OF r [unfolded that(1)] that(2)] by (simp add: new_links_def)
  ultimately show ?thesis using ok by blast
qed

theorem CreateNetMap_total_witness:
  "\<exists>r s'. r \<noteq> Ok None \<and> CreateNetMap 3 demo_sqlite (demo_entry 5 ''a'') \<lparr>nm_db = demo_two, currentNodes = [], currentLinks = []\<rparr> = (r, s')"
  using CreateNetMap_total [of demo_two 3 demo_sqlite "demo_entry 5 ''a''"] by (metis add_0_right demo_two_conn(4) length_Cons lessI list.size(3) numeral_2_eq_2 numeral_3_eq_3)

end
