(* ===== verification/Manager_Props.thy ===== *)
theory Manager_Props
  imports Node_Props
begin

text \<open>
  The peer manager's bound on the number of connected peers, and whom it disconnects to keep it.
\<close>

section \<open>The search for the oldest peer\<close>

lemma foldl_last:
  "foldl (\<lambda>k' (k, t). if t < now then k else k') k0 xs =
     (let ys = filter (\<lambda>(k, t). t < now) xs in if ys = [] then k0 else fst (last ys))"
  by (induction xs arbitrary: k0) (auto simp: Let_def)

lemma oldest_key_eq:
  "oldest_key now seen = (let ys = filter (\<lambda>(k, t). t < now) seen in if ys = [] then [] else fst (last ys))"
  by (simp add: oldest_key_def foldl_last)

lemma oldest_key_in:
  assumes "(k, t) \<in> set seen" "t < now"
  obtains u where "(oldest_key now seen, u) \<in> set seen" "u < now"
proof -
  let ?ys = "filter (\<lambda>(k, t). t < now) seen"
  have "(k, t) \<in> set ?ys" using assms by simp
  then have ne: "?ys \<noteq> []" by (metis empty_iff empty_set)
  then have "last ?ys \<in> set ?ys" by (rule last_in_set)
  with ne that [of "snd (last ?ys)"] show ?thesis by (cases "last ?ys") (auto simp: oldest_key_eq Let_def)
qed

lemma set_delete_iff: "x \<in> set (AList.delete k xs) \<longleftrightarrow> x \<in> set xs \<and> fst x \<noteq> k"
  by (cases x) (auto simp: AList.delete_eq)

lemma keys_delete: "fst ` set (AList.delete k xs) = fst ` set xs - {k}"
  by (induction xs) auto

lemma length_delete:
  "distinct (map fst xs) \<Longrightarrow> k \<in> fst ` set xs \<Longrightarrow> Suc (length (AList.delete k xs)) = length xs"
proof (induction xs)
  case (Cons x xs)
  then show ?case
  proof (cases "fst x = k")
    case True
    with Cons.prems have "AList.delete k xs = xs" by (intro delete_id) auto
    with True show ?thesis by (cases x) (simp add: AList.delete_eq)
  qed (cases x; auto simp: AList.delete_eq)
qed simp

lemma length_filter_delete:
  assumes "\<And>x. P x \<Longrightarrow> Q x"
  shows "length (filter P (AList.delete k xs)) \<le> length (filter Q xs)"
  using assms by (induction xs) (auto simp: AList.delete_eq le_SucI)

section \<open>Eviction\<close>

text \<open>
  The maps of the manager agree: a peer is known by the key of its address, there is a time for exactly the
  connected peers, the map iterates over all of them, and none of their seed managers has been closed.
\<close>

definition manager_ok :: "node \<Rightarrow> bool" where
  "manager_ok s \<longleftrightarrow>
     distinct (map fst (peers s)) \<and> distinct (map fst (peerSeen s)) \<and> fst ` set (peers s) = fst ` set (peerSeen s) \<and>
     list_all (\<lambda>(k, p). p < length (peer_heap s) \<and> peer_key (p_address (the_peer p s)) = k \<and> map_of (seedManagers s) k \<noteq> Some False) (peers s) \<and>
     (\<forall>xs. set (map_iter (world s) xs) = set xs)"

definition recent :: "node \<Rightarrow> nat" where
  "recent s = length (filter (\<lambda>(k, t). t \<ge> clock (world s)) (peerSeen s))"

lemma Now_run:
  obtains now w where "Now (world s) = (Ok now, w)" "now \<ge> clock (world s)" "clock w = now" "map_iter w = map_iter (world s)"
  by (cases "ticks (world s)") (simp_all add: Now_def)

lemma close_run:
  assumes "map_of (seedManagers s) (peer_key a) \<noteq> Some False"
  obtains s' where "PM_HandleCloseConnection a s = (Ok (), s')"
    "peers s' = AList.delete (peer_key a) (peers s)" "peerSeen s' = AList.delete (peer_key a) (peerSeen s)"
    "peer_heap s' = peer_heap s" "world s' = world s" "maxPeers s' = maxPeers s"
    "\<And>k. k \<noteq> peer_key a \<Longrightarrow> map_of (seedManagers s') k = map_of (seedManagers s) k"
  using assms
  by (intro that [of "snd (PM_HandleCloseConnection a s)"])
    (auto simp: PM_HandleCloseConnection_def ret_def modify_def update_conv' split: option.splits bool.splits)

lemma manager_ok_delete:
  assumes ok: "manager_ok s"
    and maps: "peers s' = AList.delete k (peers s)" "peerSeen s' = AList.delete k (peerSeen s)"
    and heap: "length (peer_heap s') = length (peer_heap s)" "\<And>q. p_address (the_peer q s') = p_address (the_peer q s)"
    and rest: "map_iter (world s') = map_iter (world s)" "\<And>x. x \<noteq> k \<Longrightarrow> map_of (seedManagers s') x = map_of (seedManagers s) x"
  shows "manager_ok s'"
proof -
  have "fst ` set (peers s') = fst ` set (peerSeen s')"
    using ok by (simp add: maps manager_ok_def keys_delete)
  moreover have "q < length (peer_heap s') \<and> peer_key (p_address (the_peer q s')) = x \<and> map_of (seedManagers s') x \<noteq> Some False"
    if "(x, q) \<in> set (peers s')" for x q
    using that ok rest(2) [of x] by (auto simp: maps heap set_delete_iff manager_ok_def list_all_iff)
  then have "list_all (\<lambda>(x, q). q < length (peer_heap s') \<and> peer_key (p_address (the_peer q s')) = x \<and>
      map_of (seedManagers s') x \<noteq> Some False) (peers s')" by (auto simp: list_all_iff)
  moreover have "distinct (map fst (peers s'))" "distinct (map fst (peerSeen s'))" "\<forall>xs. set (map_iter (world s') xs) = set xs"
    using ok by (simp_all add: manager_ok_def maps distinct_delete rest(1))
  ultimately show ?thesis unfolding manager_ok_def by blast
qed

lemma evict_round:
  assumes ok: "manager_ok s" and full: "int (PM_Count s) > maxPeers s" "int (recent s) \<le> maxPeers s"
  obtains s' where "evict (Suc n) s = evict n s'" "manager_ok s'" "Suc (PM_Count s') = PM_Count s" "maxPeers s' = maxPeers s"
    "int (recent s') \<le> maxPeers s'"
proof -
  have keys: "distinct (map fst (peers s))" "distinct (map fst (peerSeen s))" "fst ` set (peers s) = fst ` set (peerSeen s)"
    and each: "\<And>k p. (k, p) \<in> set (peers s) \<Longrightarrow>
      p < length (peer_heap s) \<and> peer_key (p_address (the_peer p s)) = k \<and> map_of (seedManagers s) k \<noteq> Some False"
    and iter: "\<And>xs. set (map_iter (world s) xs) = set xs"
    using ok by (auto simp: manager_ok_def list_all_iff)
  have "length (peers s) = length (peerSeen s)"
    using distinct_card [OF keys(1)] distinct_card [OF keys(2)] keys(3) by simp
  with full have "length (filter (\<lambda>(k, t). t \<ge> clock (world s)) (peerSeen s)) < length (peerSeen s)"
    by (simp add: recent_def PM_Count_def)
  then have "\<not> (\<forall>x\<in>set (peerSeen s). case x of (k, t) \<Rightarrow> t \<ge> clock (world s))"
    by (metis (no_types, lifting) filter_True less_irrefl)
  then obtain k t where kt: "(k, t) \<in> set (peerSeen s)" "t < clock (world s)" by force
  obtain now w where w: "Now (world s) = (Ok now, w)" "now \<ge> clock (world s)" "clock w = now" "map_iter w = map_iter (world s)" by (rule Now_run)
  let ?s1 = "s\<lparr>world := w\<rparr>" and ?k = "oldest_key now (map_iter w (peerSeen s))"
  have "(k, t) \<in> set (map_iter w (peerSeen s))" "t < now" using kt w iter by auto
  then obtain u where "(?k, u) \<in> set (map_iter w (peerSeen s))" by (rule oldest_key_in)
  then have "(?k, u) \<in> set (peerSeen s)" using iter w(4) by simp
  then have "?k \<in> fst ` set (peers s)" unfolding keys(3) by (rule image_eqI [rotated]) simp
  then obtain p where p: "(?k, p) \<in> set (peers s)" by (metis imageE prod.collapse)
  note e = each [OF p]
  let ?s2 = "upd_peer p (\<lambda>pr. pr\<lparr>p_streams := SM_Close (p_streams pr)\<rparr>) ?s1"
  let ?a = "p_address (the_peer p ?s2)"
  have s2: "the_peer q ?s2 = (if q = p then (the_peer p s)\<lparr>p_streams := SM_Close (p_streams (the_peer p s))\<rparr> else the_peer q s)" for q
    using e by (simp add: the_peer_def upd_peer_def)
  have a: "peer_key ?a = ?k" "map_of (seedManagers ?s2) ?k \<noteq> Some False" using e by (simp_all add: s2) (simp add: upd_peer_def)
  obtain s' where s': "PM_HandleCloseConnection ?a ?s2 = (Ok (), s')"
    "peers s' = AList.delete ?k (peers ?s2)" "peerSeen s' = AList.delete ?k (peerSeen ?s2)"
    "peer_heap s' = peer_heap ?s2" "world s' = world ?s2" "maxPeers s' = maxPeers ?s2"
    "\<And>k. k \<noteq> ?k \<Longrightarrow> map_of (seedManagers s') k = map_of (seedManagers ?s2) k"
    by (rule close_run [of ?s2 ?a]) (use a in simp_all)
  have q: "map_of (peers s) ?k = Some p" using p keys(1) by simp
  have "evict (Suc n) s = evict n s'"
    using full(1) w(1) q s'(1) by (simp add: bind_def gets_def zoom_def Peer_Terminate_def modify_def)
  moreover have "manager_ok s'"
  proof (rule manager_ok_delete [OF ok])
    show "p_address (the_peer q s') = p_address (the_peer q s)" for q
      using s'(4) s2 [of q] by (simp add: the_peer_def)
  qed (use s' w(4) in \<open>simp_all add: upd_peer_def\<close>)
  moreover have "Suc (PM_Count s') = PM_Count s"
    using s'(2) length_delete [OF keys(1), of ?k] p by (force simp: PM_Count_def upd_peer_def)
  moreover have "recent s' \<le> recent s"
    using s'(3,5) w(2,3) by (simp add: recent_def upd_peer_def) (rule length_filter_delete, auto)
  ultimately show ?thesis using that s'(6) full(2) by (simp add: upd_peer_def)
qed

lemma evict_bound:
  assumes "manager_ok s" "int (recent s) \<le> maxPeers s" "PM_Count s < n"
  obtains s' where "evict n s = (Ok (), s')" "int (PM_Count s') \<le> maxPeers s" "manager_ok s'"
  using assms
proof (induction n arbitrary: s thesis)
  case (Suc n)
  show ?case
  proof (cases "int (PM_Count s) > maxPeers s")
    case True
    obtain t where t: "evict (Suc n) s = evict n t" "manager_ok t" "Suc (PM_Count t) = PM_Count s" "maxPeers t = maxPeers s"
      "int (recent t) \<le> maxPeers t"
      by (rule evict_round [OF Suc.prems(2) True Suc.prems(3)])
    obtain s' where "evict n t = (Ok (), s')" "int (PM_Count s') \<le> maxPeers t" "manager_ok s'"
      by (rule Suc.IH [OF _ t(2,5)]) (use t(3) Suc.prems(4) in simp_all)
    with t Suc.prems(1) show ?thesis by simp
  next
    case False
    then show ?thesis using Suc.prems(1,2) by (simp add: gets_def ret_def)
  qed
qed simp

text \<open>When all times lie in the past, the peer that is chosen is the last one the map iterates over, whatever the times are.\<close>

lemma oldest_key_last:
  assumes "seen \<noteq> []" "list_all (\<lambda>(k, t). t < now) seen"
  shows "oldest_key now seen = fst (last seen)"
proof -
  have "filter (\<lambda>(k, t). t < now) seen = seen" using assms(2) by (simp add: list_all_iff filter_id_conv)
  with assms(1) show ?thesis by (simp add: oldest_key_eq)
qed

lemma manager_ok_add:
  assumes ok: "manager_ok s" and p: "p < length (peer_heap s)" "a = p_address (the_peer p s)" "map_of (seedManagers s) (peer_key a) \<noteq> Some False"
  shows "manager_ok (s\<lparr>publicToZif := x, peer_heap := (peer_heap s)[p := (the_peer p s)\<lparr>p_managed := True\<rparr>],
    peers := AList.update (peer_key a) p (peers s), world := (world s)\<lparr>clock := c, ticks := ts\<rparr>,
    peerSeen := AList.update (peer_key a) t (peerSeen s)\<rparr>)" (is "manager_ok ?s")
proof -
  have a: "p_address (the_peer q ?s) = p_address (the_peer q s)" for q
    using p(1) by (simp add: the_peer_def nth_list_update)
  have "q < length (peer_heap ?s) \<and> peer_key (p_address (the_peer q ?s)) = k \<and> map_of (seedManagers ?s) k \<noteq> Some False"
    if "(k, q) \<in> set (peers ?s)" for k q
  proof (cases "k = peer_key a")
    case True
    have d: "distinct (map fst (peers ?s))" using ok by (simp add: manager_ok_def distinct_update)
    have "map_of (peers ?s) k = Some q" using that d by (simp only: map_of_eq_Some_iff)
    then have "q = p" using True by (simp add: update_conv')
    with True p show ?thesis using a [of p] by simp
  next
    case False
    have d: "distinct (map fst (peers ?s))" "distinct (map fst (peers s))" using ok by (simp_all add: manager_ok_def distinct_update)
    have "map_of (peers ?s) k = Some q" using that d(1) by (simp only: map_of_eq_Some_iff)
    then have "(k, q) \<in> set (peers s)" using False d(2) by (simp add: update_conv')
    with ok a [of q] show ?thesis by (auto simp: manager_ok_def list_all_iff)
  qed
  then have "list_all (\<lambda>(k, q). q < length (peer_heap ?s) \<and> peer_key (p_address (the_peer q ?s)) = k \<and>
      map_of (seedManagers ?s) k \<noteq> Some False) (peers ?s)" by (auto simp: list_all_iff)
  moreover have "distinct (map fst (peers ?s))" "distinct (map fst (peerSeen ?s))" "fst ` set (peers ?s) = fst ` set (peerSeen ?s)"
    "\<forall>xs. set (map_iter (world ?s) xs) = set xs"
    using ok by (simp_all add: manager_ok_def distinct_update dom_update)
  ultimately show ?thesis unfolding manager_ok_def by blast
qed

lemma recent_update:
  fixes c :: int
  shows "list_all (\<lambda>(k, t). t < c) xs \<Longrightarrow> length (filter (\<lambda>(k, t). t \<ge> c) (AList.update k u xs)) \<le> 1"
proof (induction xs)
  case (Cons x xs)
  have "filter (\<lambda>(k, t). t \<ge> c) xs = []" using Cons.prems by (induction xs) auto
  with Cons show ?case by (cases x) auto
qed simp

lemma Now_clock:
  obtains c ts where "Now w = (Ok c, w\<lparr>clock := c, ticks := ts\<rparr>)" "c \<ge> clock w"
proof (cases "ticks w")
  case Nil
  then have "Now w = (Ok (clock w), w\<lparr>clock := clock w, ticks := []\<rparr>)" by (simp add: Now_def)
  then show ?thesis by (rule that) simp
next
  case (Cons d ds)
  then show ?thesis by (intro that [of "clock w + int d" ds]) (simp_all add: Now_def)
qed

text \<open>A new peer that has presented its entry is registered, before the loop makes room.\<close>

lemma SetPeer_run:
  assumes "map_of (peers s) (peer_key a) = None" "a = p_address (the_peer p s)" "Peer_Entry L p s = (Ok e, s1)"
    and "Now (world s1) = (Ok c, w)"
  defines "s2 \<equiv> s1\<lparr>publicToZif := AList.update (PublicAddress e) a (publicToZif s1),
    peer_heap := (peer_heap s1)[p := (the_peer p s1)\<lparr>p_managed := True\<rparr>],
    peers := AList.update (peer_key a) p (peers s1), world := w,
    peerSeen := AList.update (peer_key a) c (peerSeen s1)\<rparr>"
  shows "PM_SetPeer L p s = evict (Suc (PM_Count s2)) s2"
  using assms(1-4) unfolding s2_def
  by (simp add: PM_SetPeer_def bind_def attempt_def gets_def modify_def zoom_def upd_peer_def the_peer_def del: evict.simps)

section \<open>Properties\<close>

text \<open>C16: The number of connected peers is bounded. When a new peer has presented its entry and is registered, and all others
  were seen before, the loop that makes room ends, within one round more than there are peers, and leaves at most the
  configured number of them connected; the maps of the manager agree afterwards as they did before.\<close>

theorem SetPeer_bounded:
  assumes "map_of (peers s) (peer_key a) = None" "a = p_address (the_peer p s)" "Peer_Entry L p s = (Ok e, s1)"
    and "manager_ok s1" "p < length (peer_heap s1)" "p_address (the_peer p s1) = a" "map_of (seedManagers s1) (peer_key a) \<noteq> Some False"
    and "list_all (\<lambda>(k, t). t < clock (world s1)) (peerSeen s1)" "1 \<le> maxPeers s1"
  shows "\<exists>s'. PM_SetPeer L p s = (Ok (), s') \<and> int (PM_Count s') \<le> maxPeers s1 \<and> manager_ok s'"
proof -
  obtain c ts where now: "Now (world s1) = (Ok c, (world s1)\<lparr>clock := c, ticks := ts\<rparr>)" "c \<ge> clock (world s1)"
    by (rule Now_clock)
  let ?s = "s1\<lparr>publicToZif := AList.update (PublicAddress e) a (publicToZif s1),
    peer_heap := (peer_heap s1)[p := (the_peer p s1)\<lparr>p_managed := True\<rparr>],
    peers := AList.update (peer_key a) p (peers s1), world := (world s1)\<lparr>clock := c, ticks := ts\<rparr>,
    peerSeen := AList.update (peer_key a) c (peerSeen s1)\<rparr>"
  have ok: "manager_ok ?s" by (rule manager_ok_add) (use assms in auto)
  have "list_all (\<lambda>(k, t). t < c) (peerSeen s1)" using assms(8) now(2) by (auto simp: list_all_iff)
  from recent_update [OF this, of "peer_key a" c] assms(9) have r: "int (recent ?s) \<le> maxPeers ?s" by (simp add: recent_def)
  obtain s' where s': "evict (Suc (PM_Count ?s)) ?s = (Ok (), s')" "int (PM_Count s') \<le> maxPeers ?s" "manager_ok s'"
    by (rule evict_bound [OF ok r lessI])
  have "PM_SetPeer L p s = evict (Suc (PM_Count ?s)) ?s" by (rule SetPeer_run [OF assms(1-3) now(1)])
  with s' show ?thesis by simp
qed

text \<open>Two peers for one place.\<close>

definition full_node :: node where
  "full_node = demo_node\<lparr>maxPeers := 1,
     peer_heap := [empty_peer\<lparr>p_address := peer_address (demo_raw 5)\<rparr>,
       empty_peer\<lparr>p_address := peer_address (demo_raw 6), p_entry := Some (demo_entry 6 ''a'')\<rparr>],
     peers := [(peer_key (peer_address (demo_raw 5)), 0)], peerSeen := [(peer_key (peer_address (demo_raw 5)), 3)],
     world := (world demo_node)\<lparr>clock := 4, map_iter := id\<rparr>\<rparr>"

theorem SetPeer_bounded_witness: "\<exists>s'. PM_SetPeer demo_libs 1 full_node = (Ok (), s') \<and> PM_Count s' \<le> 1"
proof -
  have e: "Peer_Entry demo_libs 1 full_node = (Ok (demo_entry 6 ''a''), full_node)"
    by (simp add: Peer_Entry_def full_node_def the_peer_def ret_def)
  have k: "peer_key (peer_address (demo_raw 6)) \<noteq> peer_key (peer_address (demo_raw 5))"
    by (simp add: peer_key_def peer_address_def demo_raw_def to_string_def)
  have "\<exists>s'. PM_SetPeer demo_libs 1 full_node = (Ok (), s') \<and> int (PM_Count s') \<le> maxPeers full_node \<and> manager_ok s'"
    by (rule SetPeer_bounded [OF _ _ e])
      (use k in \<open>simp_all add: full_node_def the_peer_def manager_ok_def demo_node_def fresh_node_def empty_peer_def\<close>)
  then show ?thesis by (auto simp: full_node_def)
qed

end
