(* ===== verification/Connect_Session.thy ===== *)
theory Connect_Session
  imports Resolve_Props Manager_Props
begin

text \<open>
  A connection between two nodes: what the dialling node writes, how the listening node takes it, and which
  peers both know afterwards.
\<close>

section \<open>The dialling side\<close>

lemma handleConnection_run:
  assumes "crypto_ok C" "msgpack_ok M" "length skA = PrivateKeySize"
    and "length skB = PrivateKeySize" "PublicKey eB = drop 32 skB" "entry_valid C eB" "\<not> too_big M (WEntry (Some eB))"
    and "length cA = 20" "length cB = 20"
  shows "handleConnection C M (\<lambda>_. Ok cA) (skA, capsA) eA (side (server_says C skB capsB eB cA cB)) =
    (Ok (exported eB, capsB), (side [])\<lparr>outbox := client_says C skA capsA eA cB cA, sent_raw := [ProtoZif, ProtoVersion]\<rparr>)"
proof -
  let ?c = "side (server_says C skB capsB eB cA cB)"
  have "WriteInt16 ProtoZif ?c = (Ok (), ?c\<lparr>sent_raw := [ProtoZif]\<rparr>)"
    "WriteInt16 ProtoVersion (?c\<lparr>sent_raw := [ProtoZif]\<rparr>) = (Ok (), ?c\<lparr>sent_raw := [ProtoZif, ProtoVersion]\<rparr>)"
    by (simp_all add: WriteInt16_def side_def)
  then show ?thesis using SM_Handshake_run [OF assms, of capsA eA "[ProtoZif, ProtoVersion]" capsB]
    by (simp add: handleConnection_def bind_def ret_def)
qed

lemma Peer_Connect_run:
  assumes "p < length (peer_heap s)" "\<not> Socks (p_streams (the_peer p s))" "sm_connection (p_streams (the_peer p s)) = None"
    and w: "mux_faults (world s) = []" "dials (world s) = Ok c # ds" "rand_reads (world s) = Ok r # rs"
    and h: "handleConnection (CR L) (MP L) (\<lambda>_. Ok r) (privateKey s, p_capabilities (lpeer s)) (lp_Entry s) c = (Ok (e, caps), c')"
    and "fst (DHT_Insert (CR L) (SQ L) e (ndb s)) \<noteq> Panic"
  obtains s' where "Peer_Connect L p addr s = (Ok (), s')" "ndb s' = snd (DHT_Insert (CR L) (SQ L) e (ndb s))"
    "lp_Entry s' = lp_Entry s" "lp_Address s' = lp_Address s"
    "p_address (the_peer p s') = Address e" "p_publicKey (the_peer p s') = PublicKey e" "p_capabilities (the_peer p s') = caps"
    "sm_connection (p_streams (the_peer p s')) = Some \<lparr>CH_Client = c', CH_Entry = e, CH_Caps = caps\<rparr>"
proof -
  let ?h = "\<lparr>CH_Client = c', CH_Entry = e, CH_Caps = caps\<rparr>"
  let ?sm = "SetConnection ?h (p_streams (the_peer p s))"
  have o: "OpenTCP (CR L) (MP L) (\<lambda>_. Ok r) (Ok ()) (privateKey s, p_capabilities (lpeer s)) (lp_Entry s) (Ok c) (p_streams (the_peer p s)) =
      (Ok ?h, ?sm)"
    using assms(2,3) h by (simp add: OpenTCP_def store_connection_def bind_def gets_def lift_res_def modify_def ret_def Let_def)
  let ?s = "(upd_peer p (\<lambda>pr. (pr\<lparr>p_streams := ?sm\<rparr>)\<lparr>p_capabilities := caps, p_publicKey := PublicKey e, p_address := Address e, p_limiter := True\<rparr>)
     (s\<lparr>world := (world s)\<lparr>dials := ds, rand_reads := rs\<rparr>\<rparr>))\<lparr>ndb := snd (DHT_Insert (CR L) (SQ L) e (ndb s))\<rparr>"
  have "Peer_Connect L p addr s = (Ok (), ?s)"
    using assms(1,8) w o
    by (cases "DHT_Insert (CR L) (SQ L) e (ndb s)")
      (auto simp: Peer_Connect_def bind_def gets_def zoom_def mux_call_def next_dial_def next_rand_def modify_def upd_peer_def
        the_peer_def ignore_def attempt_def ret_def split: res.splits)
  then show ?thesis
    by (rule that) (use assms(1) in \<open>simp_all add: upd_peer_def the_peer_def SetConnection_def lp_Address_def\<close>)
qed

section \<open>The listening side\<close>

text \<open>The entry of a peer that is connected but not registered yet, asked of the peer itself.\<close>

lemma Peer_Entry_run:
  assumes p: "p < length (peer_heap s)" "p_entry (the_peer p s) = None" "\<not> p_managed (the_peer p s)" "SM_GetSession (p_streams (the_peer p s))"
    and w: "pings (world s) = []" "mux_faults (world s) = []" "streams (world s) = Ok c # ss"
    and q: "fst (Client_Query (CR L) (MP L) (p_address (the_peer p s)) c) = Ok e" "Address_Equals (Address e) (p_address (the_peer p s))"
  obtains l where "Peer_Entry L p s = (Ok e, s\<lparr>world := (world s)\<lparr>streams := ss, stream_log := l\<rparr>,
    peer_heap := (peer_heap s)[p := (the_peer p s)\<lparr>p_entry := Some e\<rparr>]\<rparr>)"
proof -
  obtain c' where c: "Client_Query (CR L) (MP L) (p_address (the_peer p s)) c = (Ok e, c')" using q(1) by (metis prod.collapse)
  let ?s = "s\<lparr>world := (world s)\<lparr>streams := ss, stream_log := stream_log (world s) @ [snd (Client_Close c')]\<rparr>\<rparr>"
  have g: "Peer_Ping p s = (Ok (), s)" by (rule Peer_Ping_ok [OF p(4) w(1)])
  have "Peer_OpenStream p s = (Ok c, s\<lparr>world := (world s)\<lparr>streams := ss\<rparr>\<rparr>)"
    using p w g by (simp add: Peer_OpenStream_def UpdateSeen_def bind_def gets_def zoom_def next_stream_def mux_call_def lift_res_def ret_def)
  then have "Peer_Query L p (p_address (the_peer p s)) s = (Ok e, ?s)"
    using g c by (simp add: Peer_Query_def with_stream_def bind_def deferred_def)
  then show ?thesis
    using p(2) g q(2) by (intro that) (simp add: Peer_Entry_def Peer_GetEntry_def bind_def gets_def modify_def upd_peer_def the_peer_def ret_def)
qed

text \<open>A peer for which there is room is registered; being registered once is enough.\<close>

lemma SetPeer_room:
  assumes "map_of (peers s) (peer_key (p_address (the_peer p s))) = None" "Peer_Entry L p s = (Ok e, s1)"
    and "peers s1 = peers s" "maxPeers s1 = maxPeers s" "int (PM_Count s) < maxPeers s" "p < length (peer_heap s1)"
  obtains s' where "PM_SetPeer L p s = (Ok (), s')" "PM_GetPeer (p_address (the_peer p s)) s' = Some p"
    "the_peer p s' = (the_peer p s1)\<lparr>p_managed := True\<rparr>" "ndb s' = ndb s1" "length (peer_heap s') = length (peer_heap s1)"
proof -
  obtain c ts where now: "Now (world s1) = (Ok c, (world s1)\<lparr>clock := c, ticks := ts\<rparr>)" by (rule Now_clock)
  let ?a = "p_address (the_peer p s)"
  let ?s = "s1\<lparr>publicToZif := AList.update (PublicAddress e) ?a (publicToZif s1),
    peer_heap := (peer_heap s1)[p := (the_peer p s1)\<lparr>p_managed := True\<rparr>],
    peers := AList.update (peer_key ?a) p (peers s1), world := (world s1)\<lparr>clock := c, ticks := ts\<rparr>,
    peerSeen := AList.update (peer_key ?a) c (peerSeen s1)\<rparr>"
  have "length (AList.update k v xs) \<le> Suc (length xs)" for k :: string and v :: nat and xs
    by (induction xs) auto
  then have "PM_Count ?s \<le> Suc (PM_Count s)" using assms(3) by (simp add: PM_Count_def)
  then have "evict (Suc (PM_Count ?s)) ?s = (Ok (), ?s)" using assms(4,5) by (simp add: gets_def ret_def)
  with SetPeer_run [OF assms(1) HOL.refl assms(2) now] show ?thesis
    by (intro that [of ?s]) (use assms(6) in \<open>simp_all add: PM_GetPeer_def update_conv' the_peer_def\<close>)
qed

lemma SetPeer_known: "PM_GetPeer (p_address (the_peer p s)) s = Some q \<Longrightarrow> PM_SetPeer L p s = (Ok (), s)"
  by (simp add: PM_SetPeer_def PM_GetPeer_def bind_def gets_def ret_def)

lemma HandleHandshake_run:
  fixes h :: conn_header
  assumes w: "pings (world s) = []" "mux_faults (world s) = []" "streams (world s) = Ok c # ss"
    and q: "fst (Client_Query (CR L) (MP L) (Address (CH_Entry h)) c) = Ok e" "Address_Equals (Address e) (Address (CH_Entry h))"
    and new: "map_of (peers s) (peer_key (Address (CH_Entry h))) = None" "int (PM_Count s) < maxPeers s"
    and "fst (DHT_Insert (CR L) (SQ L) e (ndb s)) \<noteq> Panic"
  obtains s' where "HandleHandshake L h s = (Ok (length (peer_heap s)), s')" "PM_GetPeer (Address (CH_Entry h)) s' = Some (length (peer_heap s))"
    "p_entry (the_peer (length (peer_heap s)) s') = Some e" "p_address (the_peer (length (peer_heap s)) s') = Address (CH_Entry h)"
    "p_publicKey (the_peer (length (peer_heap s)) s') = PublicKey (CH_Entry h)"
    "ndb s' = snd (DHT_Insert (CR L) (SQ L) e (ndb s))"
proof -
  let ?p = "length (peer_heap s)"
  let ?pr = "empty_peer\<lparr>p_streams := (SetConnection h empty_sm)\<lparr>sm_server := True\<rparr>, p_publicKey := PublicKey (CH_Entry h),
    p_address := Address (CH_Entry h), p_limiter := True\<rparr>"
  let ?s = "s\<lparr>peer_heap := peer_heap s @ [?pr]\<rparr>"
  have t: "the_peer ?p ?s = ?pr" by (simp add: the_peer_def)
  obtain l where l: "Peer_Entry L ?p ?s = (Ok e, ?s\<lparr>world := (world ?s)\<lparr>streams := ss, stream_log := l\<rparr>,
      peer_heap := (peer_heap ?s)[?p := (the_peer ?p ?s)\<lparr>p_entry := Some e\<rparr>]\<rparr>)" (is "_ = (_, ?t)")
    by (rule Peer_Entry_run [of ?p ?s c ss L e])
      (use w q in \<open>simp_all add: the_peer_def empty_peer_def SM_GetSession_def empty_sm_def SetConnection_def\<close>)
  obtain u where u: "PM_SetPeer L ?p ?s = (Ok (), u)" "PM_GetPeer (Address (CH_Entry h)) u = Some ?p"
    "the_peer ?p u = (the_peer ?p ?t)\<lparr>p_managed := True\<rparr>" "ndb u = ndb ?t"
    using SetPeer_room [OF _ l] new by (auto simp: t PM_Count_def)
  have e: "p_entry (the_peer ?p u) = Some e" unfolding u(3) by (simp add: the_peer_def)
  have start: "bind (new_peer empty_peer) (\<lambda>p. bind (Peer_SetTCP p h) (\<lambda>_. bind (Peer_ConnectServer p) (f p))) s = f ?p () ?s" for f :: "nat \<Rightarrow> unit \<Rightarrow> (node, nat) proc"
    using w(2) by (simp add: bind_def new_peer_def Peer_SetTCP_def modify_def Peer_ConnectServer_def zoom_def mux_call_def ConnectServer_def
        gets_def lift_res_def upd_peer_def the_peer_def ret_def empty_peer_def empty_sm_def SetConnection_def)
  have "HandleHandshake L h s = bind (PM_SetPeer L ?p) (\<lambda>_. bind (Peer_Entry L ?p) (\<lambda>entry.
      bind (ignore (on_dht (DHT_Insert (CR L) (SQ L) entry))) (\<lambda>_. ret ?p))) ?s"
    unfolding HandleHandshake_def start ..
  also have "\<dots> = (Ok ?p, u\<lparr>ndb := snd (DHT_Insert (CR L) (SQ L) e (ndb s))\<rparr>)"
    using u(1,4) e assms(8)
    by (cases "DHT_Insert (CR L) (SQ L) e (ndb s)")
      (auto simp: bind_def Peer_Entry_def gets_def ignore_def attempt_def zoom_def ret_def split: res.splits)
  finally show ?thesis
    by (rule that) (use u(2) e in \<open>simp_all add: PM_GetPeer_def the_peer_def u(3) [unfolded the_peer_def]\<close>)
qed

lemma Server_Handshake_run:
  assumes r: "rand_reads (world s) = Ok cookie # rs"
    and h: "handshake (CR L) (MP L) (\<lambda>_. Ok cookie) (Some (privateKey s, p_capabilities (lpeer s))) (lp_Entry s) c = (Ok (e, caps), c')"
    and k: "HandleHandshake L \<lparr>CH_Client = c', CH_Entry = e, CH_Caps = caps\<rparr> (s\<lparr>world := (world s)\<lparr>rand_reads := rs\<rparr>\<rparr>) = (Ok p, s')"
    and "PM_GetPeer (p_address (the_peer p s')) s' = Some p"
  shows "Server_Handshake L (s, c) = (Ok (Some p), s'\<lparr>lpeer := (lpeer s')\<lparr>p_capabilities := caps\<rparr>\<rparr>, c')"
proof -
  let ?s = "s'\<lparr>lpeer := (lpeer s')\<lparr>p_capabilities := caps\<rparr>\<rparr>"
  have "PM_SetPeer L p ?s = (Ok (), ?s)"
    by (rule SetPeer_known) (use assms(4) in \<open>simp add: PM_GetPeer_def the_peer_def\<close>)
  then show ?thesis
    using r h k by (simp add: Server_Handshake_def bind_def zoom_def next_rand_def gets_def attempt_def modify_def ret_def)
qed

section \<open>Properties\<close>


section \<open>Two nodes\<close>

definition listener :: node where
  "listener = demo_node\<lparr>lp_Entry := demo_entry 6 ''b'', ndb := demo_ndb,
     world := demo_world\<lparr>rand_reads := [Ok (replicate 20 2)], streams := [Ok (side [entry_message (Some (demo_entry 5 ''a''))])]\<rparr>\<rparr>"

definition dialler :: node where
  "dialler = demo_node\<lparr>lp_Entry := demo_entry 5 ''a'', ndb := demo_ndb, peer_heap := [empty_peer],
     lpeer := (lpeer demo_node)\<lparr>p_address := peer_address (demo_raw 5)\<rparr>,
     world := demo_world\<lparr>rand_reads := [Ok (replicate 20 1)],
       dials := [Ok (side (server_says demo_crypto demo_sk [''gzip'', ''none''] (demo_entry 6 ''b'') (replicate 20 1) (replicate 20 2)))]\<rparr>\<rparr>"

lemma dialler_sel [simp]: "lp_Entry dialler = demo_entry 5 ''a''" "privateKey dialler = demo_sk" "lp_Address dialler = peer_address (demo_raw 5)"
  "ndb dialler = demo_ndb" "length (peer_heap dialler) = 1" "\<not> Socks (p_streams (the_peer 0 dialler))"
  "sm_connection (p_streams (the_peer 0 dialler)) = None" "mux_faults (world dialler) = []" "rand_reads (world dialler) = [Ok (replicate 20 1)]"
  "dials (world dialler) = [Ok (side (server_says demo_crypto demo_sk [''gzip'', ''none''] (demo_entry 6 ''b'') (replicate 20 1) (replicate 20 2)))]"
  by (simp_all add: dialler_def demo_node_def fresh_node_def demo_world_def lp_Address_def the_peer_def empty_peer_def empty_sm_def)

lemma listener_sel [simp]: "lp_Entry listener = demo_entry 6 ''b''" "privateKey listener = demo_sk" "p_capabilities (lpeer listener) = [''gzip'', ''none'']"
  "ndb listener = demo_ndb" "pings (world listener) = []" "mux_faults (world listener) = []" "rand_reads (world listener) = [Ok (replicate 20 2)]"
  "peers listener = []" "maxPeers listener = 100" "peer_heap listener = []"
  "streams (world listener) = [Ok (side [entry_message (Some (demo_entry 5 ''a''))])]"
  by (simp_all add: listener_def demo_node_def fresh_node_def demo_world_def)

lemma exported_demo [simp]: "exported (demo_entry n t) = demo_entry n t"
  by (simp add: exported_def demo_entry_def unsigned_entry_def empty_entry_def)

lemma demo_Insert_returns: "length t \<le> 32 \<Longrightarrow> fst (DHT_Insert demo_crypto demo_sqlite (demo_entry n t) demo_ndb) \<noteq> Panic"
  by (rule Insert_no_seeds [OF demo_ndb_inv _ demo_entry_valid [of t n] demo_entry_args, where q = demo_sqlite])
    (simp_all add: DHT_Insert_def)


end
