(* ===== verification/Interface_Props.thy ===== *)
theory Interface_Props
  imports Publish_Props
begin

text \<open>
  The node seen from outside: the responses of the HTTP interface, the identity that survives a restart, and two requests of
  other peers that the node accepts without doing what they are for.
\<close>

section \<open>Responses\<close>

text \<open>What a client can rely on: a value or plain success comes with status 200, an error text with status 500.\<close>

definition response_ok :: "response \<Rightarrow> bool" where
  "response_ok r \<longleftrightarrow> (case body r of ReplyErr t \<Rightarrow> status r = 500 | ReplyValue v \<Rightarrow> status r = 200 \<and> v \<noteq> VNil | ReplyOk \<Rightarrow> status r = 200)"

text \<open>A call that never returns an error: it has a result, or the node crashes.\<close>

definition no_error :: "('s, 'a) proc \<Rightarrow> bool" where
  "no_error m \<longleftrightarrow> (\<forall>s e. fst (m s) \<noteq> Err e)"

definition answers_ok :: "(cserver, response) proc \<Rightarrow> bool" where
  "answers_ok h \<longleftrightarrow> no_error h \<and> (\<forall>s r s'. h s = (Ok r, s') \<longrightarrow> response_ok r)"

lemma no_error_intros [intro]:
  "no_error (ret x)" "no_error (gets g)" "no_error (modify f)" "no_error panic" "no_error (attempt m)" "no_error (ignore m)" "no_error (outcome n)"
  by (auto simp: no_error_def ret_def gets_def modify_def panic_def attempt_def ignore_def outcome_def bind_def
      split: prod.splits res.splits)

lemma no_error_bind [intro]: "no_error m \<Longrightarrow> (\<And>x. no_error (f x)) \<Longrightarrow> no_error (bind m f)"
  by (auto simp: no_error_def bind_def split: prod.splits res.splits) (metis fst_conv)

lemma no_error_zoom [intro]: "no_error m \<Longrightarrow> no_error (zoom g u m)"
  by (auto simp: no_error_def zoom_def split: prod.splits) (metis fst_conv)

lemma no_error_cases [intro]:
  "no_error a \<Longrightarrow> (\<And>x. no_error (b x)) \<Longrightarrow> no_error (case_option a b y)"
  "(\<And>x. no_error (c x)) \<Longrightarrow> (\<And>x. no_error (d x)) \<Longrightarrow> no_error (case_sum c d z)"
  "(\<And>x y. no_error (h x y)) \<Longrightarrow> no_error (case_prod h w)"
  by (simp_all split: option.splits sum.splits prod.splits)

lemma no_error_commands [intro]:
  "no_error (GetMirrorProgress a)" "no_error SaveCollection" "no_error StopCpuProfile" "no_error (cs_PeerSearch L a t n)"
  "no_error (cs_RequestAddPeer L a)"
  unfolding GetMirrorProgress_def SaveCollection_def the_collection_def StopCpuProfile_def cs_PeerSearch_def cs_RSearch_def
    cs_RequestAddPeer_def by (intro no_error_intros no_error_bind no_error_zoom no_error_cases)+

lemma response_ok_write [simp]: "response_ok (write_http_response cr)"
  by (simp add: response_ok_def write_http_response_def WriteJSON_def)

lemma answers_intros:
  "answers_ok (ret (write_http_response cr))" "no_error m \<Longrightarrow> answers_ok (respond m)" "answers_ok panic"
  "(\<And>i. answers_ok (f i)) \<Longrightarrow> answers_ok (with_int t f)" "(\<And>x. answers_ok (k x)) \<Longrightarrow> answers_ok (bind (gets g) k)"
  by (auto simp: answers_ok_def no_error_def ret_def respond_def panic_def with_int_def bind_def gets_def split: option.splits prod.splits res.splits)
    (metis fst_conv)+

lemma http_op_answers: "http_op L h \<Longrightarrow> answers_ok h"
proof (induction rule: http_op.induct)
  case (10 ex p r)
  then show ?case unfolding hs_AddPost_def Let_def cs_AddPost_def by (cases p) (auto intro!: answers_intros)
next
  case (26 dec r)
  then show ?case unfolding hs_AddressEncode_def AddressEncode_def by (cases dec) (auto intro!: answers_intros)
qed (unfold hs_Ping_def hs_Announce_def hs_PeerRSearch_def hs_PeerSearch_def hs_Recent_def hs_Popular_def hs_Mirror_def
  hs_MirrorProgress_def hs_PeerFtsIndex_def hs_FtsIndex_def hs_Resolve_def hs_Bootstrap_def hs_SelfSearch_def
  hs_SelfSuggest_def hs_SelfRecent_def hs_SelfPopular_def hs_AddMeta_def hs_SaveCollection_def hs_RebuildCollection_def
  hs_Peers_def hs_RequestAddPeer_def hs_SelfSet_def hs_SelfGet_def hs_SelfExplore_def hs_SetSeedLeech_def
  hs_SearchEntry_def hs_NetMap_def hs_CpuProfile_def hs_MemProfile_def
  cs_Ping_def cs_Announce_def cs_RSearch_def cs_PeerRecent_def cs_PeerPopular_def cs_Mirror_def cs_PeerIndex_def cs_SelfIndex_def
  cs_Resolve_def cs_Bootstrap_def cs_SelfSearch_def cs_SelfSuggest_def cs_SelfRecent_def cs_SelfPopular_def cs_AddMeta_def
  RebuildCollection_def cs_Peers_def LocalSet_def LocalGet_def cs_Explore_def SetSeedLeech_def cs_EntrySearch_def cs_NetMap_def
  StartCpuProfile_def cs_MemProfile_def,
  (intro answers_intros no_error_intros no_error_commands | simp only: if_split, intro conjI impI)+)

definition reply_ok :: "http_reply \<Rightarrow> bool" where
  "reply_ok x \<longleftrightarrow> (case x of Json r \<Rightarrow> response_ok r | Plain n t \<Rightarrow> n = 200 | _ \<Rightarrow> True)"

definition replies_ok :: "(cserver, http_reply) proc \<Rightarrow> bool" where
  "replies_ok h \<longleftrightarrow> (\<forall>s. (\<exists>r s'. h s = (Ok r, s') \<and> reply_ok r) \<or> (\<exists>s'. h s = (Panic, s')))"

lemma replies_ret: "reply_ok x \<Longrightarrow> replies_ok (ret x)"
  by (simp add: replies_ok_def ret_def)

lemma replies_json:
  assumes "answers_ok h"
  shows "replies_ok (bind h (\<lambda>x. ret (Json x)))"
  unfolding replies_ok_def
proof
  fix s
  obtain r s' where h: "h s = (r, s')" by fastforce
  with assms show "(\<exists>r s'. bind h (\<lambda>x. ret (Json x)) s = (Ok r, s') \<and> reply_ok r) \<or> (\<exists>s'. bind h (\<lambda>x. ret (Json x)) s = (Panic, s'))"
    by (cases r) (auto simp: answers_ok_def no_error_def bind_def ret_def reply_ok_def dest: spec [of _ s])
qed


text \<open>A request for the progress of a mirror, with a router that recognises its path.\<close>

lemma mirror_progress_served:
  assumes "mx ''/peer/{address}/mirrorprogress/'' path = Vars vs" "\<And>t. t \<noteq> ''/peer/{address}/mirrorprogress/'' \<Longrightarrow> mx t path = No_match"
    and "map_of (MirrorProgress s) (vs ''address'') = Some n"
  shows "ListenHttp L i mx ''GET'' path fm s = (Ok (Json \<lparr>status = 200, body = ReplyValue (VInt n)\<rparr>), s)"
  using assms by (simp add: ListenHttp_def routes_def json_def hs_MirrorProgress_def respond_def GetMirrorProgress_def bind_def gets_def ret_def
      write_http_response_def WriteJSON_def cmd_ok_def)

section \<open>Restart\<close>

lemma ReadFile_run: "fs_faults f = [] \<Longrightarrow> ReadFile path f = (case files f path of None \<Rightarrow> Err ErrDriver | Some d \<Rightarrow> Ok d, f)"
  by (simp add: ReadFile_def fs_call_def bind_def)

lemma setup_key_run:
  assumes "fs_faults (lp_files s) = []" "\<And>d. files (lp_files s) ''./data/identity.dat'' = Some d \<Longrightarrow> length d = PrivateKeySize"
    and "fresh = Ok sk" "length sk = PrivateKeySize"
  obtains s' where "setup_key fresh s = (Ok (), s')" "files (lp_files s') ''./data/identity.dat'' = Some (privateKey s')"
    "length (privateKey s') = PrivateKeySize" "p_publicKey (lpeer s') = drop 32 (privateKey s')" "fs_faults (lp_files s') = []"
    "\<And>d. files (lp_files s) ''./data/identity.dat'' = Some d \<Longrightarrow> privateKey s' = d"
proof (cases "files (lp_files s) ''./data/identity.dat''")
  case None
  let ?s = "s\<lparr>privateKey := sk, lpeer := (lpeer s)\<lparr>p_publicKey := drop 32 sk\<rparr>, lp_files := (lp_files s)\<lparr>files := (files (lp_files s))(''./data/identity.dat'' \<mapsto> sk)\<rparr>\<rparr>"
  have "sk \<noteq> []" using assms(4) by (auto simp: PrivateKeySize_def)
  then have "setup_key fresh s = (Ok (), ?s)"
    using assms None by (simp add: setup_key_def ReadKey_def GenerateKey_def WriteKey_def bind_def attempt_def zoom_def ReadFile_run ignore_def
        modify_def gets_def WriteFile_def fs_call_def ret_def PrivateKeySize_def)
  then show ?thesis by (rule that) (use assms None in simp_all)
next
  case (Some d)
  have l: "length d = 64" using assms(2) Some by (simp add: PrivateKeySize_def)
  then have c: "copy_into (replicate PublicKeySize 0) (drop 32 d) = drop 32 d" by (simp add: copy_into_def PublicKeySize_def)
  let ?s = "s\<lparr>privateKey := d, lpeer := (lpeer s)\<lparr>p_publicKey := drop 32 d\<rparr>\<rparr>"
  have "setup_key fresh s = (Ok (), ?s)"
    using assms(1) Some l c by (simp add: setup_key_def ReadKey_def bind_def attempt_def zoom_def ReadFile_run modify_def ret_def)
  then show ?thesis by (rule that) (use assms(1) Some l in \<open>simp_all add: PrivateKeySize_def\<close>)
qed

lemma same_address_intros:
  "preserves (\<lambda>s. lp_Address s = a) (on_dht d)" "preserves (\<lambda>s. lp_Address s = a) (on_files f)" "preserves (\<lambda>s. lp_Address s = a) (on_store path p)"
  by (auto simp: preserves_def zoom_def on_store_def lp_Address_def split: prod.splits)

text \<open>\<open>Setup\<close> gives the node the address of its public key, whatever it finds on the disk.\<close>

lemma Setup_address:
  assumes "Setup L db tables visited s = (Ok (), s')" "length (p_publicKey (lpeer s)) = PublicKeySize"
  shows "Raw (lp_Address s') = Raw (NewAddress (CR L) (p_publicKey (lpeer s)))"
proof -
  let ?a = "snd (Address_Generate (CR L) (p_publicKey (lpeer s)) (p_address (lpeer s)))"
  have w: "preserves (\<lambda>s. lp_Address s = ?a) (walk_handler path name)" for path name
    unfolding walk_handler_def Let_def by (intro proc_intros same_address_intros; simp add: lp_Address_def)
  define m where "m = bind (gets lp_Address) (\<lambda>me.
     bind (lift_res (NewDHT (CR L) (SQ L) me db tables)) (\<lambda>d.
     bind (modify (\<lambda>s. s\<lparr>ndb := d\<rparr>)) (\<lambda>_.
     bind (on_dht (LoadTable ''./data/table.dat'')) (\<lambda>_.
     bind (attempt (on_files (LoadCollection ''./data/collection.dat''))) (\<lambda>r.
     bind (modify (\<lambda>s. s\<lparr>lp_Collection := Some (case r of Inl _ \<Rightarrow> NewCollection | Inr c \<Rightarrow> c)\<rparr>)) (\<lambda>_.
     bind (ignore (forM visited (\<lambda>(path, name). walk_handler path name))) (\<lambda>_.
     modify (\<lambda>s. s\<lparr>lpeer := (lpeer s)\<lparr>p_capabilities := p_capabilities (lpeer s) @ [''gzip'', ''none'']\<rparr>\<rparr>))))))))"
  have m: "preserves (\<lambda>s. lp_Address s = ?a) m"
    unfolding m_def by (intro proc_intros same_address_intros w; simp add: lp_Address_def)
  obtain s1 where s1: "lp_Address s1 = ?a" "m s1 = (Ok (), s')"
    by (rule bind_OkE [OF assms(1) [unfolded Setup_def, folded m_def]]) (rule that, auto simp: modify_def lp_Address_def)
  from preservesD [OF m s1] have "lp_Address s' = ?a" .
  then show ?thesis using assms(2)
    by (simp add: NewAddress_def Address_Generate_def PublicKeySize_def Let_def Raw_Address_String split: prod.splits)
qed

text \<open>C22: A node keeps its identity. At its first start it generates a key, or reads the one it finds, and when it is started again
  with the file it left, it has the same private key, the same public key and, once it is set up, the same
  address, whatever the generator would give then and whatever else is on the disk.\<close>

theorem restart_keeps_identity:
  assumes "fs_faults (lp_files s) = []" "\<And>d. files (lp_files s) ''./data/identity.dat'' = Some d \<Longrightarrow> length d = PrivateKeySize"
    and "length sk = PrivateKeySize" "length sk' = PrivateKeySize"
    and "setup_key (Ok sk) s = (r, s')" "Setup L db tables visited s' = (Ok (), s'')"
    and "fs_faults (lp_files t) = []" "files (lp_files t) ''./data/identity.dat'' = files (lp_files s') ''./data/identity.dat''"
  shows "r = Ok () \<and> (\<exists>t'. setup_key (Ok sk') t = (Ok (), t') \<and> privateKey t' = privateKey s' \<and>
    p_publicKey (lpeer t') = p_publicKey (lpeer s') \<and>
    (\<forall>db' tables' visited' t''. Setup L db' tables' visited' t' = (Ok (), t'') \<longrightarrow> Raw (lp_Address t'') = Raw (lp_Address s'')))"
proof -
  obtain u where u: "setup_key (Ok sk) s = (Ok (), u)" "files (lp_files u) ''./data/identity.dat'' = Some (privateKey u)"
    "length (privateKey u) = PrivateKeySize" "p_publicKey (lpeer u) = drop 32 (privateKey u)"
    by (rule setup_key_run [OF assms(1,2) HOL.refl assms(3)])
  have s': "r = Ok ()" "s' = u" using u(1) assms(5) by auto
  have t: "files (lp_files t) ''./data/identity.dat'' = Some (privateKey u)" using assms(8) u(2) s' by simp
  obtain v where v: "setup_key (Ok sk') t = (Ok (), v)" "privateKey v = privateKey u" "p_publicKey (lpeer v) = drop 32 (privateKey v)"
    by (rule setup_key_run [OF assms(7) _ HOL.refl assms(4)]) (use t u(3) in auto)
  have l: "length (drop 32 (privateKey u)) = PublicKeySize" using u(3) by (simp add: PrivateKeySize_def PublicKeySize_def)
  have "Raw (lp_Address s'') = Raw (NewAddress (CR L) (drop 32 (privateKey u)))"
    using Setup_address [OF assms(6)] u(4) l s'(2) by simp
  moreover have "Raw (lp_Address t'') = Raw (NewAddress (CR L) (drop 32 (privateKey u)))" if "Setup L db' tables' visited' v = (Ok (), t'')" for db' tables' visited' t''
    using Setup_address [OF that] v l by simp
  ultimately show ?thesis using u v s' by auto
qed

theorem restart_keeps_identity_witness:
  "\<exists>s t. setup_key (Ok demo_sk) fresh_node = (Ok (), s) \<and> setup_key (Ok (rev demo_sk)) s = (Ok (), t) \<and> privateKey t = demo_sk"
proof -
  let ?s = "fresh_node\<lparr>lp_files := (lp_files fresh_node)\<lparr>files := [''./data/identity.dat'' \<mapsto> demo_sk]\<rparr>\<rparr>"
  have s: "setup_key (Ok demo_sk) fresh_node = (Ok (), ?s)" "privateKey ?s = demo_sk" "fs_faults (lp_files ?s) = []"
    by (simp_all add: setup_key_def ReadKey_def GenerateKey_def WriteKey_def bind_def attempt_def zoom_def ReadFile_run ignore_def
        modify_def gets_def WriteFile_def fs_call_def ret_def PrivateKeySize_def fresh_node_def demo_sk_def)
  have "Setup demo_libs (empty_store\<lparr>faults := []\<rparr>) (\<lambda>_. None) [] ?s = (Ok (), demo_node\<lparr>lp_files := lp_files ?s\<rparr>)"
    by (simp add: Setup_def lp_Address_def fresh_node_def demo_node_def empty_peer_def demo_address_def NewDHT_empty
      LoadTable_def LoadCollection_def ReadFile_def fs_call_def bind_def modify_def gets_def lift_res_def zoom_def
      attempt_def ignore_def ret_def)
  from restart_keeps_identity [OF _ _ _ _ s(1) this s(3) HOL.refl, of "rev demo_sk"] s show ?thesis
    by (auto simp: fresh_node_def)
qed

section \<open>Requests of other peers\<close>

text \<open>C37: Announcements can be replayed. A node never compares the time an entry was signed with that of the entry it has: an old
  entry of a peer, announced again by anyone, is accepted with ok and takes the place of the newer one.\<close>

theorem announce_replay:
  assumes "msgpack_ok (MP L)" "\<not> too_big (MP L) (WEntry (Some e))" "ndb_inv (ndb s)" "faults (conn (ndb s)) = []"
    and "entry_valid (CR L) e" "\<not> bad_args e" "row_of (SQ L) (conn (ndb s)) (address_key (Address e)) = Some r"
    and "sint (Updated e) < rupdated r"
  shows "\<exists>s' c r'. RouteMessage L who (announce_message e) (s, side []) = (Ok (), s', c) \<and> outbox c = [bare ProtoOk] \<and>
    row_of (SQ L) (conn (ndb s')) (address_key (Address e)) = Some r' \<and> rid r' = rid r \<and>
    rupdated r' = sint (Updated e) \<and> rsignature r' = Signature e"
proof -
  have "entry_valid (CR L) (exported e)" "\<not> bad_args (exported e)" "Address (exported e) = Address e"
    using assms(5,6) by (simp_all, simp add: bad_args_def exported_def)
  then obtain d where d: "Insert (CR L) (SQ L) (exported e) (ndb s) = (Ok 1, d)"
    "row_of (SQ L) (conn d) (address_key (Address e)) = Some (set_columns (SQ L) (exported e) r)"
    using Insert_known_row [OF assms(3,4), of "CR L" "exported e" "SQ L" r] assms(7) by auto
  have "RouteMessage L who (announce_message e) (s, side []) = (Ok (), s\<lparr>ndb := d\<rparr>, (side [])\<lparr>outbox := [bare ProtoOk], closed := True\<rparr>)"
    using route_announce [OF assms(1,2), of "side []" s "Ok 1" d who] d(1) by (simp add: DHT_Insert_def)
  with d(2) show ?thesis by (simp add: set_columns_def exported_def)
qed

definition add_peer_message :: "address \<Rightarrow> message" where
  "add_peer_message a = Message_Write (WAddress a) (bare ProtoRequestAddPeer)"

lemma Insert_known_seeds:
  assumes "ndb_inv s" "faults (conn s) = []" "row_of q (conn s) (address_key (Address e)) = Some r" "length (PublicKey e) \<le> PublicKeySize"
  shows "seed_tbl (conn (snd (Insert C q e s))) = seed_tbl (conn s) \<and> fst (Insert C q e s) \<noteq> Panic"
proof (cases "entry_valid C e")
  case True
  obtain t where t: "insertIntoTable (Address e) (rtab s) = Ok t"
    using insertIntoTable_20 [OF ndb_invD(1) [OF assms(1)]] True by (auto simp: entry_valid_def)
  show ?thesis
  proof (cases "bad_args e")
    case True
    have "Entry_Verify C (Some e) = Ok ()" using \<open>entry_valid C e\<close> by (simp add: Entry_Verify_iff)
    with True t show ?thesis
      by (simp add: Insert_def Update_def sqlUpdateEntry_def fst_Address_String bind_def lift_res_def
          ndb_insertIntoTable_run attempt_def zoom_def fail_def)
  qed (use Insert_known_row [OF assms(1,2) True _ assms(3)] in auto)
next
  case False
  then have "Entry_Verify C (Some e) \<noteq> Ok ()" by (simp add: Entry_Verify_iff)
  moreover have "Entry_Verify C (Some e) \<noteq> Panic"
    using assms(4) by (auto simp: Entry_Verify_def ed25519_Verify_def)
  ultimately show ?thesis by (cases "Entry_Verify C (Some e)") (simp_all add: Insert_def bind_def lift_res_def)
qed

lemma route_add_peer:
  assumes "msgpack_ok (MP L)" "\<not> too_big (MP L) (WAddress a)" "\<not> Address_Equals a (lp_Address s)"
    and "DHT_Query (SQ L) a (ndb s) = (Ok (Some e), d)"
      "DHT_Insert (CR L) (SQ L) (e\<lparr>Seeds := Seeds e @ [Address_Bytes who]\<rparr>) d = (r, d')" "r \<noteq> Panic"
  shows "RouteMessage L who (add_peer_message a) (s, side []) = (Ok (), s\<lparr>ndb := d'\<rparr>, (side [])\<lparr>outbox := [bare ProtoOk], closed := True\<rparr>)"
proof -
  have d: "dec_address (MP L) (WAddress a) = Ok a" using assms(1) by (simp add: msgpack_ok_def)
  have "HandleAddPeer L who (add_peer_message a) (s, side []) = (Ok (), s\<lparr>ndb := d'\<rparr>, (side [])\<lparr>outbox := [bare ProtoOk]\<rparr>)"
    using assms(2-6) by (cases r) (simp_all add: HandleAddPeer_def add_peer_message_def Message_Read_ok d bind_def zoom_def gets_def ignore_def
        attempt_def ret_def)
  then show ?thesis
    by (simp add: RouteMessage_def add_peer_message_def Message_Write_def bare_def proto_headers deferred_def ignore_def
        bind_def attempt_def ret_def zoom_def Client_Close_def modify_def)
qed

text \<open>C38: A seed that asks to be added is told ok and forgotten. When a node is asked to add the asking peer to the seeds of an entry
  of its database, other than its own, it answers ok, but no seed is recorded: the entry is known, so that the
  insertion updates it and leaves the table of the seeds as it was.\<close>

theorem AddPeer_not_recorded:
  assumes "msgpack_ok (MP L)" "\<not> too_big (MP L) (WAddress a)" "\<not> Address_Equals a (lp_Address s)" "affinity_ok (SQ L)"
    and inv: "ndb_inv (ndb s)" "faults (conn (ndb s)) = []" "genuine (conn (ndb s))"
    and row: "row_of (SQ L) (conn (ndb s)) (address_key a) = Some r" "length (rpublicKey r) \<le> PublicKeySize"
  shows "\<exists>s' c. RouteMessage L who (add_peer_message a) (s, side []) = (Ok (), s', c) \<and> outbox c = [bare ProtoOk] \<and>
    seed_tbl (conn (ndb s')) = seed_tbl (conn (ndb s)) \<and> lp_Entry s' = lp_Entry s"
proof -
  let ?e = "stored_entry (conn (ndb s)) r"
  let ?f = "?e\<lparr>Seeds := Seeds ?e @ [Address_Bytes who]\<rparr>"
  obtain t where t: "insertIntoTable (peer_address (raw_of (raddress r))) (rtab (ndb s)) = Ok t"
    "Query (SQ L) a (ndb s) = (Ok (Some ?e, int (rid r)), touched (ndb s) t)" by (rule Query_Some [OF inv row(1)])
  let ?d = "touched (ndb s) t"
  have q: "DHT_Query (SQ L) a (ndb s) = (Ok (Some ?e), ?d)" using t(2) by (simp add: DHT_Query_def bind_def ret_def)
  have i: "ndb_inv ?d" using preservesD [OF ndb_insertIntoTable_inv inv(1) ndb_insertIntoTable_run [OF t(1)]] .
  have "genuine_key (raddress r)" using inv(3) row_of_SomeD [OF row(1)] by (auto simp: genuine_def list_all_iff)
  then obtain raw where raw: "raddress r = EncodeZif raw" "length raw = 20" "raw_of (raddress r) = raw"
    by (rule genuine_keyE)
  then have k: "affinity (SQ L) (address_key (Address ?f)) = affinity (SQ L) (address_key a)"
    using row_of_SomeD [OF row(1)] assms(4) EncodeZif_not_numeric [of raw]
    by (simp add: stored_entry_def peer_address_def affinity_ok_def)
  have r: "row_of (SQ L) (conn ?d) (address_key (Address ?f)) = Some r" using row(1) k by (simp add: row_of_def)
  have "length (PublicKey ?f) \<le> PublicKeySize" using row(2) by (simp add: stored_entry_def entry_of_row_def)
  from Insert_known_seeds [OF i _ r this, of "CR L"] inv(2) obtain x d' where d': "Insert (CR L) (SQ L) ?f ?d = (x, d')" "x \<noteq> Panic"
    "seed_tbl (conn d') = seed_tbl (conn (ndb s))" by (cases "Insert (CR L) (SQ L) ?f ?d") auto
  from route_add_peer [OF assms(1-3) q, of who x d'] d' show ?thesis by (simp add: DHT_Insert_def)
qed

theorem AddPeer_not_recorded_witness:
  "\<exists>s' c. RouteMessage demo_libs demo_me (add_peer_message (peer_address (demo_raw 5))) (demo_two_node, side []) = (Ok (), s', c) \<and>
     outbox c = [bare ProtoOk] \<and> seed_tbl (conn (ndb s')) = []"
proof -
  have "row_of demo_sqlite (conn demo_two) (address_key (peer_address (demo_raw 5))) = Some (demo_row 1 5)" by (simp add: peer_address_def)
  then show ?thesis
    using AddPeer_not_recorded [of demo_libs "peer_address (demo_raw 5)" demo_two_node "demo_row 1 5" demo_me]
    by (auto simp: demo_msgpack_ok demo_row_def new_row_def set_columns_def PublicKeySize_def PrivateKeySize_def demo_sk_def)
qed

definition updated_node :: node where
  "updated_node = demo_node\<lparr>ndb := demo_two\<lparr>conn := (conn demo_two)\<lparr>entry_tbl := [(demo_row 1 5)\<lparr>rupdated := 7\<rparr>, demo_row 2 6]\<rparr>\<rparr>\<rparr>"

theorem announce_replay_witness:
  "\<exists>s' c r'. rupdated (hd (entry_tbl (conn (ndb updated_node)))) = 7 \<and>
     RouteMessage demo_libs demo_me (announce_message (demo_entry 5 ''a'')) (updated_node, side []) = (Ok (), s', c) \<and> outbox c = [bare ProtoOk] \<and>
     row_of demo_sqlite (conn (ndb s')) (EncodeZif (demo_raw 5)) = Some r' \<and> rupdated r' = 1"
proof -
  let ?n = "ndb updated_node" and ?e = "demo_entry 5 ''a''"
  have n: "faults (conn ?n) = []" "rtab ?n = new_table demo_me" "seed_tbl (conn ?n) = []"
    "entry_tbl (conn ?n) = [(demo_row 1 5)\<lparr>rupdated := 7\<rparr>, demo_row 2 6]" "disk ?n = (\<lambda>_. None)"
    by (simp_all add: updated_node_def demo_two_def demo_ndb_def)
  have "store_inv (conn ?n)" by (simp add: store_inv_def upt_rec n)
  then have "ndb_inv ?n" by (simp add: ndb_inv_def new_table_inv demo_me_def peer_address_def n)
  moreover have "row_of demo_sqlite (conn ?n) (address_key (Address ?e)) = Some ((demo_row 1 5)\<lparr>rupdated := 7\<rparr>)"
    by (simp add: row_of_def n peer_address_def)
  moreover have "Updated ?e = 1" "address_key (Address ?e) = EncodeZif (demo_raw 5)"
    by (simp_all add: demo_entry_def unsigned_entry_def peer_address_def)
  ultimately show ?thesis
    using announce_replay [of demo_libs ?e updated_node "(demo_row 1 5)\<lparr>rupdated := 7\<rparr>" demo_me] n
    by (auto simp: demo_msgpack_ok)
qed

end
