(* ===== verification/Spec2Isabelle.thy ===== *)
theory Spec2Isabelle
  imports NetDB_Props Find_Closest Bucket_Cache Dht_Props Post_Props Limiter Handshake_Props Publish_Props Mirror_Session
    Net_Map_Props Connect_Session Interface_Props
begin

text \<open>
  A verification development of zif, a peer to peer network for sharing and searching posts. File names are
  relative to \<^verbatim>\<open>src/\<close>.

  \<^bold>\<open>The program.\<close> A node has an Ed25519 key, an address made from it, and a signed entry that describes it. It
  knows other nodes through a distributed hash table (a routing table in memory beside an SQLite database of
  entries and of who seeds for whom), talks to them over multiplexed streams after a handshake, publishes posts
  from a post database that is cut into hashed pieces, and mirrors the posts of others. Users control it with
  commands over HTTP. A request goes from the HTTP server to a command, from there to the local peer and the
  peer manager, over a connected peer to the other node's server and its handlers, which read and change the
  two databases of that node.

  \<^bold>\<open>Conventions.\<close> A call is a function from the state of its component to an outcome and a new state
  (\<open>Proc\<close>): the outcome is a value, an error or a panic, and effects made before an error stay. A call that
  never returns is a panic that marks the world as blocked. Third-party code is a parameter: the record \<open>libs\<close>
  has the signatures and hashes, SQLite's conversions and matching, msgpack with compression, and JSON. What is
  relied on are the named hypotheses \<open>crypto_ok\<close>, \<open>msgpack_ok\<close>, \<open>affinity_ok\<close> and \<open>text_affinity_ok\<close>, which
  concrete instances satisfy (\<open>Instances\<close> and the examples after the theorems). Calls that may fail consult a script
  in the state, so that a theorem over all states is one over all failures; the network, the clock, the random
  source and the order in which Go iterates over a map are scripts and functions of the same kind.

  \<^bold>\<open>Foundations.\<close>
  \<^item> \<open>Zif_Prelude\<close>: errors and outcomes, decimal numerals, slices; the interfaces \<open>codec\<close> (a printer with a
    reader), \<open>transition_system\<close> and its extension \<open>invariant_system\<close>.
  \<^item> \<open>Proc\<close>: procedures and the rules that carry invariants through them. \<open>Util\<close>: \<^verbatim>\<open>util/util.go\<close>.
    \<open>Limiter\<close>: \<^verbatim>\<open>util/limiter.go\<close> as a step relation. \<open>Sha256\<close>: the hash behind address checksums.

  \<^bold>\<open>The hash table.\<close>
  \<^item> \<open>Base58Check\<close>, \<open>Dht_Address\<close>, \<open>Dht_Entry\<close>: the vendored encoding, \<^verbatim>\<open>dht/address.go\<close>, \<^verbatim>\<open>dht/entry.go\<close>.
    \<open>Dht_Props\<close>: printing and parsing, distances, what a signature protects.
  \<^item> \<open>Routing_Table\<close>: \<open>insertIntoTable\<close> on the arrays the buckets share, refined to a list that moves its element
    to the front; \<open>Bucket_Cache\<close>: how long an address is kept, through the interface \<open>recency_cache\<close>.
  \<^item> \<open>Net_Store\<close>: the statements of \<^verbatim>\<open>dht/sql.go\<close>. \<open>NetDB\<close>: \<^verbatim>\<open>dht/netdb.go\<close> and \<^verbatim>\<open>dht/dht.go\<close>. \<open>NetDB_Inv\<close>, \<open>NetDB_Query\<close>,
    \<open>NetDB_Props\<close>: the invariant and its preservation, what each operation computes, insertion followed by
    query, seeds. \<open>Find_Closest\<close>: termination, bounds and panics of the search for near peers.

  \<^bold>\<open>Posts.\<close>
  \<^item> \<open>Posts\<close>, \<open>Collections\<close>: \<^verbatim>\<open>data/post.go\<close>, \<^verbatim>\<open>data/piece.go\<close>, \<^verbatim>\<open>data/errors.go\<close>, \<^verbatim>\<open>data/collection.go\<close> and hash lists.
  \<^item> \<open>Post_Store\<close>: \<^verbatim>\<open>data/database.go\<close>, \<^verbatim>\<open>data/sql.go\<close>, \<^verbatim>\<open>data/search.go\<close>. \<open>Post_Props\<close>: posts are numbered without gaps,
    pieces are slices of the table, and a transfer gives the receiver the same pieces.

  \<^bold>\<open>The protocol and the node.\<close>
  \<^item> \<open>Protocol\<close>, \<open>Handshake\<close>: messages, the client and the handshake of \<^verbatim>\<open>proto/\<close>. \<open>Handshake_Props\<close>: who completes it.
  \<^item> \<open>Node\<close>, \<open>Peer_Manager\<close>, \<open>Local_Peer\<close>, \<open>Handlers\<close>, \<open>Mirroring\<close>: \<^verbatim>\<open>peer.go\<close>, \<^verbatim>\<open>peermanager.go\<close>, \<^verbatim>\<open>localpeer.go\<close> with
    \<^verbatim>\<open>jobs/explore.go\<close>, \<^verbatim>\<open>tor.go\<close>, \<^verbatim>\<open>nat.go\<close> and \<^verbatim>\<open>cmd/zifd/\<close>, \<^verbatim>\<open>localpeerhandlers.go\<close> with \<^verbatim>\<open>proto/server.go\<close>, and mirroring,
    \<^verbatim>\<open>seedmanager.go\<close> and \<^verbatim>\<open>netmap.go\<close>.
  \<^item> \<open>Commands\<close>, \<open>Http_Server\<close>: \<^verbatim>\<open>commandserver.go\<close> and \<^verbatim>\<open>httpserver.go\<close> with its routes.
  \<^item> \<open>Node_Inv\<close>, \<open>Node_Props\<close>: every operation keeps the invariant of the node, hence every reachable state has it.
    \<open>Request_Props\<close>: what requests can change and how they are answered. \<open>Publish_Props\<close>, \<open>Mirror_Props\<close>,
    \<open>Mirror_Session\<close>: publishing, what a mirror can be made to store, and a whole session between two nodes.
    \<open>Resolve_Props\<close>: finding entries. \<open>Manager_Props\<close>, \<open>Connect_Session\<close>: the bound on peers and a connection
    between two nodes. \<open>Net_Map_Props\<close>: the network map. \<open>Interface_Props\<close>: HTTP replies, restart, replay.

  The four components that run for ever (limiter, network database, post database, node) are interpretations
  of \<open>invariant_system\<close> on their own step relations.

  \<^bold>\<open>Bounds.\<close> Four recursions take a bound. \<open>evict\<close> gets one more than the number of peers, which is
  enough when the maps of the manager agree (\<open>manager_ok\<close> in \<open>Manager_Props\<close>): each round then removes one. That
  they agree is a hypothesis there, not part of the invariant of the node. \<open>HandleStream\<close> needs one message, because every message closes its stream (\<open>HandleStream_enough\<close>).
  \<open>CreateNetMap\<close> needs a depth of one more than the number of stored entries, and any greater depth gives the same
  result (\<open>Net_Map_Props\<close>). \<open>resolveStep\<close> is called with 6, the depth of the code, and the nested call is never
  reached (\<open>Resolve_Props\<close>). Other counters are those of the counted loops of the code.

  \<^bold>\<open>Concurrency.\<close> Goroutines are rounds: one accepted connection or stream, one tick, one discovered entry. The steps of a
  node interleave rounds in any order, but a round is not interrupted. Only the limiter is modelled at
  the level of single channel operations.

  \<^bold>\<open>Not modelled.\<close> The insides of msgpack, gzip, yamux, SQLite, JSON, the HTTP router's matching of paths, viper's reading of the
  configuration and Tor's control protocol, which are parameters. Logging, signals and deadlines. Interleaving inside a
  round, hence data races. Methods without behaviour of their own: one-line methods that pass
  a call on, accessors, the JSON forms of posts, messages and addresses, empty bodies (\<open>ReadPost\<close>, the client's
  \<open>Terminate\<close>), and the interface types of \<^verbatim>\<open>common/\<close>, \<^verbatim>\<open>proto/interface.go\<close> and \<^verbatim>\<open>dht/interfaces.go\<close>.
\<close>

end
